(* ===== verification/Allox_Prelude.thy ===== *)
theory Allox_Prelude
  imports
    Complex_Main
    "HOL-Library.AList"
    "HOL-Library.List_Lexorder"
    "HOL-Library.Char_ord"
    "HOL-Library.Product_Lexorder"
begin

text \<open>
  Shared vocabulary of the development: the dynamically typed values the Python sources pass
  around (JSON documents, ordered dictionaries), the exceptions they raise, the result and
  state-and-exception computations the operations are written in, a fault schedule that decides
  how each durable effect of an operation ends, and the calculus of weakest preconditions the
  component theories use to reason about them.
\<close>

section \<open>Collections of facts\<close>

named_theorems wp_simps \<open>unfolding rules of the weakest precondition of the program combinators\<close>
named_theorems io_defs \<open>definitions of the program combinators\<close>
named_theorems frame_simps \<open>fields an operation leaves alone\<close>

section \<open>Values\<close>

text \<open>
  A Python float is a rational or one of the three non-finite values; a JSON document is a tree.
  Objects are insertion-ordered association lists, which is what a Python dictionary is:
  \<^const>\<open>AList.update\<close> overwrites in place or appends at the end.
\<close>

datatype pyfloat = Finite rat | NaN | PosInf | NegInf

datatype json =
    JNull
  | JBool bool
  | JInt int
  | JFloat pyfloat
  | JStr string
  | JList "json list"
  | JObj "(string \<times> json) list"

type_synonym ('k, 'v) dict = "('k \<times> 'v) list"
type_synonym jdict = "(string, json) dict"

abbreviation dict_set :: "'k \<Rightarrow> 'v \<Rightarrow> ('k, 'v) dict \<Rightarrow> ('k, 'v) dict" where
  "dict_set \<equiv> AList.update"

abbreviation dict_del :: "'k \<Rightarrow> ('k, 'v) dict \<Rightarrow> ('k, 'v) dict" where
  "dict_del \<equiv> AList.delete"

abbreviation dict_keys :: "('k, 'v) dict \<Rightarrow> 'k list" where
  "dict_keys d \<equiv> map fst d"

definition dict_get :: "('k, 'v) dict \<Rightarrow> 'k \<Rightarrow> 'v \<Rightarrow> 'v" where
  "dict_get d k dflt = (case map_of d k of None \<Rightarrow> dflt | Some v \<Rightarrow> v)"

abbreviation jget :: "jdict \<Rightarrow> string \<Rightarrow> json" where
  "jget d k \<equiv> dict_get d k JNull"

text \<open>\<open>{**d, **e}\<close>: the entries of \<open>e\<close> are written over those of \<open>d\<close> in order.\<close>

fun dict_merge :: "('k, 'v) dict \<Rightarrow> ('k, 'v) dict \<Rightarrow> ('k, 'v) dict" where
  "dict_merge d [] = d"
| "dict_merge d ((k, v) # e) = dict_merge (dict_set k v d) e"

definition dict_of_opt :: "string option \<Rightarrow> json" where
  "dict_of_opt x = (case x of None \<Rightarrow> JNull | Some s \<Rightarrow> JStr s)"

text \<open>Truth value of a JSON value (\<open>bool(x)\<close>).\<close>

fun truthy :: "json \<Rightarrow> bool" where
  "truthy JNull = False"
| "truthy (JBool b) = b"
| "truthy (JInt i) = (i \<noteq> 0)"
| "truthy (JFloat f) = (f \<noteq> Finite 0)"
| "truthy (JStr s) = (s \<noteq> [])"
| "truthy (JList l) = (l \<noteq> [])"
| "truthy (JObj d) = (d \<noteq> [])"

text \<open>Equality with an integer literal: Python identifies \<open>True\<close>, \<open>1\<close> and \<open>1.0\<close>.\<close>

fun py_eq_int :: "json \<Rightarrow> int \<Rightarrow> bool" where
  "py_eq_int (JInt i) n = (i = n)"
| "py_eq_int (JBool b) n = ((if b then 1 else 0) = n)"
| "py_eq_int (JFloat (Finite q)) n = (q = of_int n)"
| "py_eq_int _ n = False"

fun is_str :: "json \<Rightarrow> bool" where
  "is_str (JStr s) = True"
| "is_str _ = False"

fun is_bool :: "json \<Rightarrow> bool" where
  "is_bool (JBool b) = True"
| "is_bool _ = False"

fun is_int :: "json \<Rightarrow> bool" where
  "is_int (JInt i) = True"
| "is_int _ = False"

fun is_obj :: "json \<Rightarrow> bool" where
  "is_obj (JObj d) = True"
| "is_obj _ = False"

fun hashable :: "json \<Rightarrow> bool" where
  "hashable (JList l) = False"
| "hashable (JObj d) = False"
| "hashable _ = True"

section \<open>Strings\<close>

definition startswith :: "string \<Rightarrow> string \<Rightarrow> bool" where
  "startswith s p = (take (length p) s = p)"

lemma startswith_iff: "startswith s p \<longleftrightarrow> (\<exists>r. s = p @ r)"
proof
  assume "startswith s p"
  then have "s = p @ drop (length p) s" unfolding startswith_def by (metis append_take_drop_id)
  then show "\<exists>r. s = p @ r" by blast
qed (auto simp: startswith_def)

definition endswith :: "string \<Rightarrow> string \<Rightarrow> bool" where
  "endswith s p = (length p \<le> length s \<and> drop (length s - length p) s = p)"

fun contains_sub :: "string \<Rightarrow> string \<Rightarrow> bool" where
  "contains_sub [] p = (p = [])"
| "contains_sub (c # s) p = (startswith (c # s) p \<or> contains_sub s p)"

definition is_digit :: "char \<Rightarrow> bool" where
  "is_digit c = (let n = (of_char c :: nat) in 48 \<le> n \<and> n \<le> 57)"

definition is_alpha :: "char \<Rightarrow> bool" where
  "is_alpha c = (let n = (of_char c :: nat) in
     (65 \<le> n \<and> n \<le> 90) \<or> (97 \<le> n \<and> n \<le> 122))"

definition is_space :: "char \<Rightarrow> bool" where
  "is_space c = (let n = (of_char c :: nat) in
     n = 32 \<or> (9 \<le> n \<and> n \<le> 13) \<or> (28 \<le> n \<and> n \<le> 31) \<or> n = 133 \<or> n = 160)"

definition strip :: "string \<Rightarrow> string" where
  "strip s = rev (dropWhile is_space (rev (dropWhile is_space s)))"

definition to_lower :: "char \<Rightarrow> char" where
  "to_lower c = (if 65 \<le> (of_char c :: nat) \<and> (of_char c :: nat) \<le> 90
                 then char_of ((of_char c :: nat) + 32) else c)"

text \<open>\<open>sep.split\<close> with a one-character separator.\<close>

fun split_on :: "char \<Rightarrow> string \<Rightarrow> string list" where
  "split_on x [] = [[]]"
| "split_on x (c # s) =
     (if c = x then [] # split_on x s
      else (case split_on x s of [] \<Rightarrow> [[c]] | w # ws \<Rightarrow> (c # w) # ws))"

text \<open>\<open>", ".join(xs)\<close>\<close>

fun join_comma :: "string list \<Rightarrow> string" where
  "join_comma [] = []"
| "join_comma [x] = x"
| "join_comma (x # xs) = x @ '', '' @ join_comma xs"

text \<open>\<open>s.splitlines()\<close>, \<open>s.split()\<close> and \<open>s.replace(pat, rep)\<close> for a nonempty pattern.\<close>

definition is_linebreak :: "char \<Rightarrow> bool" where
  "is_linebreak c = (of_char c \<in> {10, 11, 12, 13, 28, 29, 30, 133 :: nat})"

fun lines_from :: "string \<Rightarrow> string \<Rightarrow> string list" where
  "lines_from acc [] = (if acc = [] then [] else [rev acc])"
| "lines_from acc (c # s) =
     (if is_linebreak c
      then rev acc # lines_from [] (if c = CHR 0x0D \<and> startswith s [CHR 0x0A] then tl s else s)
      else lines_from (c # acc) s)"

definition splitlines :: "string \<Rightarrow> string list" where
  "splitlines s = lines_from [] s"

fun words_from :: "string \<Rightarrow> string \<Rightarrow> string list" where
  "words_from acc [] = (if acc = [] then [] else [rev acc])"
| "words_from acc (c # s) =
     (if is_space c then (if acc = [] then [] else [rev acc]) @ words_from [] s
      else words_from (c # acc) s)"

definition words_of :: "string \<Rightarrow> string list" where
  "words_of s = words_from [] s"

fun py_replace :: "string \<Rightarrow> string \<Rightarrow> string \<Rightarrow> string" where
  "py_replace pat rep [] = []"
| "py_replace pat rep (c # s) =
     (if startswith (c # s) pat then rep @ py_replace pat rep (drop (length pat - 1) s)
      else c # py_replace pat rep s)"

text \<open>Decimal rendering of an integer, and the parser behind \<open>int(s)\<close>.\<close>

function nat_digits :: "nat \<Rightarrow> string" where
  "nat_digits n = (if n < 10 then [char_of (48 + n)]
                   else nat_digits (n div 10) @ [char_of (48 + n mod 10)])"
  by pat_completeness auto
termination by (relation "measure id") auto

declare nat_digits.simps [simp del]

definition int_str :: "int \<Rightarrow> string" where
  "int_str i = (if i < 0 then CHR ''-'' # nat_digits (nat (- i)) else nat_digits (nat i))"

text \<open>Digits with single underscores between them; \<open>pre\<close> says that a digit came just before.\<close>

fun digits_val :: "bool \<Rightarrow> nat \<Rightarrow> string \<Rightarrow> nat option" where
  "digits_val pre acc [] = (if pre then Some acc else None)"
| "digits_val pre acc (c # s) =
     (if is_digit c then digits_val True (10 * acc + (of_char c - 48)) s
      else if c = CHR ''_'' \<and> pre then digits_val False acc s
      else None)"

definition int_of_string :: "string \<Rightarrow> int option" where
  "int_of_string s =
     (case strip s of
        [] \<Rightarrow> None
      | c # r \<Rightarrow> if c = CHR ''-'' then map_option (\<lambda>n. - int n) (digits_val False 0 r)
                 else if c = CHR ''+'' then map_option int (digits_val False 0 r)
                 else map_option int (digits_val False 0 (c # r)))"

section \<open>Exceptions and results\<close>

text \<open>
  Every exception class the modelled code raises or lets through. \<open>Crashed\<close> is no exception
  of the language: it is the end of the daemon process (power loss, kill), which no handler sees.
\<close>

datatype error =
    WorkspaceError string
  | CheckpointIndexError string
  | OSError string
  | FileNotFoundError string
  | ValueError string
  | TypeError
  | AttributeError
  | KeyError
  | IndexError
  | OverflowError
  | AssertionError
  | RuntimeError string
  | CalledProcessError
  | TimeoutExpired
  | SystemExit string
  | Crashed

type_synonym 'a res = "error + 'a"

definition bindR :: "'a res \<Rightarrow> ('a \<Rightarrow> 'b res) \<Rightarrow> 'b res" where
  "bindR m f = (case m of Inl e \<Rightarrow> Inl e | Inr x \<Rightarrow> f x)"

lemma bindR_simps [simp]:
  "bindR (Inl e) f = Inl e"
  "bindR (Inr x) f = f x"
  by (simp_all add: bindR_def)

lemma bindR_eq_Inr: "bindR m f = Inr y \<longleftrightarrow> (\<exists>x. m = Inr x \<and> f x = Inr y)"
  by (cases m) simp_all

definition checkR :: "bool \<Rightarrow> error \<Rightarrow> unit res" where
  "checkR ok e = (if ok then Inr () else Inl e)"

lemma checkR_simps [simp]:
  "checkR ok e = Inr u \<longleftrightarrow> ok"
  "checkR True e = Inr ()"
  "checkR False e = Inl e"
  by (simp_all add: checkR_def)

fun mapR :: "('a \<Rightarrow> 'b res) \<Rightarrow> 'a list \<Rightarrow> 'b list res" where
  "mapR f [] = Inr []"
| "mapR f (x # xs) = bindR (f x) (\<lambda>y. bindR (mapR f xs) (\<lambda>ys. Inr (y # ys)))"

lemma mapR_Inr: "(\<And>x. x \<in> set xs \<Longrightarrow> f x = Inr (g x)) \<Longrightarrow> mapR f xs = Inr (map g xs)"
  by (induction xs) auto

text \<open>\<open>str(exc)\<close>, for the handlers that quote the exception they caught.\<close>

fun exc_text :: "error \<Rightarrow> string" where
  "exc_text (WorkspaceError m) = m"
| "exc_text (CheckpointIndexError m) = m"
| "exc_text (OSError m) = m"
| "exc_text (FileNotFoundError m) = m"
| "exc_text (ValueError m) = m"
| "exc_text (RuntimeError m) = m"
| "exc_text (SystemExit m) = m"
| "exc_text _ = []"

text \<open>\<open>type(exc).__name__\<close>\<close>

fun exc_class :: "error \<Rightarrow> string" where
  "exc_class (WorkspaceError m) = ''WorkspaceError''"
| "exc_class (CheckpointIndexError m) = ''CheckpointIndexError''"
| "exc_class (OSError m) = ''OSError''"
| "exc_class (FileNotFoundError m) = ''FileNotFoundError''"
| "exc_class (ValueError m) = ''ValueError''"
| "exc_class TypeError = ''TypeError''"
| "exc_class AttributeError = ''AttributeError''"
| "exc_class KeyError = ''KeyError''"
| "exc_class IndexError = ''IndexError''"
| "exc_class OverflowError = ''OverflowError''"
| "exc_class AssertionError = ''AssertionError''"
| "exc_class (RuntimeError m) = ''RuntimeError''"
| "exc_class CalledProcessError = ''CalledProcessError''"
| "exc_class TimeoutExpired = ''TimeoutExpired''"
| "exc_class (SystemExit m) = ''SystemExit''"
| "exc_class Crashed = []"

text \<open>\<open>except OSError\<close>, which also sees the subclass \<open>FileNotFoundError\<close>.\<close>

fun is_OSError :: "error \<Rightarrow> bool" where
  "is_OSError (OSError m) = True"
| "is_OSError (FileNotFoundError m) = True"
| "is_OSError _ = False"

text \<open>\<open>int(x)\<close> on a JSON value: floats truncate towards zero, strings are parsed.\<close>

fun py_int :: "json \<Rightarrow> int res" where
  "py_int (JInt i) = Inr i"
| "py_int (JBool b) = Inr (if b then 1 else 0)"
| "py_int (JFloat (Finite q)) = Inr (if q < 0 then - \<lfloor>- q\<rfloor> else \<lfloor>q\<rfloor>)"
| "py_int (JFloat NaN) = Inl (ValueError ''cannot convert float NaN to integer'')"
| "py_int (JFloat _) = Inl OverflowError"
| "py_int (JStr s) = (case int_of_string s of None \<Rightarrow> Inl (ValueError ''invalid literal for int()'')
                      | Some i \<Rightarrow> Inr i)"
| "py_int _ = Inl TypeError"

text \<open>\<open>for x in v\<close>: lists, the characters of a string, the keys of an object.\<close>

fun py_iter :: "json \<Rightarrow> json list res" where
  "py_iter (JList l) = Inr l"
| "py_iter (JStr s) = Inr (map (\<lambda>c. JStr [c]) s)"
| "py_iter (JObj d) = Inr (map (\<lambda>(k, _). JStr k) d)"
| "py_iter _ = Inl TypeError"

text \<open>\<open>x in \<close> a set of string literals: an unhashable value raises.\<close>

definition in_str_set :: "json \<Rightarrow> string list \<Rightarrow> bool res" where
  "in_str_set v xs = (if hashable v then Inr (v \<in> JStr ` set xs) else Inl TypeError)"

section \<open>Association lists\<close>

lemma map_of_dict_set [simp]: "map_of (dict_set k v d) = (map_of d)(k \<mapsto> v)"
  by (rule update_conv')

lemma map_of_dict_del [simp]: "map_of (dict_del k d) = (map_of d)(k := None)"
  by (rule delete_conv')

lemma dict_set_keys_set [simp]: "fst ` set (dict_set k v d) = insert k (fst ` set d)"
  by (simp add: dom_update)

lemma dict_del_keys_set [simp]: "fst ` set (dict_del k d) = fst ` set d - {k}"
  by (auto simp: AList.delete_eq)

lemma dict_get_simps [simp]:
  "map_of d k = None \<Longrightarrow> dict_get d k x = x"
  "map_of d k = Some v \<Longrightarrow> dict_get d k x = v"
  by (simp_all add: dict_get_def)

lemma dict_get_set [simp]:
  "dict_get (dict_set k v d) k' x = (if k' = k then v else dict_get d k' x)"
  by (simp add: dict_get_def)

lemma distinct_dict_set [simp]:
  "distinct (dict_keys d) \<Longrightarrow> distinct (dict_keys (dict_set k v d))"
  by (rule distinct_update)

lemma distinct_dict_del [simp]:
  "distinct (dict_keys d) \<Longrightarrow> distinct (dict_keys (dict_del k d))"
  by (rule distinct_delete)

lemma map_of_dom: "(\<exists>v. map_of d k = Some v) \<longleftrightarrow> k \<in> fst ` set d"
  by (metis domIff dom_map_of_conv_image_fst not_Some_eq)

lemma set_singleton_iff: "distinct xs \<Longrightarrow> set xs = {x} \<longleftrightarrow> xs = [x]"
proof (cases xs)
  case (Cons a as)
  then show "distinct xs \<Longrightarrow> set xs = {x} \<longleftrightarrow> xs = [x]" by (cases as) auto
qed simp

lemma map_of_dict_merge:
  "map_of (dict_merge d e) k = (case map_of (rev e) k of None \<Rightarrow> map_of d k | Some v \<Rightarrow> Some v)"
  by (induction d e rule: dict_merge.induct) (auto simp: map_of_append map_add_def split: option.splits)

section \<open>Computations with state, exceptions and faults\<close>

text \<open>
  An operation takes the state and returns the exception it raised or its result together with
  the state it leaves: what was written before an exception stays written.
\<close>

type_synonym ('s, 'a) op = "'s \<Rightarrow> 'a res \<times> 's"

definition ret :: "'a \<Rightarrow> ('s, 'a) op" where
  "ret x = (\<lambda>s. (Inr x, s))"

definition raise :: "error \<Rightarrow> ('s, 'a) op" where
  "raise e = (\<lambda>s. (Inl e, s))"

definition bind :: "('s, 'a) op \<Rightarrow> ('a \<Rightarrow> ('s, 'b) op) \<Rightarrow> ('s, 'b) op" where
  "bind m f = (\<lambda>s. case m s of (Inl e, s') \<Rightarrow> (Inl e, s') | (Inr x, s') \<Rightarrow> f x s')"

definition andthen :: "('s, 'a) op \<Rightarrow> ('s, 'b) op \<Rightarrow> ('s, 'b) op" where
  "andthen m k = bind m (\<lambda>_. k)"

definition gets :: "('s \<Rightarrow> 'a) \<Rightarrow> ('s, 'a) op" where
  "gets f = (\<lambda>s. (Inr (f s), s))"

definition modify :: "('s \<Rightarrow> 's) \<Rightarrow> ('s, unit) op" where
  "modify f = (\<lambda>s. (Inr (), f s))"

definition lift_res :: "'a res \<Rightarrow> ('s, 'a) op" where
  "lift_res r = (\<lambda>s. (r, s))"

text \<open>\<open>if not ok: raise e\<close>\<close>

definition require :: "bool \<Rightarrow> error \<Rightarrow> ('s, unit) op" where
  "require ok e = (if ok then ret () else raise e)"

definition whenM :: "bool \<Rightarrow> ('s, unit) op \<Rightarrow> ('s, unit) op" where
  "whenM c m = (if c then m else ret ())"

text \<open>\<open>try: m except sel: h\<close>; a crash is never caught.\<close>

definition catch :: "(error \<Rightarrow> bool) \<Rightarrow> ('s, 'a) op \<Rightarrow> (error \<Rightarrow> ('s, 'a) op) \<Rightarrow> ('s, 'a) op" where
  "catch sel m h = (\<lambda>s. case m s of
      (Inl e, s') \<Rightarrow> (if e \<noteq> Crashed \<and> sel e then h e s' else (Inl e, s'))
    | (Inr x, s') \<Rightarrow> (Inr x, s'))"

text \<open>\<open>try: m finally: f\<close>; after a crash the finaliser does not run.\<close>

definition finally_do :: "('s, 'a) op \<Rightarrow> ('s, unit) op \<Rightarrow> ('s, 'a) op" where
  "finally_do m f = (\<lambda>s. case m s of
      (r, s') \<Rightarrow> if r = Inl Crashed then (r, s')
                  else (case f s' of (Inl e, s'') \<Rightarrow> (Inl e, s'') | (Inr _, s'') \<Rightarrow> (r, s'')))"

fun forM :: "'a list \<Rightarrow> ('a \<Rightarrow> ('s, unit) op) \<Rightarrow> ('s, unit) op" where
  "forM [] f = ret ()"
| "forM (x # xs) f = andthen (f x) (forM xs f)"

lemmas op_defs [io_defs] =
  ret_def raise_def bind_def andthen_def gets_def modify_def lift_res_def require_def whenM_def
  catch_def finally_do_def

section \<open>Weakest preconditions\<close>

text \<open>
  \<open>wp m Q E s\<close>: run from \<open>s\<close>, \<open>m\<close> either returns a result satisfying \<open>Q\<close> or raises an
  exception satisfying \<open>E\<close>. Every computation is total, so this is total correctness.
\<close>

definition wp :: "('s, 'a) op \<Rightarrow> ('a \<Rightarrow> 's \<Rightarrow> bool) \<Rightarrow> (error \<Rightarrow> 's \<Rightarrow> bool) \<Rightarrow> 's \<Rightarrow> bool" where
  "wp m Q E s = (case m s of (Inl e, s') \<Rightarrow> E e s' | (Inr x, s') \<Rightarrow> Q x s')"

lemma wp_ret [wp_simps]: "wp (ret x) Q E s = Q x s"
  by (simp add: wp_def ret_def)

lemma wp_raise [wp_simps]: "wp (raise e) Q E s = E e s"
  by (simp add: wp_def raise_def)

lemma wp_bind [wp_simps]: "wp (bind m f) Q E s = wp m (\<lambda>x. wp (f x) Q E) E s"
  by (auto simp: wp_def bind_def split: sum.splits prod.splits)

lemma wp_andthen [wp_simps]: "wp (andthen m k) Q E s = wp m (\<lambda>_. wp k Q E) E s"
  by (simp add: andthen_def wp_bind)

lemma wp_gets [wp_simps]: "wp (gets f) Q E s = Q (f s) s"
  by (simp add: wp_def gets_def)

lemma wp_modify [wp_simps]: "wp (modify f) Q E s = Q () (f s)"
  by (simp add: wp_def modify_def)

lemma wp_lift_res [wp_simps]:
  "wp (lift_res r) Q E s = (case r of Inl e \<Rightarrow> E e s | Inr x \<Rightarrow> Q x s)"
  by (simp add: wp_def lift_res_def)

lemma wp_require [wp_simps]: "wp (require ok e) Q E s = (if ok then Q () s else E e s)"
  by (simp add: require_def wp_ret wp_raise)

lemma wp_whenM [wp_simps]: "wp (whenM c m) Q E s = (if c then wp m Q E s else Q () s)"
  by (simp add: whenM_def wp_ret)

lemma wp_if [wp_simps]: "wp (if c then m else k) Q E s = (if c then wp m Q E s else wp k Q E s)"
  by simp

lemma wp_catch [wp_simps]:
  "wp (catch sel m h) Q E s =
     wp m Q (\<lambda>e s'. if e \<noteq> Crashed \<and> sel e then wp (h e) Q E s' else E e s') s"
  by (auto simp: wp_def catch_def split: sum.splits prod.splits)

lemma wp_mono:
  assumes "wp m Q E s" and "\<And>x s'. Q x s' \<Longrightarrow> Q' x s'" and "\<And>e s'. E e s' \<Longrightarrow> E' e s'"
  shows "wp m Q' E' s"
  using assms by (auto simp: wp_def split: sum.splits prod.splits)

lemma wp_conj:
  assumes "wp m Q E s" and "wp m Q' E' s"
  shows "wp m (\<lambda>x s'. Q x s' \<and> Q' x s') (\<lambda>e s'. E e s' \<and> E' e s') s"
  using assms by (auto simp: wp_def split: sum.splits prod.splits)

lemma wp_Inr: "wp m Q E s \<Longrightarrow> m s = (Inr x, s') \<Longrightarrow> Q x s'"
  by (simp add: wp_def)

lemma wp_Inl: "wp m Q E s \<Longrightarrow> m s = (Inl e, s') \<Longrightarrow> E e s'"
  by (simp add: wp_def)

lemma wp_forM_inv:
  assumes "\<And>x s. x \<in> set xs \<Longrightarrow> I s \<Longrightarrow> wp (f x) (\<lambda>_. I) (\<lambda>_. I) s" and "I s"
  shows "wp (forM xs f) (\<lambda>_. I) (\<lambda>_. I) s"
  using assms
proof (induction xs arbitrary: s)
  case Nil
  then show ?case by (simp add: wp_ret)
next
  case (Cons x xs)
  have "wp (f x) (\<lambda>_. I) (\<lambda>_. I) s"
    using Cons.prems by simp
  then have "wp (f x) (\<lambda>_. wp (forM xs f) (\<lambda>_. I) (\<lambda>_. I)) (\<lambda>_. I) s"
    by (rule wp_mono) (use Cons in auto)
  then show ?case by (simp add: wp_andthen)
qed

section \<open>Quantities an operation never lowers, and parts it leaves alone\<close>

definition grows :: "('s \<Rightarrow> 'o :: preorder) \<Rightarrow> ('s, 'a) op \<Rightarrow> bool" where
  "grows f m = (\<forall>s. f s \<le> f (snd (m s)))"

definition keeps :: "('s \<Rightarrow> 'v) \<Rightarrow> ('s, 'a) op \<Rightarrow> bool" where
  "keeps f m = (\<forall>s. f (snd (m s)) = f s)"

named_theorems grows_intros \<open>composition rules of quantities that never fall\<close>
named_theorems keeps_intros \<open>composition rules of parts left alone\<close>

lemma growsD: "grows f m \<Longrightarrow> m s = (r, s') \<Longrightarrow> f s \<le> f s'"
  by (metis grows_def snd_conv)

lemma keepsD: "keeps f m \<Longrightarrow> m s = (r, s') \<Longrightarrow> f s' = f s"
  by (metis keeps_def snd_conv)

lemma grows_pure [grows_intros]:
  "grows f (ret x)" "grows f (raise e)" "grows f (lift_res r)" "grows f (gets g)" "grows f (require b e)"
  by (simp_all add: grows_def io_defs)

lemma grows_bind [grows_intros]:
  assumes "grows f m" and "\<And>x. grows f (g x)"
  shows "grows f (bind m g)"
  unfolding grows_def
proof
  fix s
  obtain r s1 where m: "m s = (r, s1)" by (cases "m s")
  show "f s \<le> f (snd (bind m g s))"
  proof (cases r)
    case (Inl e)
    then show ?thesis using m growsD [OF assms(1) m] by (simp add: bind_def)
  next
    case (Inr x)
    have "f s1 \<le> f (snd (g x s1))" using assms(2) by (simp add: grows_def)
    then show ?thesis
      using m Inr growsD [OF assms(1) m] by (auto simp: bind_def intro: order_trans)
  qed
qed

lemma grows_catch [grows_intros]:
  assumes "grows f m" and "\<And>e. grows f (h e)"
  shows "grows f (catch sel m h)"
  unfolding grows_def
proof
  fix s
  obtain r s1 where m: "m s = (r, s1)" by (cases "m s")
  show "f s \<le> f (snd (catch sel m h s))"
  proof (cases r)
    case (Inl e)
    have "f s1 \<le> f (snd (h e s1))" using assms(2) by (simp add: grows_def)
    then show ?thesis
      using m Inl growsD [OF assms(1) m] by (auto simp: catch_def intro: order_trans)
  next
    case (Inr x)
    then show ?thesis using m growsD [OF assms(1) m] by (simp add: catch_def)
  qed
qed

lemma grows_andthen [grows_intros]: "grows f m \<Longrightarrow> grows f k \<Longrightarrow> grows f (andthen m k)"
  unfolding andthen_def by (rule grows_bind)

lemma grows_whenM [grows_intros]: "grows f m \<Longrightarrow> grows f (whenM b m)"
  by (simp add: whenM_def grows_pure)

lemma keeps_pure [keeps_intros]:
  "keeps f (ret x)" "keeps f (raise e)" "keeps f (lift_res r)" "keeps f (gets g)" "keeps f (require b e)"
  by (simp_all add: keeps_def io_defs)

lemma keeps_bind [keeps_intros]: "keeps f m \<Longrightarrow> (\<And>x. keeps f (g x)) \<Longrightarrow> keeps f (bind m g)"
  by (auto simp: keeps_def bind_def split: prod.splits sum.splits) (metis snd_conv)+

lemma keeps_andthen [keeps_intros]: "keeps f m \<Longrightarrow> keeps f k \<Longrightarrow> keeps f (andthen m k)"
  unfolding andthen_def by (rule keeps_bind)

lemma keeps_catch [keeps_intros]: "keeps f m \<Longrightarrow> (\<And>e. keeps f (h e)) \<Longrightarrow> keeps f (catch sel m h)"
  by (auto simp: keeps_def catch_def split: prod.splits sum.splits) (metis snd_conv)+

lemma keeps_whenM [keeps_intros]: "keeps f m \<Longrightarrow> keeps f (whenM b m)"
  by (simp add: whenM_def keeps_pure)

lemma keeps_finally [keeps_intros]: "keeps f m \<Longrightarrow> keeps f k \<Longrightarrow> keeps f (finally_do m k)"
  by (auto simp: keeps_def finally_do_def split: prod.splits sum.splits) (metis snd_conv)+

lemma keeps_forM [keeps_intros]: "(\<And>x. keeps f (g x)) \<Longrightarrow> keeps f (forM xs g)"
  by (induction xs) (auto intro: keeps_intros)

section \<open>Runs of a sequence\<close>

lemma bind_lift_Inr: "bind (lift_res (Inr x)) f = f x"
  by (simp add: bind_def lift_res_def fun_eq_iff)

lemma bind_InrE:
  assumes "bind m f w = (Inr y, w')"
  obtains x w1 where "m w = (Inr x, w1)" "f x w1 = (Inr y, w')"
  using assms by (auto simp: bind_def split: prod.splits sum.splits)

lemma andthen_InrE:
  assumes "andthen m k w = (Inr y, w')"
  obtains x w1 where "m w = (Inr x, w1)" "k w1 = (Inr y, w')"
  using assms unfolding andthen_def by (rule bind_InrE)

lemma lift_InrE:
  assumes "lift_res r w = (Inr y, w')"
  obtains "r = Inr y" "w' = w"
  using assms by (simp add: lift_res_def)

lemma keeps_wp: "keeps f m \<Longrightarrow> wp m (\<lambda>_ s'. f s' = f s) (\<lambda>_ s'. f s' = f s) s"
  by (simp add: keeps_def wp_def split: prod.splits sum.splits) (metis snd_conv)

lemma bind_cases:
  assumes "bind m f s = (r, s')"
  obtains e where "m s = (Inl e, s')" "r = Inl e" | x s1 where "m s = (Inr x, s1)" "f x s1 = (r, s')"
  using assms by (auto simp: bind_def split: prod.splits sum.splits)

lemma catch_cases:
  assumes "catch sel m h s = (r, s')"
  obtains "m s = (r, s')" | e s1 where "m s = (Inl e, s1)" "h e s1 = (r, s')"
  using assms by (auto simp: catch_def split: prod.splits sum.splits if_splits)

lemma wp_bind_then:
  assumes "wp (bind m f) P E s" and "\<And>x s'. P x s' \<Longrightarrow> wp (k x) Q E s'"
  shows "wp (bind m (\<lambda>x. bind (f x) k)) Q E s"
proof -
  have "wp (bind m (\<lambda>x. bind (f x) k)) Q E s = wp (bind m f) (\<lambda>x. wp (k x) Q E) E s" by (simp add: wp_bind [abs_def])
  then show ?thesis using wp_mono [OF assms(1), of "\<lambda>x. wp (k x) Q E" E] assms(2) by blast
qed

lemma ret_InrE:
  assumes "ret x w = (Inr y, w')"
  obtains "y = x" "w' = w"
  using assms by (simp add: ret_def)

lemma gets_InrE:
  assumes "gets g w = (Inr z, w')"
  obtains "z = g w" "w' = w"
  using assms unfolding gets_def by blast

lemma require_InrE:
  assumes "require b e w = (Inr u, w')"
  obtains "b" "w' = w"
  using assms by (cases b) (simp_all add: require_def ret_def raise_def)

lemma raise_InrE: "raise e w = (Inr v, w') \<Longrightarrow> P"
  by (simp add: raise_def)

lemma finally_InrE:
  assumes "finally_do m k w = (Inr y, w')"
  obtains w1 u where "m w = (Inr y, w1)" "k w1 = (Inr u, w')"
  using assms by (auto simp: finally_do_def split: prod.splits sum.splits if_splits)

text \<open>A run that returned, taken apart into the runs of its steps.\<close>

lemmas run_elims = bind_InrE andthen_InrE lift_InrE ret_InrE gets_InrE require_InrE raise_InrE finally_InrE

end
