(* ===== verification/Identifiers.thy ===== *)
theory Identifiers
  imports Allox_Prelude
begin

text \<open>
  The identifier discipline of \<^verbatim>\<open>src/src/allox/workspace/store.py\<close>: every agent, session,
  checkpoint, recovery and run name passes \<open>validate_id\<close> before it becomes a path component.
  The theory shows which strings pass and what passing excludes: an empty component, a separator,
  a dot component, the live-child marker of the checkpoint index and the names of the daemon's own
  transaction subvolumes.
\<close>

section \<open>validate\_id\<close>

text \<open>The character class \<open>[A-Za-z0-9_.-]\<close> of \<open>ID_RE\<close> and the match itself.\<close>

definition id_start_char :: "char \<Rightarrow> bool" where
  "id_start_char c = (is_alpha c \<or> is_digit c)"

definition id_char :: "char \<Rightarrow> bool" where
  "id_char c = (is_alpha c \<or> is_digit c \<or> c \<in> {CHR ''_'', CHR ''.'', CHR ''-''})"

definition ID_RE_fullmatch :: "string \<Rightarrow> bool" where
  "ID_RE_fullmatch v =
     (case v of [] \<Rightarrow> False
      | c # r \<Rightarrow> id_start_char c \<and> list_all id_char r \<and> length r \<le> 63)"

text \<open>\<open>repr\<close> of a string, which the error message quotes.\<close>

definition hex_digit :: "nat \<Rightarrow> char" where
  "hex_digit n = (if n < 10 then char_of (48 + n) else char_of (87 + n))"

definition repr_char :: "char \<Rightarrow> char \<Rightarrow> string" where
  "repr_char q c = (let n = (of_char c :: nat) in
     if c = q \<or> n = 92 then [char_of (92 :: nat), c]
     else if n = 9 then [char_of (92 :: nat), CHR ''t'']
     else if n = 10 then [char_of (92 :: nat), CHR ''n'']
     else if n = 13 then [char_of (92 :: nat), CHR ''r'']
     else if n < 32 \<or> (127 \<le> n \<and> n \<le> 160) \<or> n = 173
       then [char_of (92 :: nat), CHR ''x'', hex_digit (n div 16), hex_digit (n mod 16)]
     else [c])"

definition py_repr :: "string \<Rightarrow> string" where
  "py_repr s = (let q = (if char_of (39 :: nat) \<in> set s \<and> char_of (34 :: nat) \<notin> set s
                         then char_of (34 :: nat) else char_of (39 :: nat))
                in [q] @ concat (map (repr_char q) s) @ [q])"

text \<open>\<open>repr\<close> of a hashable JSON value; the digits of a float are not represented.\<close>

fun repr_json :: "json \<Rightarrow> string" where
  "repr_json JNull = ''None''"
| "repr_json (JBool b) = (if b then ''True'' else ''False'')"
| "repr_json (JInt i) = int_str i"
| "repr_json (JStr s) = py_repr s"
| "repr_json _ = []"

definition invalid_id :: "string \<Rightarrow> string \<Rightarrow> error" where
  "invalid_id kind v = WorkspaceError (''invalid '' @ kind @ '' id: '' @ py_repr v)"

definition validate_id :: "string \<Rightarrow> string \<Rightarrow> string res" where
  "validate_id kind v = (if ID_RE_fullmatch v then Inr v else Inl (invalid_id kind v))"

lemma validate_id_Inr [simp]: "validate_id kind v = Inr w \<longleftrightarrow> ID_RE_fullmatch v \<and> w = v"
  by (auto simp: validate_id_def)

lemma validate_id_ok [simp]: "ID_RE_fullmatch v \<Longrightarrow> validate_id kind v = Inr v"
  by (simp add: validate_id_def)

lemma validate_id_bad: "\<not> ID_RE_fullmatch v \<Longrightarrow> validate_id kind v = Inl (invalid_id kind v)"
  by (simp add: validate_id_def)

section \<open>What a valid identifier excludes\<close>

lemma id_start_char_id_char: "id_start_char c \<Longrightarrow> id_char c"
  by (auto simp: id_start_char_def id_char_def)

lemma valid_id_chars: "ID_RE_fullmatch v \<Longrightarrow> c \<in> set v \<Longrightarrow> id_char c"
  by (auto simp: ID_RE_fullmatch_def list_all_iff id_start_char_id_char split: list.splits)

lemma not_id_char [simp]:
  "\<not> id_char (CHR ''/'')"
  "\<not> id_char (CHR 0x00)"
  "\<not> id_char (CHR 0x5C)"
  "\<not> id_start_char (CHR ''.'')"
  "\<not> id_start_char (CHR ''_'')"
  by (simp_all add: id_char_def id_start_char_def is_alpha_def is_digit_def)

lemma valid_id_start: "ID_RE_fullmatch (c # r) \<Longrightarrow> id_start_char c"
  by (simp add: ID_RE_fullmatch_def)

lemma valid_id_nonempty: "ID_RE_fullmatch v \<Longrightarrow> v \<noteq> []"
  by (auto simp: ID_RE_fullmatch_def)

lemma valid_id_length: "ID_RE_fullmatch v \<Longrightarrow> length v \<le> 64"
  by (auto simp: ID_RE_fullmatch_def split: list.splits)

lemma valid_id_not_hidden: "ID_RE_fullmatch v \<Longrightarrow> v \<noteq> CHR ''.'' # r"
  by (auto dest: valid_id_start)

lemma valid_id_not_underscore: "ID_RE_fullmatch v \<Longrightarrow> v \<noteq> CHR ''_'' # r"
  by (auto dest: valid_id_start)

end
