(* ===== verification/Checkpoint_Index.thy ===== *)
theory Checkpoint_Index
  imports Identifiers
begin

text \<open>
  The per-Session checkpoint lineage of
  \<^verbatim>\<open>src/src/allox/workspace/checkpoint_index.py\<close>. The index is the object the
  daemon persists as JSON: a head and a dictionary of metadata dictionaries, which stay JSON
  objects here because the loader checks no field of them. The operations are translated with
  their dynamic type errors; \<open>wf_index\<close> is the shape they keep, a forest whose parent and child
  pointers agree, and \<open>lineage\<close> is the abstract forest they implement.
\<close>

section \<open>The index and its operations\<close>

definition LIVE_CHILD :: string where
  "LIVE_CHILD = ''__live__''"

definition INDEX_VERSION :: int where
  "INDEX_VERSION = 1"

record checkpoint_index =
  head :: "string option"
  checkpoints :: "(string, jdict) dict"

definition empty_index :: checkpoint_index where
  "empty_index = \<lparr>head = None, checkpoints = []\<rparr>"

definition index_entries_invalid :: error where
  "index_entries_invalid = CheckpointIndexError ''checkpoint index entries are invalid''"

fun obj_entries :: "jdict \<Rightarrow> (string, jdict) dict option" where
  "obj_entries [] = Some []"
| "obj_entries ((k, JObj m) # r) = map_option (\<lambda>es. (k, m) # es) (obj_entries r)"
| "obj_entries _ = None"

definition from_dict :: "jdict \<Rightarrow> checkpoint_index res" where
  "from_dict v =
     (if \<not> py_eq_int (dict_get v ''version'' (JInt INDEX_VERSION)) INDEX_VERSION
      then Inl (CheckpointIndexError ''unsupported checkpoint index version'')
      else let hd = jget v ''head''; cps = dict_get v ''checkpoints'' (JObj []) in
        if hd \<noteq> JNull \<and> \<not> is_str hd
        then Inl (CheckpointIndexError ''checkpoint index head must be a string'')
        else (case cps of
            JObj es \<Rightarrow> (case obj_entries es of
                None \<Rightarrow> Inl index_entries_invalid
              | Some ms \<Rightarrow> Inr \<lparr>head = (case hd of JStr h \<Rightarrow> Some h | _ \<Rightarrow> None),
                               checkpoints = ms\<rparr>)
          | _ \<Rightarrow> Inl index_entries_invalid))"

definition to_dict :: "checkpoint_index \<Rightarrow> jdict" where
  "to_dict i =
     [(''version'', JInt INDEX_VERSION),
      (''head'', dict_of_opt (head i)),
      (''checkpoints'', JObj (map (\<lambda>(k, m). (k, JObj m)) (checkpoints i)))]"

text \<open>
  \<open>children = meta.setdefault("child_ids", [])\<close> followed by an in-place slice assignment that
  drops the live marker: anything but a list raises.
\<close>

definition drop_live :: "jdict \<Rightarrow> jdict res" where
  "drop_live m =
     (case dict_get m ''child_ids'' (JList []) of
        JList cs \<Rightarrow> Inr (dict_set ''child_ids'' (JList (filter (\<lambda>c. c \<noteq> JStr LIVE_CHILD) cs)) m)
      | _ \<Rightarrow> Inl TypeError)"

text \<open>
  \<open>children = meta.setdefault("child_ids", []); if x not in children: children.append(x)\<close>.
  A string or an object supports \<open>in\<close> but has no \<open>append\<close>.
\<close>

definition append_child :: "string \<Rightarrow> jdict \<Rightarrow> jdict res" where
  "append_child x m =
     (let cv = dict_get m ''child_ids'' (JList []); m' = dict_set ''child_ids'' cv m in
      case cv of
        JList cs \<Rightarrow> Inr (if JStr x \<in> set cs then m'
                        else dict_set ''child_ids'' (JList (cs @ [JStr x])) m)
      | JStr s \<Rightarrow> (if contains_sub s x then Inr m' else Inl AttributeError)
      | JObj d \<Rightarrow> (if x \<in> fst ` set d then Inr m' else Inl AttributeError)
      | _ \<Rightarrow> Inl TypeError)"

definition new_meta ::
  "int \<Rightarrow> string \<Rightarrow> string option \<Rightarrow> bool \<Rightarrow> json \<Rightarrow> string option \<Rightarrow> json list \<Rightarrow> jdict" where
  "new_meta created orig msg pin md par kids =
     [(''created_at_ns'', JInt created),
      (''origin'', JStr orig),
      (''message'', dict_of_opt msg),
      (''pinned'', JBool pin),
      (''metadata'', md),
      (''missing'', JBool False),
      (''parent_id'', dict_of_opt par),
      (''child_ids'', JList kids)]"

definition already_indexed :: "string \<Rightarrow> error" where
  "already_indexed c = CheckpointIndexError (''checkpoint already indexed: '' @ c)"

definition add ::
  "checkpoint_index \<Rightarrow> string \<Rightarrow> int \<Rightarrow> string \<Rightarrow> string option \<Rightarrow> bool \<Rightarrow> json
     \<Rightarrow> checkpoint_index res" where
  "add i c created orig msg pin md =
     (if c \<in> fst ` set (checkpoints i) then Inl (already_indexed c)
      else bindR
        (case head i of
           None \<Rightarrow> Inr (checkpoints i)
         | Some h \<Rightarrow> (case map_of (checkpoints i) h of
               None \<Rightarrow> Inr (checkpoints i)
             | Some m \<Rightarrow> bindR (drop_live m) (\<lambda>m1. bindR (append_child c m1)
                 (\<lambda>m2. Inr (dict_set h m2 (checkpoints i))))))
        (\<lambda>cps. Inr \<lparr>head = Some c,
           checkpoints = dict_set c (new_meta created orig msg pin md (head i) [JStr LIVE_CHILD]) cps\<rparr>))"

text \<open>
  \<open>reconcile\<close>: the set difference is iterated in an order the language leaves open; the model
  takes the actual identifiers as a list and keeps its order.
\<close>

definition recovered_meta :: jdict where
  "recovered_meta = new_meta 0 ''filesystem-recovery'' None False JNull None []"

definition set_missing :: "string list \<Rightarrow> string \<times> jdict \<Rightarrow> string \<times> jdict" where
  "set_missing actual km =
     (let mis = (fst km \<notin> set actual) in
      if truthy (dict_get (snd km) ''missing'' (JBool False)) \<noteq> mis
      then (fst km, dict_set ''missing'' (JBool mis) (snd km)) else km)"

definition reconcile :: "checkpoint_index \<Rightarrow> string list \<Rightarrow> checkpoint_index \<times> bool" where
  "reconcile i actual =
     (let new = filter (\<lambda>c. c \<notin> fst ` set (checkpoints i)) (remdups actual);
          cps1 = checkpoints i @ map (\<lambda>c. (c, recovered_meta)) new;
          cps2 = map (set_missing actual) cps1;
          hd = (case head i of None \<Rightarrow> None
                | Some h \<Rightarrow> if h \<in> set actual then Some h else None)
      in (\<lparr>head = hd, checkpoints = cps2\<rparr>,
          new \<noteq> [] \<or> cps2 \<noteq> cps1 \<or> hd \<noteq> head i))"

definition exactly_one :: error where
  "exactly_one = CheckpointIndexError ''provide exactly one of checkpoint_id or num_ancestors''"

definition lineage_ends :: "int \<Rightarrow> error" where
  "lineage_ends n = CheckpointIndexError (''checkpoint lineage ends before ancestor '' @ int_str n)"

definition checkpoint_unknown :: "string \<Rightarrow> error" where
  "checkpoint_unknown c = CheckpointIndexError (''checkpoint does not exist: '' @ c)"

definition prefix_ambiguous :: "string \<Rightarrow> error" where
  "prefix_ambiguous c = CheckpointIndexError (''checkpoint prefix is ambiguous: '' @ c)"

text \<open>The loop \<open>for _ in range(1, num_ancestors)\<close> of \<open>resolve\<close>; \<open>n\<close> is the requested depth.\<close>

fun walk_parents :: "checkpoint_index \<Rightarrow> int \<Rightarrow> nat \<Rightarrow> string \<Rightarrow> string res" where
  "walk_parents i n 0 r = Inr r"
| "walk_parents i n (Suc k) r =
     (case jget (dict_get (checkpoints i) r []) ''parent_id'' of
        JStr p \<Rightarrow> walk_parents i n k p
      | _ \<Rightarrow> Inl (lineage_ends n))"

definition live_meta :: "jdict \<Rightarrow> bool" where
  "live_meta m = (\<not> truthy (dict_get m ''missing'' (JBool False)))"

definition prefix_matches :: "checkpoint_index \<Rightarrow> string \<Rightarrow> string list" where
  "prefix_matches i c =
     sort (map fst (filter (\<lambda>(k, m). startswith k c \<and> live_meta m) (checkpoints i)))"

definition resolve :: "checkpoint_index \<Rightarrow> string option \<Rightarrow> int option \<Rightarrow> string res" where
  "resolve i cid anc =
     (case (cid, anc) of
        (None, Some n) \<Rightarrow>
          (if n < 1 then Inl (CheckpointIndexError ''num_ancestors must be >= 1'')
           else (case head i of
               None \<Rightarrow> Inl (CheckpointIndexError ''checkpoint lineage has no head'')
             | Some h \<Rightarrow> walk_parents i n (nat (n - 1)) h))
      | (Some c, None) \<Rightarrow>
          (if (case map_of (checkpoints i) c of None \<Rightarrow> False | Some m \<Rightarrow> live_meta m) then Inr c
           else (case prefix_matches i c of
               [] \<Rightarrow> Inl (checkpoint_unknown c)
             | [x] \<Rightarrow> Inr x
             | _ \<Rightarrow> Inl (prefix_ambiguous c)))
      | _ \<Rightarrow> Inl exactly_one)"

definition not_indexed :: "string \<Rightarrow> error" where
  "not_indexed c = CheckpointIndexError (''checkpoint is not indexed: '' @ c)"

text \<open>Apply a fallible update to the entry of one checkpoint, if there is one.\<close>

definition update_entry ::
  "string \<Rightarrow> (jdict \<Rightarrow> jdict res) \<Rightarrow> (string, jdict) dict \<Rightarrow> (string, jdict) dict res" where
  "update_entry c f cps =
     (case map_of cps c of None \<Rightarrow> Inr cps
      | Some m \<Rightarrow> bindR (f m) (\<lambda>m'. Inr (dict_set c m' cps)))"

definition update_head_entry ::
  "string option \<Rightarrow> (jdict \<Rightarrow> jdict res) \<Rightarrow> (string, jdict) dict \<Rightarrow> (string, jdict) dict res" where
  "update_head_entry h f cps = (case h of None \<Rightarrow> Inr cps | Some c \<Rightarrow> update_entry c f cps)"

definition move_head :: "checkpoint_index \<Rightarrow> string \<Rightarrow> checkpoint_index res" where
  "move_head i c =
     (if c \<notin> fst ` set (checkpoints i) then Inl (not_indexed c)
      else bindR (update_head_entry (head i) drop_live (checkpoints i)) (\<lambda>cps1.
           bindR (update_entry c (append_child LIVE_CHILD) cps1) (\<lambda>cps2.
           Inr \<lparr>head = Some c, checkpoints = cps2\<rparr>)))"

text \<open>\<open>remove\<close>, step by step: the children of the removed entry are handed to its parent.\<close>

definition reparent_child :: "json \<Rightarrow> json \<Rightarrow> (string, jdict) dict \<Rightarrow> (string, jdict) dict res" where
  "reparent_child par child cps =
     (case child of
        JStr k \<Rightarrow> update_entry k (\<lambda>m. Inr (dict_set ''parent_id'' par m)) cps
      | _ \<Rightarrow> if hashable child then Inr cps else Inl TypeError)"

fun reparent_all :: "json \<Rightarrow> json list \<Rightarrow> (string, jdict) dict \<Rightarrow> (string, jdict) dict res" where
  "reparent_all par [] cps = Inr cps"
| "reparent_all par (c # cs) cps = bindR (reparent_child par c cps) (reparent_all par cs)"

fun adopt :: "json list \<Rightarrow> json list \<Rightarrow> json list" where
  "adopt ks [] = ks"
| "adopt ks (c # cs) = adopt (if c \<in> set ks then ks else ks @ [c]) cs"

definition adopt_children :: "string \<Rightarrow> json list \<Rightarrow> jdict \<Rightarrow> jdict res" where
  "adopt_children removed cs m =
     (case dict_get m ''child_ids'' (JList []) of
        JList ks \<Rightarrow> Inr (dict_set ''child_ids''
                         (JList (adopt (filter (\<lambda>k. k \<noteq> JStr removed) ks) cs)) m)
      | _ \<Rightarrow> Inl TypeError)"

definition remove :: "checkpoint_index \<Rightarrow> string \<Rightarrow> checkpoint_index res" where
  "remove i c =
     (case map_of (checkpoints i) c of
        None \<Rightarrow> Inr i
      | Some m \<Rightarrow>
          let par = jget m ''parent_id'' in
          bindR (py_iter (dict_get m ''child_ids'' (JList []))) (\<lambda>all.
          let cs = filter (\<lambda>x. x \<noteq> JStr LIVE_CHILD) all in
          bindR (reparent_all par cs (checkpoints i)) (\<lambda>cps1.
          bindR (case par of JStr p \<Rightarrow> update_entry p (adopt_children c cs) cps1 | _ \<Rightarrow> Inr cps1) (\<lambda>cps2.
          let hd = (if head i = Some c then (case par of JStr p \<Rightarrow> Some p | _ \<Rightarrow> None) else head i);
              cps3 = dict_del c cps2 in
          bindR (update_head_entry hd (append_child LIVE_CHILD) cps3) (\<lambda>cps4.
          Inr \<lparr>head = hd, checkpoints = cps4\<rparr>)))))"

definition records :: "checkpoint_index \<Rightarrow> jdict list res" where
  "records i =
     bindR (mapR (\<lambda>(k, m). bindR (py_int (dict_get m ''created_at_ns'' (JInt 0)))
                             (\<lambda>t. Inr ((t, k), m))) (checkpoints i))
       (\<lambda>rows. Inr (map (\<lambda>((t, k), m). dict_merge [(''checkpoint_id'', JStr k)] m)
                        (sort_key fst rows)))"


section \<open>Well-formed metadata\<close>

definition mparent :: "jdict \<Rightarrow> string option" where
  "mparent m = (case jget m ''parent_id'' of JStr p \<Rightarrow> Some p | _ \<Rightarrow> None)"

fun the_str :: "json \<Rightarrow> string" where
  "the_str (JStr s) = s"
| "the_str _ = []"

definition mkids :: "jdict \<Rightarrow> string list" where
  "mkids m = (case dict_get m ''child_ids'' (JList []) of JList cs \<Rightarrow> map the_str cs | _ \<Rightarrow> [])"

definition wf_meta :: "jdict \<Rightarrow> bool" where
  "wf_meta m \<longleftrightarrow>
     distinct (dict_keys m) \<and>
     is_int (jget m ''created_at_ns'') \<and>
     is_bool (dict_get m ''missing'' (JBool False)) \<and>
     jget m ''parent_id'' = dict_of_opt (mparent m) \<and>
     dict_get m ''child_ids'' (JList []) = JList (map JStr (mkids m)) \<and>
     distinct (mkids m)"

lemma the_str_JStr [simp]: "map (the_str \<circ> JStr) xs = xs" "map the_str (map JStr xs) = xs"
  by (induction xs) simp_all

lemma JStr_in_map [simp]: "JStr x \<in> JStr ` A \<longleftrightarrow> x \<in> A"
  by auto

lemma filter_JStr [simp]:
  "filter (\<lambda>c. c \<noteq> JStr x) (map JStr xs) = map JStr (filter (\<lambda>c. c \<noteq> x) xs)"
  by (induction xs) auto

lemma wf_metaD:
  assumes "wf_meta m"
  shows "jget m ''parent_id'' = dict_of_opt (mparent m)"
    and "dict_get m ''child_ids'' (JList []) = JList (map JStr (mkids m))"
    and "distinct (mkids m)"
  using assms by (auto simp: wf_meta_def)

lemma mkids_set_child_ids [simp]:
  "mkids (dict_set ''child_ids'' (JList (map JStr ks)) m) = ks"
  "mparent (dict_set ''child_ids'' v m) = mparent m"
  "live_meta (dict_set ''child_ids'' v m) = live_meta m"
  by (simp_all add: mkids_def mparent_def live_meta_def)

lemma mparent_set_parent [simp]:
  "mparent (dict_set ''parent_id'' (dict_of_opt p) m) = p"
  "mkids (dict_set ''parent_id'' v m) = mkids m"
  "live_meta (dict_set ''parent_id'' v m) = live_meta m"
  by (simp_all add: mkids_def mparent_def live_meta_def dict_of_opt_def split: option.splits)

lemma mparent_set_missing [simp]:
  "mparent (dict_set ''missing'' v m) = mparent m"
  "mkids (dict_set ''missing'' v m) = mkids m"
  by (simp_all add: mkids_def mparent_def)

lemma wf_meta_set_child_ids:
  "wf_meta m \<Longrightarrow> distinct ks \<Longrightarrow> wf_meta (dict_set ''child_ids'' (JList (map JStr ks)) m)"
  by (simp add: wf_meta_def)

lemma wf_meta_set_parent: "wf_meta m \<Longrightarrow> wf_meta (dict_set ''parent_id'' (dict_of_opt p) m)"
  by (simp add: wf_meta_def)

lemma wf_meta_set_missing: "wf_meta m \<Longrightarrow> wf_meta (dict_set ''missing'' (JBool b) m)"
  by (simp add: wf_meta_def)

lemma new_meta_props:
  assumes "distinct ks"
  shows "wf_meta (new_meta t orig msg pin md par (map JStr ks))"
    and "mparent (new_meta t orig msg pin md par (map JStr ks)) = par"
    and "mkids (new_meta t orig msg pin md par (map JStr ks)) = ks"
    and "live_meta (new_meta t orig msg pin md par (map JStr ks))"
proof -
  show p: "mparent (new_meta t orig msg pin md par (map JStr ks)) = par"
    by (simp add: new_meta_def mparent_def dict_of_opt_def dict_get_def split: option.splits)
  show k: "mkids (new_meta t orig msg pin md par (map JStr ks)) = ks"
    by (simp add: new_meta_def mkids_def dict_get_def)
  show "wf_meta (new_meta t orig msg pin md par (map JStr ks))"
    using p k assms by (simp add: wf_meta_def) (simp add: new_meta_def dict_get_def)
  show "live_meta (new_meta t orig msg pin md par (map JStr ks))"
    by (simp add: live_meta_def new_meta_def dict_get_def)
qed

lemmas new_meta_live = new_meta_props [where ks = "[LIVE_CHILD]", simplified]
lemmas recovered_meta_props =
  new_meta_props [where ks = "[]", simplified, of 0 "''filesystem-recovery''" None False JNull None,
    folded recovered_meta_def]

lemma drop_live_wf:
  assumes "wf_meta m"
  obtains m' where "drop_live m = Inr m'" "wf_meta m'" "mparent m' = mparent m"
    "mkids m' = filter (\<lambda>k. k \<noteq> LIVE_CHILD) (mkids m)" "live_meta m' = live_meta m"
  using assms
  by (simp add: drop_live_def wf_metaD wf_meta_set_child_ids)

lemma append_child_wf:
  assumes "wf_meta m"
  obtains m' where "append_child x m = Inr m'" "wf_meta m'" "mparent m' = mparent m"
    "mkids m' = (if x \<in> set (mkids m) then mkids m else mkids m @ [x])" "live_meta m' = live_meta m"
proof -
  have d: "distinct (if x \<in> set (mkids m) then mkids m else mkids m @ [x])"
    using assms by (simp add: wf_metaD)
  define m' where "m' = dict_set ''child_ids''
    (JList (map JStr (if x \<in> set (mkids m) then mkids m else mkids m @ [x]))) m"
  have "append_child x m = Inr m'"
    using assms by (auto simp: append_child_def wf_metaD m'_def Let_def)
  then show thesis
    by (rule that) (use d assms in \<open>simp_all only: m'_def wf_meta_set_child_ids mkids_set_child_ids\<close>)
qed

lemma adopt_map:
  assumes "distinct xs"
  shows "\<exists>zs. adopt (map JStr xs) (map JStr ys) = map JStr zs \<and> distinct zs \<and> set zs = set xs \<union> set ys"
  using assms
proof (induction ys arbitrary: xs)
  case Nil
  then show ?case by auto
next
  case (Cons y ys)
  define xs' where "xs' = (if y \<in> set xs then xs else xs @ [y])"
  have "distinct xs'" using Cons.prems by (simp add: xs'_def)
  then obtain zs where "adopt (map JStr xs') (map JStr ys) = map JStr zs" "distinct zs"
    "set zs = set xs' \<union> set ys"
    using Cons.IH by blast
  moreover have "adopt (map JStr xs) (map JStr (y # ys)) = adopt (map JStr xs') (map JStr ys)"
    by (auto simp: xs'_def)
  moreover have "set xs' \<union> set ys = set xs \<union> set (y # ys)"
    by (auto simp: xs'_def)
  ultimately show ?case by metis
qed

lemma adopt_children_wf:
  assumes "wf_meta m"
  obtains m' where "adopt_children c (map JStr cs) m = Inr m'" "wf_meta m'" "mparent m' = mparent m"
    "set (mkids m') = (set (mkids m) - {c}) \<union> set cs" "live_meta m' = live_meta m"
proof -
  obtain zs where zs: "adopt (map JStr (filter (\<lambda>k. k \<noteq> c) (mkids m))) (map JStr cs) = map JStr zs"
    "distinct zs" "set zs = (set (mkids m) - {c}) \<union> set cs"
    using adopt_map [of "filter (\<lambda>k. k \<noteq> c) (mkids m)" cs] assms by (auto simp: wf_metaD)
  have "adopt_children c (map JStr cs) m = Inr (dict_set ''child_ids'' (JList (map JStr zs)) m)"
    using assms zs(1) by (simp add: adopt_children_def wf_metaD)
  then show thesis
    by (rule that) (use assms zs in \<open>simp_all add: wf_meta_set_child_ids\<close>)
qed


section \<open>The forest invariant\<close>

abbreviation entry :: "checkpoint_index \<Rightarrow> string \<Rightarrow> jdict option" where
  "entry i \<equiv> map_of (checkpoints i)"

abbreviation index_keys :: "checkpoint_index \<Rightarrow> string set" where
  "index_keys i \<equiv> fst ` set (checkpoints i)"

definition parent_of :: "checkpoint_index \<Rightarrow> string \<Rightarrow> string option" where
  "parent_of i c = Option.bind (entry i c) mparent"

text \<open>The children of an entry without the live marker.\<close>

definition kids_of :: "checkpoint_index \<Rightarrow> string \<Rightarrow> string set" where
  "kids_of i c = (case entry i c of None \<Rightarrow> {} | Some m \<Rightarrow> set (mkids m) - {LIVE_CHILD})"

definition parent_rel :: "checkpoint_index \<Rightarrow> (string \<times> string) set" where
  "parent_rel i = {(c, p). parent_of i c = Some p}"

definition wf_index :: "checkpoint_index \<Rightarrow> bool" where
  "wf_index i \<longleftrightarrow>
     distinct (dict_keys (checkpoints i)) \<and>
     LIVE_CHILD \<notin> index_keys i \<and>
     (\<forall>c m. entry i c = Some m \<longrightarrow> wf_meta m) \<and>
     (\<forall>c p. parent_of i c = Some p \<longleftrightarrow> c \<in> kids_of i p) \<and>
     (\<forall>h. head i = Some h \<longrightarrow> h \<in> index_keys i) \<and>
     acyclic (parent_rel i)"

lemma wf_indexI:
  assumes "distinct (dict_keys (checkpoints i))" and "LIVE_CHILD \<notin> index_keys i"
    and "\<And>c m. entry i c = Some m \<Longrightarrow> wf_meta m"
    and "\<And>c p. parent_of i c = Some p \<longleftrightarrow> c \<in> kids_of i p"
    and "\<And>h. head i = Some h \<Longrightarrow> h \<in> index_keys i"
    and "acyclic (parent_rel i)"
  shows "wf_index i"
  using assms by (simp add: wf_index_def)

lemma wf_indexD:
  assumes "wf_index i"
  shows "distinct (dict_keys (checkpoints i))" and "LIVE_CHILD \<notin> index_keys i"
    and "\<And>c m. entry i c = Some m \<Longrightarrow> wf_meta m"
    and "\<And>c p. parent_of i c = Some p \<longleftrightarrow> c \<in> kids_of i p"
    and "\<And>h. head i = Some h \<Longrightarrow> h \<in> index_keys i"
    and "acyclic (parent_rel i)"
  using assms by (simp_all add: wf_index_def)

lemma entry_None_iff: "entry i c = None \<longleftrightarrow> c \<notin> index_keys i"
  by (rule map_of_eq_None_iff)

lemma parent_of_key: "parent_of i c = Some p \<Longrightarrow> c \<in> index_keys i"
  by (cases "entry i c") (auto simp: parent_of_def dest: map_of_SomeD intro: rev_image_eqI)

lemma parent_of_absent [simp]: "c \<notin> index_keys i \<Longrightarrow> parent_of i c = None"
  using parent_of_key by (cases "parent_of i c") auto

lemma kids_of_key: "c \<in> kids_of i p \<Longrightarrow> p \<in> index_keys i"
  by (cases "entry i p") (auto simp: kids_of_def dest: map_of_SomeD intro: rev_image_eqI)

lemma wf_parent_key: "wf_index i \<Longrightarrow> parent_of i c = Some p \<Longrightarrow> p \<in> index_keys i"
  by (auto simp: wf_indexD kids_of_key)

lemma wf_kid_key: "wf_index i \<Longrightarrow> c \<in> kids_of i p \<Longrightarrow> c \<in> index_keys i"
  by (metis wf_indexD(4) parent_of_key)

lemma wf_no_self_parent: "wf_index i \<Longrightarrow> parent_of i c \<noteq> Some c"
  using wf_indexD(6) [of i] by (auto simp: acyclic_def parent_rel_def)

lemma entry_wf:
  assumes "wf_index i" and "c \<in> index_keys i"
  obtains m where "entry i c = Some m" "wf_meta m"
  using assms by (metis entry_None_iff option.exhaust wf_indexD(3))

lemma wf_empty_index: "wf_index empty_index"
  by (simp add: wf_index_def empty_index_def parent_of_def kids_of_def parent_rel_def acyclic_def)

lemma finite_parent_rel: "finite (parent_rel i)"
proof (rule finite_subset)
  show "parent_rel i \<subseteq> (\<lambda>c. (c, the (parent_of i c))) ` index_keys i"
    by (auto simp: parent_rel_def dest: parent_of_key)
  show "finite ((\<lambda>c. (c, the (parent_of i c))) ` index_keys i)"
    by simp
qed

section \<open>add\<close>

text \<open>The dictionary after the head's children have been updated.\<close>

lemma add_fresh: "add i c t orig msg pin md = Inr i' \<Longrightarrow> c \<notin> index_keys i"
  by (auto simp: add_def split: if_splits)

lemma add_result:
  assumes wf: "wf_index i" and fresh: "c \<notin> index_keys i"
  shows "\<exists>cps. add i c t orig msg pin md = Inr \<lparr>head = Some c, checkpoints =
            dict_set c (new_meta t orig msg pin md (head i) [JStr LIVE_CHILD]) cps\<rparr> \<and>
          dict_keys cps = dict_keys (checkpoints i) \<and>
          (\<forall>x. Some x \<noteq> head i \<longrightarrow> map_of cps x = entry i x) \<and>
          (\<forall>x m. entry i x = Some m \<longrightarrow> head i = Some x \<longrightarrow>
             (\<exists>m'. map_of cps x = Some m' \<and> wf_meta m' \<and> mparent m' = mparent m \<and>
                set (mkids m') = set (mkids m) - {LIVE_CHILD} \<union> {c} \<and> live_meta m' = live_meta m))"
proof (cases "head i")
  case None
  then show ?thesis
    using fresh by (intro exI [of _ "checkpoints i"]) (simp add: add_def)
next
  case (Some h)
  obtain m where m: "entry i h = Some m" "wf_meta m"
    by (rule entry_wf [OF wf wf_indexD(5) [OF wf Some]])
  obtain m1 where m1: "drop_live m = Inr m1" "wf_meta m1" "mparent m1 = mparent m"
    "mkids m1 = filter (\<lambda>k. k \<noteq> LIVE_CHILD) (mkids m)" "live_meta m1 = live_meta m"
    using drop_live_wf [OF m(2)] .
  obtain m2 where m2: "append_child c m1 = Inr m2" "wf_meta m2" "mparent m2 = mparent m1"
    "mkids m2 = (if c \<in> set (mkids m1) then mkids m1 else mkids m1 @ [c])" "live_meta m2 = live_meta m1"
    using append_child_wf [OF m1(2)] .
  have hk: "h \<in> index_keys i" by (rule wf_indexD(5) [OF wf Some])
  then have keys: "dict_keys (dict_set h m2 (checkpoints i)) = dict_keys (checkpoints i)"
    by (simp add: update_keys)
  have cm: "set (mkids m2) = set (mkids m) - {LIVE_CHILD} \<union> {c}"
    using m1(4) m2(4) by auto
  show ?thesis
    by (intro exI [of _ "dict_set h m2 (checkpoints i)"])
       (use m m1 m2(1,2,3,5) Some fresh keys cm in \<open>simp add: add_def\<close>)
qed

lemma add_parent_kids:
  assumes wf: "wf_index i" and add: "add i c t orig msg pin md = Inr i'" and nl: "c \<noteq> LIVE_CHILD"
  shows "parent_of i' x = (if x = c then head i else parent_of i x)"
    and "kids_of i' x = (if x = c then {} else if head i = Some x then kids_of i x \<union> {c} else kids_of i x)"
    and "wf_index i'" and "head i' = Some c" and "index_keys i' = insert c (index_keys i)"
proof -
  note fresh = add_fresh [OF add]
  obtain cps where cps: "i' = \<lparr>head = Some c, checkpoints =
      dict_set c (new_meta t orig msg pin md (head i) [JStr LIVE_CHILD]) cps\<rparr>"
    and ks: "dict_keys cps = dict_keys (checkpoints i)"
    and other: "\<forall>x. Some x \<noteq> head i \<longrightarrow> map_of cps x = entry i x"
    and hd: "\<forall>x m. entry i x = Some m \<longrightarrow> head i = Some x \<longrightarrow>
             (\<exists>m'. map_of cps x = Some m' \<and> wf_meta m' \<and> mparent m' = mparent m \<and>
                set (mkids m') = set (mkids m) - {LIVE_CHILD} \<union> {c} \<and> live_meta m' = live_meta m)"
    using add_result [OF wf fresh, of t orig msg pin md] add
    by (elim exE conjE) (rule that, simp_all)
  have kset: "fst ` set cps = index_keys i"
    using arg_cong [OF ks, of set] by (simp add:)
  have ec: "entry i' c = Some (new_meta t orig msg pin md (head i) [JStr LIVE_CHILD])"
    and eo: "\<And>x. x \<noteq> c \<Longrightarrow> entry i' x = map_of cps x"
    by (simp_all add: cps)
  have hk: "head i = Some h \<Longrightarrow> \<exists>m. entry i h = Some m" for h
    using wf_indexD(5) [OF wf] by (metis entry_None_iff option.exhaust)
  show P: "parent_of i' x = (if x = c then head i else parent_of i x)" for x
    using ec eo [of x] other [rule_format, of x] hd [rule_format, of x] hk [of x]
    by (cases "head i = Some x") (auto simp: parent_of_def new_meta_live)
  show K: "kids_of i' x = (if x = c then {} else if head i = Some x then kids_of i x \<union> {c} else kids_of i x)" for x
    using ec eo [of x] other [rule_format, of x] hd [rule_format, of x] hk [of x] nl
    by (cases "head i = Some x") (auto simp: kids_of_def new_meta_live)
  show hc: "head i' = Some c" by (simp add: cps)
  have keys: "index_keys i' = insert c (index_keys i)"
    by (simp add: cps kset)
  show "index_keys i' = insert c (index_keys i)" by (rule keys)
  show "wf_index i'"
  proof (rule wf_indexI)
    show "distinct (dict_keys (checkpoints i'))"
      using wf_indexD(1) [OF wf] ks by (simp add: cps)
    show "LIVE_CHILD \<notin> index_keys i'"
      using wf_indexD(2) [OF wf] nl keys by simp
    show "wf_meta m" if "entry i' x = Some m" for x m
      using that ec eo [of x] other [rule_format, of x] hd [rule_format, of x] hk [of x]
        wf_indexD(3) [OF wf, of x]
      by (cases "head i = Some x"; cases "x = c") (auto simp: new_meta_live)
    show "parent_of i' x = Some p \<longleftrightarrow> x \<in> kids_of i' p" for x p
    proof (cases "x = c")
      case True
      moreover have "c \<notin> kids_of i p" using fresh wf_kid_key [OF wf] by blast
      moreover have "head i \<noteq> Some c" using fresh wf_indexD(5) [OF wf] by blast
      ultimately show ?thesis using P [of x] K [of p] by simp
    next
      case False
      moreover have "x \<notin> kids_of i c" using fresh kids_of_key by blast
      ultimately show ?thesis using P [of x] K [of p] wf_indexD(4) [OF wf, of x p] by simp
    qed
    show "h \<in> index_keys i'" if "head i' = Some h" for h
      using that keys hc by simp
    show "acyclic (parent_rel i')"
    proof -
      have sub: "parent_rel i' \<subseteq> (case head i of None \<Rightarrow> parent_rel i | Some h \<Rightarrow> insert (c, h) (parent_rel i))"
        using P by (auto simp: parent_rel_def split: option.splits if_splits)
      have "(h, c) \<notin> (parent_rel i)\<^sup>*" if "head i = Some h" for h
      proof
        assume "(h, c) \<in> (parent_rel i)\<^sup>*"
        moreover have "h \<noteq> c" using fresh wf_indexD(5) [OF wf that] by auto
        ultimately obtain z where "(z, c) \<in> parent_rel i"
          by (meson rtranclE)
        then have "c \<in> index_keys i"
          using wf_parent_key [OF wf] by (auto simp: parent_rel_def)
        with fresh show False by simp
      qed
      then have "acyclic (case head i of None \<Rightarrow> parent_rel i | Some h \<Rightarrow> insert (c, h) (parent_rel i))"
        using wf_indexD(6) [OF wf] by (auto split: option.splits)
      then show ?thesis using sub by (rule acyclic_subset)
    qed
  qed
qed


section \<open>reconcile and move\_head\<close>

lemma wf_index_same_forest:
  assumes wf: "wf_index i"
    and "distinct (dict_keys (checkpoints j))" and "LIVE_CHILD \<notin> index_keys j"
    and "\<And>c m. entry j c = Some m \<Longrightarrow> wf_meta m"
    and P: "\<And>x. parent_of j x = parent_of i x" and K: "\<And>x. kids_of j x = kids_of i x"
    and "\<And>h. head j = Some h \<Longrightarrow> h \<in> index_keys j"
  shows "wf_index j"
proof (rule wf_indexI)
  show "parent_of j c = Some p \<longleftrightarrow> c \<in> kids_of j p" for c p
    using wf_indexD(4) [OF wf] by (simp add: P K)
  have "parent_rel j = parent_rel i"
    by (simp add: parent_rel_def P)
  then show "acyclic (parent_rel j)"
    using wf_indexD(6) [OF wf] by simp
qed (use assms in auto)

lemma set_missing_fst [simp]: "fst (set_missing actual km) = fst km"
  by (simp add: set_missing_def Let_def)

lemma set_missing_props:
  "wf_meta m \<Longrightarrow> wf_meta (snd (set_missing actual (c, m)))"
  "mparent (snd (set_missing actual (c, m))) = mparent m"
  "mkids (snd (set_missing actual (c, m))) = mkids m"
  "live_meta (snd (set_missing actual (c, m))) \<longleftrightarrow> c \<in> set actual"
  by (auto simp: set_missing_def Let_def wf_meta_set_missing live_meta_def)

lemma map_of_set_missing:
  "map_of (map (set_missing actual) cps) c =
     map_option (\<lambda>m. snd (set_missing actual (c, m))) (map_of cps c)"
  by (induction cps) (auto simp: set_missing_def Let_def)

lemma map_of_recovered:
  "map_of (map (\<lambda>c. (c, recovered_meta)) xs) c = (if c \<in> set xs then Some recovered_meta else None)"
  by (induction xs) auto

lemma reconcile_entry:
  "entry (fst (reconcile i actual)) c =
     (case entry i c of
        Some m \<Rightarrow> Some (snd (set_missing actual (c, m)))
      | None \<Rightarrow> if c \<in> set actual then Some (snd (set_missing actual (c, recovered_meta))) else None)"
proof -
  define new where "new = filter (\<lambda>c. c \<notin> index_keys i) (remdups actual)"
  have new: "c \<in> set new \<longleftrightarrow> c \<in> set actual \<and> entry i c = None"
    by (auto simp: new_def entry_None_iff)
  have "entry (fst (reconcile i actual)) c =
      map_option (\<lambda>m. snd (set_missing actual (c, m)))
        (map_of (checkpoints i @ map (\<lambda>c. (c, recovered_meta)) new) c)"
    unfolding reconcile_def Let_def new_def fst_conv checkpoint_index.select_convs map_of_set_missing ..
  also have "\<dots> = map_option (\<lambda>m. snd (set_missing actual (c, m)))
        (case entry i c of Some m \<Rightarrow> Some m | None \<Rightarrow> if c \<in> set new then Some recovered_meta else None)"
    by (auto simp: map_of_append map_add_def map_of_recovered split: option.splits)
  finally show ?thesis
    using new by (simp split: option.splits)
qed

lemma reconcile_keys:
  "dict_keys (checkpoints (fst (reconcile i actual))) =
     dict_keys (checkpoints i) @ filter (\<lambda>c. c \<notin> index_keys i) (remdups actual)"
  by (simp add: reconcile_def Let_def comp_def)

lemma reconcile_keys_set: "index_keys (fst (reconcile i actual)) = index_keys i \<union> set actual"
  using arg_cong [OF reconcile_keys, of set] by (auto simp:)

lemma reconcile_head:
  "head (fst (reconcile i actual)) = (case head i of None \<Rightarrow> None
     | Some h \<Rightarrow> if h \<in> set actual then Some h else None)"
  by (simp add: reconcile_def Let_def)

lemma reconcile_parent: "parent_of (fst (reconcile i actual)) c = parent_of i c"
  by (auto simp: parent_of_def reconcile_entry set_missing_props recovered_meta_props
      split: option.splits)

lemma reconcile_kids: "kids_of (fst (reconcile i actual)) c = kids_of i c"
  by (auto simp: kids_of_def reconcile_entry set_missing_props recovered_meta_props
      split: option.splits)

lemma reconcile_wf:
  assumes wf: "wf_index i" and live: "LIVE_CHILD \<notin> set actual"
  shows "wf_index (fst (reconcile i actual))"
proof (rule wf_index_same_forest [OF wf])
  show "distinct (dict_keys (checkpoints (fst (reconcile i actual))))"
    using wf_indexD(1) [OF wf] by (auto simp: reconcile_keys)
  show "LIVE_CHILD \<notin> index_keys (fst (reconcile i actual))"
    using live wf_indexD(2) [OF wf] by (simp add: reconcile_keys_set)
  show "wf_meta m" if "entry (fst (reconcile i actual)) c = Some m" for c m
    using that wf_indexD(3) [OF wf, of c]
    by (auto simp: reconcile_entry set_missing_props recovered_meta_props split: option.splits if_splits)
  show "h \<in> index_keys (fst (reconcile i actual))" if "head (fst (reconcile i actual)) = Some h" for h
    using that by (auto simp: reconcile_head reconcile_keys_set split: option.splits if_splits)
qed (simp_all add: reconcile_parent reconcile_kids)

lemma reconcile_live:
  "(\<exists>m. entry (fst (reconcile i actual)) c = Some m \<and> live_meta m) \<longleftrightarrow> c \<in> set actual"
  by (auto simp: reconcile_entry set_missing_props split: option.splits)

lemma update_entry_wf:
  assumes f: "\<And>m. map_of cps c = Some m \<Longrightarrow> \<exists>m'. f m = Inr m' \<and> R m m'" and c: "c \<in> fst ` set cps"
  shows "\<exists>m m'. map_of cps c = Some m \<and> R m m' \<and> update_entry c f cps = Inr (dict_set c m' cps)"
proof -
  obtain m where m: "map_of cps c = Some m" using c map_of_dom [of cps c] by blast
  obtain m' where "f m = Inr m'" "R m m'" using f [OF m] by blast
  with m show ?thesis by (intro exI [of _ m] exI [of _ m']) (simp add: update_entry_def)
qed

lemma dict_set_existing_keys [simp]:
  "c \<in> fst ` set cps \<Longrightarrow> dict_keys (dict_set c m cps) = dict_keys cps"
  by (simp add: update_keys)

text \<open>Replacing entries by ones with the same pointers keeps the forest.\<close>

definition same_ptrs :: "jdict \<Rightarrow> jdict \<Rightarrow> bool" where
  "same_ptrs m m' \<longleftrightarrow> wf_meta m' \<and> mparent m' = mparent m \<and> live_meta m' = live_meta m \<and>
     set (mkids m') - {LIVE_CHILD} = set (mkids m) - {LIVE_CHILD}"

lemma drop_live_same: "wf_meta m \<Longrightarrow> \<exists>m'. drop_live m = Inr m' \<and> same_ptrs m m'"
  by (erule drop_live_wf) (auto simp: same_ptrs_def)

lemma append_live_same: "wf_meta m \<Longrightarrow> \<exists>m'. append_child LIVE_CHILD m = Inr m' \<and> same_ptrs m m'"
  by (erule append_child_wf [where x = LIVE_CHILD]) (auto simp: same_ptrs_def)

lemma wf_replace_entry:
  assumes wf: "wf_index i" and m: "entry i c = Some m" and same: "same_ptrs m m'"
    and h: "\<And>h. hh = Some h \<Longrightarrow> h \<in> index_keys i"
    and j: "j = \<lparr>head = hh, checkpoints = dict_set c m' (checkpoints i)\<rparr>"
  shows "wf_index j" and "parent_of j x = parent_of i x" and "index_keys j = index_keys i"
proof -
  have c: "c \<in> index_keys i" using m by (metis map_of_dom)
  show k: "index_keys j = index_keys i" using c by (auto simp: j)
  have e: "entry j x = (if x = c then Some m' else entry i x)" for x
    by (simp add: j)
  show P: "parent_of j x = parent_of i x" for x
    using m same by (simp add: parent_of_def same_ptrs_def e)
  show "wf_index j"
  proof (rule wf_index_same_forest [OF wf])
    show "distinct (dict_keys (checkpoints j))"
      using wf_indexD(1) [OF wf] by (simp add: j)
    show "wf_meta mx" if "entry j x = Some mx" for x mx
      using that same wf_indexD(3) [OF wf, of x] by (auto simp: e same_ptrs_def split: if_splits)
    show "kids_of j x = kids_of i x" for x
      using m same by (simp add: kids_of_def e same_ptrs_def)
    show "hx \<in> index_keys j" if "head j = Some hx" for hx
      using that h k by (simp add: j)
  qed (use k P wf_indexD(2) [OF wf] in simp_all)
qed

lemma move_head_result:
  assumes wf: "wf_index i" and c: "c \<in> index_keys i"
  shows "\<exists>j. move_head i c = Inr j \<and> wf_index j \<and> head j = Some c \<and>
    index_keys j = index_keys i \<and> (\<forall>x. parent_of j x = parent_of i x)"
proof -
  have "\<exists>cps1. update_head_entry (head i) drop_live (checkpoints i) = Inr cps1 \<and>
      wf_index \<lparr>head = head i, checkpoints = cps1\<rparr> \<and> fst ` set cps1 = index_keys i \<and>
      (\<forall>x. parent_of \<lparr>head = head i, checkpoints = cps1\<rparr> x = parent_of i x)"
  proof (cases "head i")
    case None
    then obtain cps where i: "i = \<lparr>head = None, checkpoints = cps\<rparr>" by (cases i) simp
    show ?thesis
      by (intro exI [of _ cps]) (use wf in \<open>simp add: i update_head_entry_def\<close>)
  next
    case (Some h)
    have hk: "h \<in> index_keys i" by (rule wf_indexD(5) [OF wf Some])
    have "\<exists>m m'. entry i h = Some m \<and> same_ptrs m m' \<and>
        update_entry h drop_live (checkpoints i) = Inr (dict_set h m' (checkpoints i))"
      by (rule update_entry_wf [OF _ hk]) (simp add: drop_live_same wf_indexD(3) [OF wf])
    then obtain m m' where m: "entry i h = Some m" "same_ptrs m m'"
      "update_entry h drop_live (checkpoints i) = Inr (dict_set h m' (checkpoints i))" by blast
    note w = wf_replace_entry [where hh = "head i", OF wf m(1,2) wf_indexD(5) [OF wf] refl]
    show ?thesis
      by (intro exI [of _ "dict_set h m' (checkpoints i)"])
         (use w m(3) Some in \<open>simp add: update_head_entry_def\<close>)
  qed
  then obtain cps1 where 1: "update_head_entry (head i) drop_live (checkpoints i) = Inr cps1"
    "wf_index \<lparr>head = head i, checkpoints = cps1\<rparr>" "fst ` set cps1 = index_keys i"
    "\<forall>x. parent_of \<lparr>head = head i, checkpoints = cps1\<rparr> x = parent_of i x" by blast
  define i1 where "i1 = \<lparr>head = head i, checkpoints = cps1\<rparr>"
  have wf1: "wf_index i1" and ck: "c \<in> index_keys i1" using 1 c by (simp_all add: i1_def)
  have "\<exists>m m'. entry i1 c = Some m \<and> same_ptrs m m' \<and>
      update_entry c (append_child LIVE_CHILD) (checkpoints i1) = Inr (dict_set c m' (checkpoints i1))"
    by (rule update_entry_wf [OF _ ck]) (simp add: append_live_same wf_indexD(3) [OF wf1])
  then obtain m m' where m: "entry i1 c = Some m" "same_ptrs m m'"
    "update_entry c (append_child LIVE_CHILD) (checkpoints i1) = Inr (dict_set c m' (checkpoints i1))"
    by blast
  define j where "j = \<lparr>head = Some c, checkpoints = dict_set c m' (checkpoints i1)\<rparr>"
  have "\<And>h. Some c = Some h \<Longrightarrow> h \<in> index_keys i1" using ck by simp
  note w = wf_replace_entry [OF wf1 m(1,2) this j_def]
  have "move_head i c = Inr j"
    using c 1(1) m(3) by (simp add: move_head_def j_def i1_def)
  then show ?thesis
    by (intro exI [of _ j]) (use w 1(3,4) in \<open>simp add: i1_def j_def\<close>)
qed


section \<open>remove\<close>

lemma reparent_all_result:
  "\<exists>cps'. reparent_all par (map JStr ks) cps = Inr cps' \<and> dict_keys cps' = dict_keys cps \<and>
     (\<forall>x. map_of cps' x = (if x \<in> set ks then map_option (dict_set ''parent_id'' par) (map_of cps x)
                          else map_of cps x))"
proof (induction ks arbitrary: cps)
  case Nil
  then show ?case by simp
next
  case (Cons k ks)
  define cps1 where "cps1 = (case map_of cps k of None \<Rightarrow> cps
    | Some m \<Rightarrow> dict_set k (dict_set ''parent_id'' par m) cps)"
  have step: "reparent_child par (JStr k) cps = Inr cps1"
    by (simp add: reparent_child_def update_entry_def cps1_def split: option.splits)
  have keys: "dict_keys cps1 = dict_keys cps"
    using map_of_dom [of cps k] by (auto simp: cps1_def update_keys split: option.splits)
  have look: "map_of cps1 x = (if x = k then map_option (dict_set ''parent_id'' par) (map_of cps x)
      else map_of cps x)" for x
    by (auto simp: cps1_def split: option.splits)
  obtain cps' where "reparent_all par (map JStr ks) cps1 = Inr cps'" "dict_keys cps' = dict_keys cps1"
    "\<forall>x. map_of cps' x = (if x \<in> set ks then map_option (dict_set ''parent_id'' par) (map_of cps1 x)
      else map_of cps1 x)"
    using Cons.IH by blast
  then show ?case
    by (intro exI [of _ cps']) (auto simp: step keys look option.map_comp comp_def)
qed

lemma acyclic_contract:
  assumes "acyclic r" and "\<And>a b. (a, b) \<in> s \<Longrightarrow> (a, b) \<in> r\<^sup>+"
  shows "acyclic s"
proof -
  have "s\<^sup>+ \<subseteq> (r\<^sup>+)\<^sup>+" by (rule trancl_mono_subset) (use assms(2) in auto)
  then show ?thesis using assms(1) by (auto simp: acyclic_def)
qed

text \<open>The parent pointers after the removal, as a function of those before.\<close>

definition contract :: "(string \<Rightarrow> string option) \<Rightarrow> string \<Rightarrow> string \<Rightarrow> string option" where
  "contract par c x = (if x = c then None else if par x = Some c then par c else par x)"

lemma remove_entries:
  assumes wf: "wf_index i" and m: "entry i c = Some m"
  shows "\<exists>cps. remove i c = bindR (update_head_entry
            (if head i = Some c then parent_of i c else head i) (append_child LIVE_CHILD) cps)
              (\<lambda>cps'. Inr \<lparr>head = (if head i = Some c then parent_of i c else head i), checkpoints = cps'\<rparr>) \<and>
          distinct (dict_keys cps) \<and> fst ` set cps = index_keys i - {c} \<and>
          (\<forall>x mx. x \<noteq> c \<longrightarrow> entry i x = Some mx \<longrightarrow> (\<exists>mx'. map_of cps x = Some mx' \<and> wf_meta mx' \<and>
             mparent mx' = contract (parent_of i) c x \<and> live_meta mx' = live_meta mx \<and>
             set (mkids mx') - {LIVE_CHILD} =
               (if parent_of i c = Some x then kids_of i x - {c} \<union> kids_of i c else kids_of i x)))"
proof -
  have wm: "wf_meta m" by (rule wf_indexD(3) [OF wf m])
  have par: "jget m ''parent_id'' = dict_of_opt (parent_of i c)"
    using wf_metaD(1) [OF wm] m by (simp add: parent_of_def)
  define ks where "ks = filter (\<lambda>k. k \<noteq> LIVE_CHILD) (mkids m)"
  have ks: "set ks = kids_of i c" using m by (auto simp: ks_def kids_of_def)
  have kf: "filter (\<lambda>x. x \<noteq> JStr LIVE_CHILD) (map JStr (mkids m)) = map JStr ks"
    by (simp add: ks_def)
  obtain cps1 where c1: "reparent_all (dict_of_opt (parent_of i c)) (map JStr ks) (checkpoints i) = Inr cps1"
    "dict_keys cps1 = dict_keys (checkpoints i)"
    "\<forall>x. map_of cps1 x = (if x \<in> set ks
        then map_option (dict_set ''parent_id'' (dict_of_opt (parent_of i c))) (entry i x) else entry i x)"
    using reparent_all_result by blast
  have k1: "fst ` set cps1 = index_keys i" using arg_cong [OF c1(2), of set] by simp
  have kid: "x \<in> set ks \<longleftrightarrow> parent_of i x = Some c" for x
    using ks wf_indexD(4) [OF wf] by simp
  have look1: "\<exists>mx'. map_of cps1 x = Some mx' \<and> wf_meta mx' \<and> live_meta mx' = live_meta mx \<and>
      mkids mx' = mkids mx \<and> mparent mx' = (if parent_of i x = Some c then parent_of i c else parent_of i x)"
    if "entry i x = Some mx" for x mx
    using that c1(3) wf_indexD(3) [OF wf that] kid [of x]
    by (auto simp: wf_meta_set_parent parent_of_def)
  have "\<exists>cps2. (case dict_of_opt (parent_of i c) of JStr p \<Rightarrow> update_entry p (adopt_children c (map JStr ks)) cps1
        | _ \<Rightarrow> Inr cps1) = Inr cps2 \<and> dict_keys cps2 = dict_keys cps1 \<and>
      (\<forall>x mx. entry i x = Some mx \<longrightarrow> (\<exists>mx'. map_of cps2 x = Some mx' \<and> wf_meta mx' \<and>
        live_meta mx' = live_meta mx \<and>
        mparent mx' = (if parent_of i x = Some c then parent_of i c else parent_of i x) \<and>
        set (mkids mx') - {LIVE_CHILD} =
          (if parent_of i c = Some x then kids_of i x - {c} \<union> kids_of i c else kids_of i x)))"
  proof (cases "parent_of i c")
    case None
    then show ?thesis
      by (intro exI [of _ cps1]) (use look1 in \<open>fastforce simp: dict_of_opt_def kids_of_def\<close>)
  next
    case (Some p)
    have pk: "p \<in> index_keys i" by (rule wf_parent_key [OF wf Some])
    obtain mp where mp: "entry i p = Some mp" using pk map_of_dom [of "checkpoints i" p] by blast
    obtain mp1 where mp1: "map_of cps1 p = Some mp1" "wf_meta mp1" "live_meta mp1 = live_meta mp"
      "mkids mp1 = mkids mp" "mparent mp1 = (if parent_of i p = Some c then parent_of i c else parent_of i p)"
      using look1 [OF mp] by blast
    obtain mp2 where mp2: "adopt_children c (map JStr ks) mp1 = Inr mp2" "wf_meta mp2"
      "mparent mp2 = mparent mp1" "set (mkids mp2) = (set (mkids mp1) - {c}) \<union> set ks"
      "live_meta mp2 = live_meta mp1"
      using adopt_children_wf [OF mp1(2)] .
    have kp: "set (mkids mp2) - {LIVE_CHILD} = kids_of i p - {c} \<union> kids_of i c"
      using mp2(4) mp1(4) mp ks by (auto simp: kids_of_def ks_def)
    have "dict_keys (dict_set p mp2 cps1) = dict_keys cps1"
      using pk k1 by (simp add: update_keys)
    moreover have "\<exists>mx'. map_of (dict_set p mp2 cps1) x = Some mx' \<and> wf_meta mx' \<and>
        live_meta mx' = live_meta mx \<and>
        mparent mx' = (if parent_of i x = Some c then parent_of i c else parent_of i x) \<and>
        set (mkids mx') - {LIVE_CHILD} =
          (if parent_of i c = Some x then kids_of i x - {c} \<union> kids_of i c else kids_of i x)"
      if mx: "entry i x = Some mx" for x mx
    proof (cases "x = p")
      case True
      then show ?thesis using mx mp mp1 mp2 kp Some by simp
    next
      case False
      then show ?thesis using look1 [OF mx] Some mx by (auto simp: kids_of_def)
    qed
    ultimately show ?thesis
      by (intro exI [of _ "dict_set p mp2 cps1"])
         (use Some mp1(1) mp2(1) in \<open>simp add: dict_of_opt_def update_entry_def\<close>)
  qed
  then obtain cps2 where c2: "(case dict_of_opt (parent_of i c) of
        JStr p \<Rightarrow> update_entry p (adopt_children c (map JStr ks)) cps1 | _ \<Rightarrow> Inr cps1) = Inr cps2"
    "dict_keys cps2 = dict_keys cps1"
    "\<forall>x mx. entry i x = Some mx \<longrightarrow> (\<exists>mx'. map_of cps2 x = Some mx' \<and> wf_meta mx' \<and>
        live_meta mx' = live_meta mx \<and>
        mparent mx' = (if parent_of i x = Some c then parent_of i c else parent_of i x) \<and>
        set (mkids mx') - {LIVE_CHILD} =
          (if parent_of i c = Some x then kids_of i x - {c} \<union> kids_of i c else kids_of i x))"
    by blast
  have hp: "(case dict_of_opt (parent_of i c) of JStr p \<Rightarrow> Some p | _ \<Rightarrow> None) = parent_of i c"
    by (simp add: dict_of_opt_def split: option.splits)
  have "remove i c = bindR (update_head_entry
            (if head i = Some c then parent_of i c else head i) (append_child LIVE_CHILD) (dict_del c cps2))
              (\<lambda>cps'. Inr \<lparr>head = (if head i = Some c then parent_of i c else head i), checkpoints = cps'\<rparr>)"
    unfolding remove_def m option.case Let_def par wf_metaD(2) [OF wm] py_iter.simps bindR_simps kf
      c1(1) c2(1) hp ..
  moreover have "distinct (dict_keys (dict_del c cps2))"
    using wf_indexD(1) [OF wf] c1(2) c2(2) by simp
  moreover have "fst ` set (dict_del c cps2) = index_keys i - {c}"
    using arg_cong [OF c2(2), of set] k1 by simp
  moreover have "\<exists>mx'. map_of (dict_del c cps2) x = Some mx' \<and> wf_meta mx' \<and>
      mparent mx' = contract (parent_of i) c x \<and> live_meta mx' = live_meta mx \<and>
      set (mkids mx') - {LIVE_CHILD} =
        (if parent_of i c = Some x then kids_of i x - {c} \<union> kids_of i c else kids_of i x)"
    if "x \<noteq> c" "entry i x = Some mx" for x mx
    using c2(3) [rule_format, OF that(2)] that(1)
    by (elim exE conjE) (intro exI conjI, simp_all add: contract_def split del: if_split)
  ultimately show ?thesis
    by (intro exI [of _ "dict_del c cps2"] conjI allI impI)
qed


lemma remove_result:
  assumes wf: "wf_index i" and c: "c \<in> index_keys i"
  shows "\<exists>j. remove i c = Inr j \<and> wf_index j \<and> index_keys j = index_keys i - {c} \<and>
    head j = (if head i = Some c then parent_of i c else head i) \<and>
    (\<forall>x. parent_of j x = contract (parent_of i) c x)"
proof -
  obtain m where m: "entry i c = Some m" using c map_of_dom [of "checkpoints i" c] by blast
  define hh where "hh = (if head i = Some c then parent_of i c else head i)"
  obtain cps where r: "remove i c = bindR (update_head_entry hh (append_child LIVE_CHILD) cps)
        (\<lambda>cps'. Inr \<lparr>head = hh, checkpoints = cps'\<rparr>)"
    and d: "distinct (dict_keys cps)" and k: "fst ` set cps = index_keys i - {c}"
    and e: "\<forall>x mx. x \<noteq> c \<longrightarrow> entry i x = Some mx \<longrightarrow> (\<exists>mx'. map_of cps x = Some mx' \<and> wf_meta mx' \<and>
             mparent mx' = contract (parent_of i) c x \<and> live_meta mx' = live_meta mx \<and>
             set (mkids mx') - {LIVE_CHILD} =
               (if parent_of i c = Some x then kids_of i x - {c} \<union> kids_of i c else kids_of i x))"
    using remove_entries [OF wf m, folded hh_def] by (elim exE conjE) (rule that)
  define i1 where "i1 = \<lparr>head = hh, checkpoints = cps\<rparr>"
  have none: "entry i1 x = None" if "x \<notin> index_keys i - {c}" for x
    using that k by (simp add: i1_def map_of_eq_None_iff)
  have some: "\<exists>mx'. entry i1 x = Some mx' \<and> wf_meta mx' \<and> mparent mx' = contract (parent_of i) c x \<and>
      set (mkids mx') - {LIVE_CHILD} =
        (if parent_of i c = Some x then kids_of i x - {c} \<union> kids_of i c else kids_of i x)"
    if xk: "x \<in> index_keys i" and xc: "x \<noteq> c" for x
  proof -
    obtain mx where "entry i x = Some mx" using xk map_of_dom [of "checkpoints i" x] by blast
    from e [rule_format, OF xc this] show ?thesis
      by (elim exE conjE) (intro exI conjI, simp_all add: i1_def split del: if_split)
  qed
  have P: "parent_of i1 x = contract (parent_of i) c x" for x
  proof (cases "x \<in> index_keys i \<and> x \<noteq> c")
    case True
    then obtain mx' where "entry i1 x = Some mx'" "mparent mx' = contract (parent_of i) c x"
      using some [of x] by blast
    then show ?thesis by (simp add: parent_of_def [of i1])
  next
    case False
    then have "parent_of i1 x = None" using none [of x] by (auto simp: parent_of_def)
    moreover have "contract (parent_of i) c x = None"
      using False parent_of_key [of i x] by (cases "parent_of i x") (auto simp: contract_def)
    ultimately show ?thesis by simp
  qed
  have K: "kids_of i1 x = (if x = c then {} else if parent_of i c = Some x
      then kids_of i x - {c} \<union> kids_of i c else kids_of i x)" for x
  proof (cases "x \<in> index_keys i \<and> x \<noteq> c")
    case True
    then obtain mx' where "entry i1 x = Some mx'" "set (mkids mx') - {LIVE_CHILD} =
        (if parent_of i c = Some x then kids_of i x - {c} \<union> kids_of i c else kids_of i x)"
      using some [of x] by blast
    then show ?thesis using True by (simp add: kids_of_def [of i1])
  next
    case False
    then have "kids_of i1 x = {}" using none [of x] by (auto simp: kids_of_def)
    moreover have "x = c \<or> kids_of i x = {} \<and> parent_of i c \<noteq> Some x"
      using False kids_of_key [of _ i x] wf_parent_key [OF wf, of c x] by blast
    ultimately show ?thesis by auto
  qed
  have uniq: "x \<in> kids_of i a \<Longrightarrow> x \<in> kids_of i b \<Longrightarrow> a = b" for x a b
    using wf_indexD(4) [OF wf] by (metis option.inject)
  have wf1: "wf_index i1"
  proof (rule wf_indexI)
    show "distinct (dict_keys (checkpoints i1))" using d by (simp add: i1_def)
    show "LIVE_CHILD \<notin> index_keys i1" using k wf_indexD(2) [OF wf] by (simp add: i1_def)
    show "wf_meta mx" if "entry i1 x = Some mx" for x mx
      using that none [of x] some [of x] by (cases "x \<in> index_keys i - {c}") auto
    show "parent_of i1 x = Some p \<longleftrightarrow> x \<in> kids_of i1 p" for x p
      using P [of x] K [of p] wf_indexD(4) [OF wf] wf_no_self_parent [OF wf]
      unfolding contract_def by (auto split: if_splits dest: uniq)
    show "h \<in> index_keys i1" if "head i1 = Some h" for h
    proof (cases "head i = Some c")
      case True
      then have "parent_of i c = Some h" using that by (simp add: i1_def hh_def)
      then show ?thesis
        using wf_parent_key [OF wf] wf_no_self_parent [OF wf, of c] k by (auto simp: i1_def)
    next
      case False
      then show ?thesis using that wf_indexD(5) [OF wf] k by (auto simp: i1_def hh_def)
    qed
    show "acyclic (parent_rel i1)"
    proof (rule acyclic_contract [OF wf_indexD(6) [OF wf]])
      fix a b assume "(a, b) \<in> parent_rel i1"
      then have "contract (parent_of i) c a = Some b" using P by (simp add: parent_rel_def)
      then consider "parent_of i a = Some b" | "parent_of i a = Some c" "parent_of i c = Some b"
        by (auto simp: contract_def split: if_splits)
      then show "(a, b) \<in> (parent_rel i)\<^sup>+"
        by cases (auto simp: parent_rel_def intro: trancl_into_trancl2)
    qed
  qed
  show ?thesis
  proof (cases hh)
    case None
    then have "remove i c = Inr i1" using r by (simp add: update_head_entry_def i1_def)
    then show ?thesis using wf1 P k by (intro exI [of _ i1]) (simp add: i1_def hh_def)
  next
    case (Some h)
    have hk: "h \<in> index_keys i1" by (rule wf_indexD(5) [OF wf1]) (simp add: i1_def Some)
    have "\<exists>mh mh'. entry i1 h = Some mh \<and> same_ptrs mh mh' \<and>
        update_entry h (append_child LIVE_CHILD) (checkpoints i1) = Inr (dict_set h mh' (checkpoints i1))"
      by (rule update_entry_wf [OF _ hk]) (simp add: append_live_same wf_indexD(3) [OF wf1])
    then obtain mh mh' where mh: "entry i1 h = Some mh" "same_ptrs mh mh'"
      "update_entry h (append_child LIVE_CHILD) (checkpoints i1) = Inr (dict_set h mh' (checkpoints i1))"
      by blast
    define j where "j = \<lparr>head = hh, checkpoints = dict_set h mh' (checkpoints i1)\<rparr>"
    have "\<And>x. hh = Some x \<Longrightarrow> x \<in> index_keys i1" using hk Some by simp
    note w = wf_replace_entry [OF wf1 mh(1,2) this j_def]
    have "remove i c = Inr j" using r mh(3) Some by (simp add: update_head_entry_def i1_def j_def)
    then show ?thesis
      by (intro exI [of _ j]) (use w P k in \<open>simp add: j_def i1_def hh_def\<close>)
  qed
qed


section \<open>The abstract lineage\<close>

text \<open>
  What the index promises: a head and, for every indexed checkpoint, its parent. The metadata,
  the child lists and the live marker are representation.
\<close>

record lineage =
  l_head :: "string option"
  l_parents :: "string \<rightharpoonup> string option"

definition view :: "checkpoint_index \<Rightarrow> lineage" where
  "view i = \<lparr>l_head = head i, l_parents = (\<lambda>c. map_option mparent (entry i c))\<rparr>"

definition l_add :: "lineage \<Rightarrow> string \<Rightarrow> lineage" where
  "l_add L c = \<lparr>l_head = Some c, l_parents = (l_parents L)(c \<mapsto> l_head L)\<rparr>"

definition l_move :: "lineage \<Rightarrow> string \<Rightarrow> lineage" where
  "l_move L c = L\<lparr>l_head := Some c\<rparr>"

definition l_remove :: "lineage \<Rightarrow> string \<Rightarrow> lineage" where
  "l_remove L c =
     (let par = (case l_parents L c of Some p \<Rightarrow> p | None \<Rightarrow> None) in
      \<lparr>l_head = (if l_head L = Some c then par else l_head L),
       l_parents = (\<lambda>x. if x = c then None
          else map_option (\<lambda>p. if p = Some c then par else p) (l_parents L x))\<rparr>)"

definition l_reconcile :: "lineage \<Rightarrow> string set \<Rightarrow> lineage" where
  "l_reconcile L A =
     \<lparr>l_head = (case l_head L of None \<Rightarrow> None | Some h \<Rightarrow> if h \<in> A then Some h else None),
      l_parents = (\<lambda>x. case l_parents L x of Some p \<Rightarrow> Some p
                     | None \<Rightarrow> if x \<in> A then Some None else None)\<rparr>"

definition l_rel :: "lineage \<Rightarrow> (string \<times> string) set" where
  "l_rel L = {(c, p). l_parents L c = Some (Some p)}"

lemma view_parents:
  "l_parents (view i) x = (if x \<in> index_keys i then Some (parent_of i x) else None)"
  using map_of_dom [of "checkpoints i" x]
  by (auto simp: view_def parent_of_def entry_None_iff)

lemma view_head: "l_head (view i) = head i"
  by (simp add: view_def)

lemma view_eqI:
  assumes "head j = l_head L"
    and "\<And>x. l_parents L x = (if x \<in> index_keys j then Some (parent_of j x) else None)"
  shows "view j = L"
  by (rule lineage.equality) (auto simp: view_head assms(1) view_parents assms(2))

lemma view_rel: "l_rel (view i) = parent_rel i"
  by (auto simp: l_rel_def view_parents parent_rel_def dest: parent_of_key split: if_splits)

lemma view_dom: "dom (l_parents (view i)) = index_keys i"
  by (auto simp: dom_def view_parents)

lemma add_view:
  assumes "wf_index i" "add i c t orig msg pin md = Inr j" "c \<noteq> LIVE_CHILD"
  shows "view j = l_add (view i) c"
  by (rule view_eqI) (auto simp: add_parent_kids [OF assms] l_add_def view_head view_parents)

lemma remove_view:
  assumes wf: "wf_index i" and r: "remove i c = Inr j" and c: "c \<in> index_keys i"
  shows "view j = l_remove (view i) c"
proof -
  from remove_result [OF wf c] r have
    j: "index_keys j = index_keys i - {c}" "head j = (if head i = Some c then parent_of i c else head i)"
      "\<And>x. parent_of j x = contract (parent_of i) c x" by auto
  show ?thesis
    by (rule view_eqI) (auto simp: l_remove_def Let_def view_head view_parents j c contract_def)
qed

lemma move_head_view:
  assumes wf: "wf_index i" and r: "move_head i c = Inr j"
  shows "view j = l_move (view i) c" and "wf_index j"
proof -
  have c: "c \<in> index_keys i" using r by (auto simp: move_head_def split: if_splits)
  from move_head_result [OF wf c] r have
    j: "wf_index j" "index_keys j = index_keys i" "head j = Some c" "\<And>x. parent_of j x = parent_of i x"
    by auto
  show "view j = l_move (view i) c"
    by (rule view_eqI) (simp_all add: l_move_def view_parents j)
  show "wf_index j" by (rule j(1))
qed

lemma reconcile_view: "view (fst (reconcile i actual)) = l_reconcile (view i) (set actual)"
  by (rule view_eqI)
     (auto simp: l_reconcile_def view_head view_parents reconcile_head reconcile_keys_set
        reconcile_parent dest: parent_of_key split: option.splits)

section \<open>The interface of a lineage\<close>

text \<open>
  The contract a client of the index relies on: each command succeeds under its guard, keeps the
  invariant and acts on the view as the abstract command does; the view of a well-formed index is
  a finite forest. Sequences of commands, and the depth of ancestor walks, are treated once here.
\<close>

datatype 'a lcmd = LAdd 'a string | LMove string | LRemove string | LSync "string list"

fun l_guard :: "lineage \<Rightarrow> 'a lcmd \<Rightarrow> bool" where
  "l_guard L (LAdd a c) = (c \<notin> dom (l_parents L) \<and> c \<noteq> LIVE_CHILD)"
| "l_guard L (LMove c) = (c \<in> dom (l_parents L))"
| "l_guard L (LRemove c) = (c \<in> dom (l_parents L))"
| "l_guard L (LSync xs) = (LIVE_CHILD \<notin> set xs)"

fun l_exec :: "lineage \<Rightarrow> 'a lcmd \<Rightarrow> lineage" where
  "l_exec L (LAdd a c) = l_add L c"
| "l_exec L (LMove c) = l_move L c"
| "l_exec L (LRemove c) = l_remove L c"
| "l_exec L (LSync xs) = l_reconcile L (set xs)"

fun l_run :: "lineage \<Rightarrow> 'a lcmd list \<Rightarrow> lineage option" where
  "l_run L [] = Some L"
| "l_run L (k # ks) = (if l_guard L k then l_run (l_exec L k) ks else None)"

fun l_ancestor :: "lineage \<Rightarrow> nat \<Rightarrow> string \<Rightarrow> string option" where
  "l_ancestor L 0 c = Some c"
| "l_ancestor L (Suc k) c = (case l_parents L c of Some (Some p) \<Rightarrow> l_ancestor L k p | _ \<Rightarrow> None)"

fun run_cmds :: "('i \<Rightarrow> 'a lcmd \<Rightarrow> 'i res) \<Rightarrow> 'i \<Rightarrow> 'a lcmd list \<Rightarrow> 'i res" where
  "run_cmds ex i [] = Inr i"
| "run_cmds ex i (k # ks) = bindR (ex i k) (\<lambda>j. run_cmds ex j ks)"

locale checkpoint_lineage =
  fixes inv :: "'i \<Rightarrow> bool" and vw :: "'i \<Rightarrow> lineage" and ex :: "'i \<Rightarrow> 'a lcmd \<Rightarrow> 'i res"
  assumes ex_ok: "inv i \<Longrightarrow> l_guard (vw i) k \<Longrightarrow>
      \<exists>j. ex i k = Inr j \<and> inv j \<and> vw j = l_exec (vw i) k"
    and closed: "inv i \<Longrightarrow> l_parents (vw i) c = Some (Some p) \<Longrightarrow> p \<in> dom (l_parents (vw i))"
    and finite_dom: "inv i \<Longrightarrow> finite (dom (l_parents (vw i)))"
    and forest: "inv i \<Longrightarrow> acyclic (l_rel (vw i))"
begin

lemma run_ok:
  "inv i \<Longrightarrow> l_run (vw i) ks = Some L \<Longrightarrow>
     \<exists>j. run_cmds ex i ks = Inr j \<and> inv j \<and> vw j = L"
proof (induction ks arbitrary: i)
  case Nil
  then show ?case by simp
next
  case (Cons k ks)
  from Cons.prems(2) have g: "l_guard (vw i) k" and r: "l_run (l_exec (vw i) k) ks = Some L"
    by (auto split: if_splits)
  obtain j where j: "ex i k = Inr j" "inv j" "vw j = l_exec (vw i) k"
    using ex_ok [OF Cons.prems(1) g] by blast
  with Cons.IH [of j] r show ?case by simp
qed

lemma ancestor_trancl: "l_ancestor (vw i) (Suc k) c = Some a \<Longrightarrow> (c, a) \<in> (l_rel (vw i))\<^sup>+"
  by (induction k arbitrary: c)
     (auto simp: l_rel_def intro: trancl_into_trancl2 split: option.splits)

lemma ancestor_pos_trancl:
  "0 < k \<Longrightarrow> l_ancestor (vw i) k c = Some a \<Longrightarrow> (c, a) \<in> (l_rel (vw i))\<^sup>+"
  using ancestor_trancl [of i "k - 1" c a] by (cases k) simp_all

lemma ancestor_split:
  "l_ancestor L (m + n) c = Option.bind (l_ancestor L m c) (l_ancestor L n)"
  by (induction m arbitrary: c) (auto split: option.splits)

lemma ancestor_dom:
  "inv i \<Longrightarrow> c \<in> dom (l_parents (vw i)) \<Longrightarrow> l_ancestor (vw i) k c = Some a \<Longrightarrow>
     a \<in> dom (l_parents (vw i))"
proof (induction k arbitrary: c)
  case 0
  then show ?case by simp
next
  case (Suc k)
  then obtain p where p: "l_parents (vw i) c = Some (Some p)" "l_ancestor (vw i) k p = Some a"
    by (auto split: option.splits)
  with Suc.IH [of p] Suc.prems closed [of i c p] show ?case by simp
qed

lemma ancestor_bound:
  assumes inv: "inv i" and c: "c \<in> dom (l_parents (vw i))" and a: "l_ancestor (vw i) k c = Some a"
  shows "k < card (dom (l_parents (vw i)))"
proof -
  define f where "f n = the (l_ancestor (vw i) n c)" for n
  have some: "l_ancestor (vw i) n c = Some (f n)" if "n \<le> k" for n
    using a that ancestor_split [of "vw i" n "k - n" c] by (cases "l_ancestor (vw i) n c") (auto simp: f_def)
  have neq: "f m \<noteq> f n" if "m < n" "n \<le> k" for m n
  proof
    assume eq: "f m = f n"
    have "l_ancestor (vw i) (n - m) (f m) = Some (f n)"
      using ancestor_split [of "vw i" m "n - m" c] some [of m] some [of n] that by simp
    then have "(f m, f n) \<in> (l_rel (vw i))\<^sup>+"
      using that by (intro ancestor_pos_trancl [of "n - m"]) simp_all
    with eq forest [OF inv] show False by (simp add: acyclic_def)
  qed
  have "inj_on f {..k}"
    by (rule linorder_inj_onI') (use neq in auto)
  moreover have "f ` {..k} \<subseteq> dom (l_parents (vw i))"
    using ancestor_dom [OF inv c some] by auto
  ultimately have "card {..k} \<le> card (dom (l_parents (vw i)))"
    using finite_dom [OF inv] by (metis card_inj_on_le)
  then show ?thesis by simp
qed

end

text \<open>The index provides it; the extra argument of \<open>LAdd\<close> is the metadata of the new checkpoint.\<close>

type_synonym add_args = "int \<times> string \<times> string option \<times> bool \<times> json"

fun index_exec :: "checkpoint_index \<Rightarrow> add_args lcmd \<Rightarrow> checkpoint_index res" where
  "index_exec i (LAdd (t, orig, msg, pin, md) c) = add i c t orig msg pin md"
| "index_exec i (LMove c) = move_head i c"
| "index_exec i (LRemove c) = remove i c"
| "index_exec i (LSync xs) = Inr (fst (reconcile i xs))"

lemma add_succeeds:
  "wf_index i \<Longrightarrow> c \<notin> index_keys i \<Longrightarrow> \<exists>j. add i c t orig msg pin md = Inr j"
  using add_result by blast

lemma index_exec_ok:
  assumes wf: "wf_index i" and g: "l_guard (view i) k"
  shows "\<exists>j. index_exec i k = Inr j \<and> wf_index j \<and> view j = l_exec (view i) k"
proof (cases k)
  case (LAdd a c)
  obtain t orig msg pin md where a: "a = (t, orig, msg, pin, md)" by (cases a)
  have c: "c \<notin> index_keys i" "c \<noteq> LIVE_CHILD" using g by (simp_all add: LAdd view_dom)
  then obtain j where j: "add i c t orig msg pin md = Inr j" using add_succeeds [OF wf] by blast
  show ?thesis
    using j add_view [OF wf j c(2)] add_parent_kids(3) [OF wf j c(2)] by (simp add: LAdd a)
next
  case (LMove c)
  then have "c \<in> index_keys i" using g by (simp add: view_dom)
  then obtain j where "move_head i c = Inr j" using move_head_result [OF wf] by blast
  then show ?thesis using move_head_view [OF wf] by (simp add: LMove)
next
  case (LRemove c)
  then have c: "c \<in> index_keys i" using g by (simp add: view_dom)
  then obtain j where "remove i c = Inr j" "wf_index j" using remove_result [OF wf] by blast
  then show ?thesis using remove_view [OF wf _ c] by (simp add: LRemove)
next
  case (LSync xs)
  then show ?thesis using g reconcile_wf [OF wf] by (simp add: reconcile_view)
qed

interpretation idx: checkpoint_lineage wf_index view index_exec
proof
  fix i :: checkpoint_index and k :: "add_args lcmd" and c p
  assume wf: "wf_index i"
  show "l_guard (view i) k \<Longrightarrow> \<exists>j. index_exec i k = Inr j \<and> wf_index j \<and> view j = l_exec (view i) k"
    by (rule index_exec_ok [OF wf])
  show "l_parents (view i) c = Some (Some p) \<Longrightarrow> p \<in> dom (l_parents (view i))"
    using wf_parent_key [OF wf] by (auto simp: view_dom view_parents split: if_splits)
  show "finite (dom (l_parents (view i)))" by (simp add: view_dom)
  show "acyclic (l_rel (view i))" using wf_indexD(6) [OF wf] by (simp add: view_rel)
qed

section \<open>resolve, records and the file format\<close>

lemma parent_of_json:
  "jget (dict_get (checkpoints i) c []) ''parent_id'' = JStr p \<longleftrightarrow> parent_of i c = Some p"
  by (cases "entry i c") (auto simp: parent_of_def mparent_def split: json.splits)

lemma walk_parents_ancestor:
  "walk_parents i n k c =
     (case l_ancestor (view i) k c of None \<Rightarrow> Inl (lineage_ends n) | Some a \<Rightarrow> Inr a)"
proof (induction k arbitrary: c)
  case 0
  then show ?case by simp
next
  case (Suc k)
  show ?case
  proof (cases "parent_of i c")
    case None
    then have "l_ancestor (view i) (Suc k) c = None" by (simp add: view_parents)
    moreover have "walk_parents i n (Suc k) c = Inl (lineage_ends n)"
      using None parent_of_json [of i c] by (auto split: json.splits)
    ultimately show ?thesis by simp
  next
    case (Some p)
    then have "jget (dict_get (checkpoints i) c []) ''parent_id'' = JStr p" by (simp add: parent_of_json)
    then show ?thesis using Suc.IH [of p] Some parent_of_key [OF Some] by (simp add: view_parents)
  qed
qed

lemma resolve_ancestor:
  "resolve i None (Some n) =
     (if n < 1 then Inl (CheckpointIndexError ''num_ancestors must be >= 1'')
      else case head i of None \<Rightarrow> Inl (CheckpointIndexError ''checkpoint lineage has no head'')
        | Some h \<Rightarrow> (case l_ancestor (view i) (nat (n - 1)) h of
             None \<Rightarrow> Inl (lineage_ends n) | Some a \<Rightarrow> Inr a))"
  by (simp add: resolve_def walk_parents_ancestor split: option.split)

text \<open>The identifiers whose snapshot is present.\<close>

definition live_ids :: "checkpoint_index \<Rightarrow> string set" where
  "live_ids i = {c. \<exists>m. entry i c = Some m \<and> live_meta m}"

lemma set_prefix_matches:
  assumes "distinct (dict_keys (checkpoints i))"
  shows "set (prefix_matches i c) = {x \<in> live_ids i. startswith x c}"
    and "distinct (prefix_matches i c)"
  using assms
  by (auto simp: prefix_matches_def live_ids_def distinct_map_filter
      intro: rev_image_eqI)

lemma resolve_id:
  assumes d: "distinct (dict_keys (checkpoints i))"
  shows "resolve i (Some c) None = Inr x \<longleftrightarrow>
     (if c \<in> live_ids i then x = c else {y \<in> live_ids i. startswith y c} = {x})"
proof (cases "c \<in> live_ids i")
  case True
  then show ?thesis by (auto simp: resolve_def live_ids_def)
next
  case False
  then have n: "\<not> (case entry i c of None \<Rightarrow> False | Some m \<Rightarrow> live_meta m)"
    by (auto simp: live_ids_def split: option.splits)
  have "set (prefix_matches i c) = {x} \<longleftrightarrow> prefix_matches i c = [x]"
    by (rule set_singleton_iff [OF set_prefix_matches(2) [OF d]])
  then show ?thesis
    using n False set_prefix_matches(1) [OF d, of c] unfolding resolve_def
    by (auto split: list.splits)
qed

lemma from_dict_to_dict: "from_dict (to_dict i) = Inr i"
proof -
  have "obj_entries (map (\<lambda>(k, m). (k, JObj m)) cs) = Some cs" for cs
    by (induction cs) auto
  then show ?thesis
    by (cases i) (auto simp: from_dict_def to_dict_def dict_get_def dict_of_opt_def split: option.splits)
qed

section \<open>Reconciled indexes\<close>

lemma drop_live_live: "drop_live m = Inr m' \<Longrightarrow> live_meta m' = live_meta m"
  by (auto simp: drop_live_def live_meta_def split: json.splits)

lemma append_child_live: "append_child x m = Inr m' \<Longrightarrow> live_meta m' = live_meta m"
  by (auto simp: append_child_def live_meta_def Let_def split: json.splits if_splits)

lemma update_entry_live:
  assumes "update_entry c f ds = Inr ds'" and "\<And>m m'. f m = Inr m' \<Longrightarrow> live_meta m' = live_meta m"
  shows "map_option live_meta (map_of ds' x) = map_option live_meta (map_of ds x)"
  using assms by (auto simp: update_entry_def bindR_eq_Inr split: option.splits)

lemma move_head_live:
  assumes "move_head i c = Inr j"
  shows "map_option live_meta (entry j x) = map_option live_meta (entry i x)"
proof -
  obtain ds1 ds2 where 1: "update_head_entry (head i) drop_live (checkpoints i) = Inr ds1"
    and 2: "update_entry c (append_child LIVE_CHILD) ds1 = Inr ds2" and j: "checkpoints j = ds2"
    using assms by (auto simp: move_head_def bindR_eq_Inr split: if_splits)
  have "map_option live_meta (map_of ds1 x) = map_option live_meta (entry i x)"
    using 1 update_entry_live [OF _ drop_live_live] by (auto simp: update_head_entry_def split: option.splits)
  with update_entry_live [OF 2 append_child_live] show ?thesis by (simp add: j)
qed

text \<open>An index in step with the checkpoint directory: reconciliation changes nothing.\<close>

definition synced :: "checkpoint_index \<Rightarrow> string list \<Rightarrow> bool" where
  "synced i ids \<longleftrightarrow>
     (\<forall>c. map_option live_meta (entry i c) =
        (if c \<in> set ids then Some True else if c \<in> index_keys i then Some False else None)) \<and>
     (\<forall>h. head i = Some h \<longrightarrow> h \<in> set ids)"

lemma synced_live:
  assumes "synced i ids" and "c \<in> set ids"
  shows "\<exists>m. entry i c = Some m \<and> live_meta m"
proof -
  have "map_option live_meta (entry i c) = Some True" using assms by (simp add: synced_def)
  then show ?thesis by auto
qed

lemma synced_keys: "synced i ids \<Longrightarrow> c \<in> set ids \<Longrightarrow> c \<in> index_keys i"
  using synced_live map_of_dom by metis

lemma synced_resolve: "synced i ids \<Longrightarrow> c \<in> set ids \<Longrightarrow> resolve i (Some c) None = Inr c"
  using synced_live [of i ids c] by (auto simp: resolve_def)

lemma synced_reconcile:
  assumes d: "distinct (dict_keys (checkpoints i))" and s: "synced i ids"
  shows "reconcile i ids = (i, False)"
proof -
  note k = synced_keys [OF s]
  have new: "filter (\<lambda>c. c \<notin> index_keys i) (remdups ids) = []"
    using k by (simp add: filter_empty_conv)
  have same: "map (set_missing ids) (checkpoints i) = checkpoints i"
  proof (rule map_idI)
    fix km assume km: "km \<in> set (checkpoints i)"
    then have "entry i (fst km) = Some (snd km)" using d by (simp add: map_of_eq_Some_iff)
    moreover have "map_option live_meta (entry i (fst km)) =
       (if fst km \<in> set ids then Some True else if fst km \<in> index_keys i then Some False else None)"
      using s by (simp add: synced_def)
    ultimately have "live_meta (snd km) \<longleftrightarrow> fst km \<in> set ids" by (auto split: if_splits)
    then show "set_missing ids km = km" by (auto simp: set_missing_def live_meta_def Let_def)
  qed
  have "(case head i of None \<Rightarrow> None | Some h \<Rightarrow> if h \<in> set ids then Some h else None) = head i"
    using s by (auto simp: synced_def split: option.splits)
  then show ?thesis by (simp add: reconcile_def Let_def new same del: remdups_filter)
qed

lemma reconcile_synced: "synced (fst (reconcile i ids)) ids"
proof -
  have "map_option live_meta (entry (fst (reconcile i ids)) c) =
        (if c \<in> set ids then Some True else if c \<in> index_keys (fst (reconcile i ids)) then Some False else None)" for c
    using reconcile_live [of i ids c] map_of_dom [of "checkpoints (fst (reconcile i ids))" c]
    by (cases "entry (fst (reconcile i ids)) c") auto
  then show ?thesis by (auto simp: synced_def reconcile_head split: option.splits if_splits)
qed

lemma synced_move_head:
  assumes s: "synced i ids" and c: "c \<in> set ids" and wf: "wf_index i" and m: "move_head i c = Inr j"
  shows "synced j ids" and "wf_index j" and "view j = l_move (view i) c" and "head j = Some c"
proof -
  have ck: "c \<in> index_keys i" using m by (auto simp: move_head_def split: if_splits)
  have j: "head j = Some c" "index_keys j = index_keys i" using move_head_result [OF wf ck] m by auto
  then show "synced j ids" "head j = Some c" using s c move_head_live [OF m] by (simp_all add: synced_def)
  show "wf_index j" "view j = l_move (view i) c" using move_head_view [OF wf m] by simp_all
qed

section \<open>Properties\<close>

text \<open>
  C3. Refinement: every sequence of \<open>add\<close>, \<open>move_head\<close>, \<open>remove\<close> and \<open>reconcile\<close> whose guards hold
  in the abstract lineage runs without an exception on a well-formed index, leaves a well-formed
  index (parent and child pointers inverse to each other, no cycle, head indexed), and the index
  it leaves represents exactly the lineage the abstract commands give.
\<close>

theorem index_refines_lineage:
  assumes "wf_index i" and "l_run (view i) ks = Some L"
  shows "\<exists>j. run_cmds index_exec i ks = Inr j \<and> wf_index j \<and> view j = L"
  using assms by (rule idx.run_ok)

theorem index_refines_lineage_witness:
  "\<exists>j. run_cmds index_exec empty_index
       [LAdd (0, ''t'', None, False, JNull) ''a'', LAdd (1, ''t'', None, True, JNull) ''b'', LRemove ''a''] = Inr j \<and>
     wf_index j \<and>
     view j = l_remove (l_add (l_add (view empty_index) ''a'') ''b'') ''a''"
  by (rule index_refines_lineage [OF wf_empty_index])
     (simp add: view_def empty_index_def l_add_def l_remove_def LIVE_CHILD_def)

text \<open>
  C4. Bounds and totality of ancestor resolution: on a well-formed index, asking for the \<open>n\<close>-th
  ancestor answers with an indexed checkpoint only when \<open>n\<close> is at least one and at most the number
  of indexed checkpoints; every larger \<open>n\<close> is refused, so the walk along the parent pointers
  cannot cycle.
\<close>

theorem resolve_ancestor_bounded:
  assumes wf: "wf_index i" and r: "resolve i None (Some n) = Inr x"
  shows "1 \<le> n \<and> n \<le> int (card (index_keys i)) \<and> x \<in> index_keys i"
proof -
  obtain h where n: "1 \<le> n" and h: "head i = Some h" and a: "l_ancestor (view i) (nat (n - 1)) h = Some x"
    using r by (auto simp: resolve_ancestor split: if_splits option.splits)
  have hk: "h \<in> dom (l_parents (view i))" using wf_indexD(5) [OF wf h] by (simp add: view_dom)
  from idx.ancestor_bound [OF wf hk a] idx.ancestor_dom [OF wf hk a] n show ?thesis
    by (simp add: view_dom)
qed

definition two_checkpoints :: checkpoint_index where
  "two_checkpoints = \<lparr>head = Some ''b'', checkpoints =
     [(''a'', new_meta 0 ''t'' None False JNull None [JStr ''b'']),
      (''b'', new_meta 1 ''t'' None False JNull (Some ''a'') [JStr LIVE_CHILD])]\<rparr>"

lemma two_checkpoints_built:
  "run_cmds index_exec empty_index
     [LAdd (0, ''t'', None, False, JNull) ''a'', LAdd (1, ''t'', None, False, JNull) ''b''] = Inr two_checkpoints"
  by (simp add: add_def empty_index_def two_checkpoints_def drop_live_def append_child_def new_meta_def
      dict_get_def LIVE_CHILD_def dict_of_opt_def)

lemma wf_two_checkpoints: "wf_index two_checkpoints"
proof -
  have "l_run (view empty_index)
     [LAdd (0, ''t'', None, False, JNull) ''a'', LAdd (1, ''t'', None, False, JNull) ''b''] =
     Some (l_add (l_add (view empty_index) ''a'') ''b'')"
    by (simp add: view_def empty_index_def l_add_def LIVE_CHILD_def)
  from idx.run_ok [OF wf_empty_index this] two_checkpoints_built show ?thesis by simp
qed

theorem resolve_ancestor_bounded_witness:
  "resolve two_checkpoints None (Some 2) = Inr ''a'' \<and>
   (2::int) \<le> int (card (index_keys two_checkpoints)) \<and> ''a'' \<in> index_keys two_checkpoints"
proof -
  have r: "resolve two_checkpoints None (Some 2) = Inr ''a''"
    by (simp add: resolve_def two_checkpoints_def new_meta_def dict_get_def dict_of_opt_def eval_nat_numeral)
  from resolve_ancestor_bounded [OF wf_two_checkpoints r] r show ?thesis by simp
qed

text \<open>
  Resolution of a checkpoint identifier: a complete identifier whose snapshot is present
  resolves to itself, anything else resolves exactly when it is a prefix of one and only one
  present checkpoint, and otherwise the call is refused.
\<close>

theorem resolve_exact_or_unique_prefix:
  assumes "wf_index i"
  shows "resolve i (Some c) None = Inr x \<longleftrightarrow>
     (if c \<in> live_ids i then x = c else {y \<in> live_ids i. startswith y c} = {x})"
  by (rule resolve_id [OF wf_indexD(1) [OF assms]])

theorem resolve_exact_or_unique_prefix_witness:
  "resolve two_checkpoints (Some ''a'') None = Inr ''a'' \<longleftrightarrow>
     (if ''a'' \<in> live_ids two_checkpoints then ''a'' = ''a''
      else {y \<in> live_ids two_checkpoints. startswith y ''a''} = {''a''})"
  by (rule resolve_exact_or_unique_prefix [OF wf_two_checkpoints])

text \<open>
  C5. Round trip: reading back the document an index is saved as gives the same index.
\<close>

theorem index_file_roundtrip: "from_dict (to_dict i) = Inr i"
  by (rule from_dict_to_dict)

text \<open>
  Reconciliation with the file system: whatever the index held, afterwards exactly the
  checkpoints found on disk are live, every entry and every parent pointer it had is kept, and
  the head survives only if its snapshot does.
\<close>

theorem reconcile_matches_disk:
  "live_ids (fst (reconcile i actual)) = set actual \<and>
   index_keys (fst (reconcile i actual)) = index_keys i \<union> set actual \<and>
   (\<forall>c. parent_of (fst (reconcile i actual)) c = parent_of i c) \<and>
   (\<forall>h. head (fst (reconcile i actual)) = Some h \<longleftrightarrow> head i = Some h \<and> h \<in> set actual)"
  by (auto simp: reconcile_keys_set reconcile_parent reconcile_head live_ids_def reconcile_live
      split: option.splits)

end
