(* ===== verification/Workspace_Store.thy ===== *)
theory Workspace_Store
  imports Checkpoint_Index
begin

text \<open>
  The two-level workspace store of \<^verbatim>\<open>src/src/allox/workspace/store.py\<close>. The state
  is what the store keeps on disk: the session directories with their \<open>current\<close>, checkpoint and
  transaction subvolumes, and the control files outside rollback scope (checkpoint index, rollback
  transaction, recovery receipts, event logs, lock files). Every durable effect goes through the
  fault schedule, so the same definitions describe a run that succeeds, one in which an I/O call
  raises, and one that is cut off by a crash.
\<close>

section \<open>The state on disk\<close>

text \<open>File trees inside a subvolume, by the file types the store tells apart.\<close>

datatype tree =
    RegFile string
  | SockNode
  | FifoNode
  | OtherNode
  | LinkEntry string
  | DirEntry "(string \<times> tree) list"

type_synonym dirlist = "(string \<times> tree) list"

datatype link_target = Dangling | ToDir | ToFile

text \<open>
  An entry of a session directory or of its \<open>checkpoints\<close> directory: a subvolume, a regular
  file, or a symbolic link (whether it stays inside the session, and what it points to).
\<close>

datatype node = Subvol dirlist | PlainFile | Symlink bool link_target

datatype cps_node = CpsAbsent | CpsDir "(string, node) dict" | CpsOdd

record sess =
  entries :: "(string, node) dict"
  cps :: cps_node

text \<open>A control file: a JSON document, unparsable text, or something that is no regular file.\<close>

datatype jfile = JsonFile json | GarbledFile | OddFile

type_synonym skey = "string \<times> string"

datatype outcome = Ok | Fails | FailsLate | Crash

text \<open>
  \<open>agent_ls\<close> and \<open>sess_ls\<close> are directory listings (name, real directory?); \<open>sess_ls a\<close> is None
  where the sessions directory of \<open>a\<close> is missing. \<open>outside\<close> is the part of the Guest file
  system that lies outside the store and that a symbolic link may reach.
\<close>

record store =
  root :: string
  root_fstype :: "string option"
  agent_ls :: "(string \<times> bool) list"
  agent_shared_dir :: "string \<Rightarrow> bool"
  sess_ls :: "string \<Rightarrow> (string \<times> bool) list option"
  sessions :: "skey \<rightharpoonup> sess"
  index_files :: "skey \<rightharpoonup> jfile"
  txn_files :: "skey \<rightharpoonup> jfile"
  receipt_files :: "string \<times> string \<times> string \<rightharpoonup> jfile"
  event_logs :: "string option \<times> string option \<Rightarrow> jdict list"
  lock_files :: "skey set"
  outside :: "string \<rightharpoonup> tree"
  clock :: int
  schedule :: "outcome list"

type_synonym 'a sop = "(store, 'a) op"

definition io_error :: error where
  "io_error = OSError ''I/O error''"

text \<open>
  One durable effect. The schedule says how it ends: it succeeds, it raises before or after the
  change, or the daemon dies before it. An exhausted schedule means success.
\<close>

definition effect :: "error \<Rightarrow> (store \<Rightarrow> store) \<Rightarrow> unit sop" where
  "effect e f = (\<lambda>w. case schedule w of
      [] \<Rightarrow> (Inr (), f w)
    | x # xs \<Rightarrow> let w' = w\<lparr>schedule := xs\<rparr> in
        (case x of Ok \<Rightarrow> (Inr (), f w')
         | Fails \<Rightarrow> (Inl e, w')
         | FailsLate \<Rightarrow> (Inl e, f w')
         | Crash \<Rightarrow> (Inl Crashed, w')))"

definition time_ns :: "int sop" where
  "time_ns = (\<lambda>w. (Inr (clock w), w\<lparr>clock := clock w + 1\<rparr>))"

section \<open>Path predicates\<close>

text \<open>\<open>Path.exists\<close> follows links, \<open>is_symlink\<close> does not, \<open>is_dir\<close> follows.\<close>

fun n_exists :: "node option \<Rightarrow> bool" where
  "n_exists None = False"
| "n_exists (Some (Symlink _ Dangling)) = False"
| "n_exists (Some _) = True"

fun n_symlink :: "node option \<Rightarrow> bool" where
  "n_symlink (Some (Symlink _ _)) = True"
| "n_symlink _ = False"

fun n_dir :: "node option \<Rightarrow> bool" where
  "n_dir (Some (Subvol _)) = True"
| "n_dir (Some (Symlink _ ToDir)) = True"
| "n_dir _ = False"

definition sess_entry :: "store \<Rightarrow> skey \<Rightarrow> string \<Rightarrow> node option" where
  "sess_entry w k n = Option.bind (sessions w k) (\<lambda>sd. map_of (entries sd) n)"

abbreviation current_node :: "store \<Rightarrow> skey \<Rightarrow> node option" where
  "current_node w k \<equiv> sess_entry w k ''current''"

definition cps_entries :: "store \<Rightarrow> skey \<Rightarrow> (string, node) dict" where
  "cps_entries w k = (case sessions w k of None \<Rightarrow> []
     | Some sd \<Rightarrow> (case cps sd of CpsDir d \<Rightarrow> d | _ \<Rightarrow> []))"

abbreviation cp_node :: "store \<Rightarrow> skey \<Rightarrow> string \<Rightarrow> node option" where
  "cp_node w k c \<equiv> map_of (cps_entries w k) c"

section \<open>Paths\<close>

definition agent_dir :: "string \<Rightarrow> string res" where
  "agent_dir a = bindR (validate_id ''agent'' a) (\<lambda>a. Inr (''agents/'' @ a))"

definition agent_workspace :: "string \<Rightarrow> string res" where
  "agent_workspace a = bindR (agent_dir a) (\<lambda>p. Inr (p @ ''/workspace''))"

definition agent_shared :: "string \<Rightarrow> string res" where
  "agent_shared a = bindR (agent_workspace a) (\<lambda>p. Inr (p @ ''/shared''))"

definition sessions_dir :: "string \<Rightarrow> string res" where
  "sessions_dir a = bindR (agent_workspace a) (\<lambda>p. Inr (p @ ''/sessions''))"

definition session_dir :: "string \<Rightarrow> string \<Rightarrow> string res" where
  "session_dir a s = bindR (validate_id ''session'' s) (\<lambda>s.
     bindR (sessions_dir a) (\<lambda>p. Inr (p @ ''/'' @ s)))"

definition current :: "string \<Rightarrow> string \<Rightarrow> string res" where
  "current a s = bindR (session_dir a s) (\<lambda>p. Inr (p @ ''/current''))"

definition checkpoints_path :: "string \<Rightarrow> string \<Rightarrow> string res" where
  "checkpoints_path a s = bindR (session_dir a s) (\<lambda>p. Inr (p @ ''/checkpoints''))"

text \<open>Both identifiers, in the order the control-file paths validate them.\<close>

definition control_key :: "string \<Rightarrow> string \<Rightarrow> skey res" where
  "control_key a s = bindR (validate_id ''agent'' a) (\<lambda>a.
     bindR (validate_id ''session'' s) (\<lambda>s. Inr (a, s)))"

definition recovery_receipt_key :: "string \<Rightarrow> string \<Rightarrow> string \<Rightarrow> (string \<times> string \<times> string) res" where
  "recovery_receipt_key a s r = bindR (control_key a s) (\<lambda>_.
     bindR (validate_id ''recovery'' r) (\<lambda>r. Inr (a, s, r)))"

definition event_key :: "string option \<Rightarrow> string option \<Rightarrow> (string option \<times> string option) res" where
  "event_key a s = (case a of None \<Rightarrow> Inr (None, None)
     | Some a \<Rightarrow> bindR (validate_id ''agent'' a) (\<lambda>a.
         (case s of None \<Rightarrow> Inr (Some a, None)
          | Some s \<Rightarrow> bindR (validate_id ''session'' s) (\<lambda>s. Inr (Some a, Some s)))))"

lemma control_key_Inr [simp]:
  "control_key a s = Inr k \<longleftrightarrow> ID_RE_fullmatch a \<and> ID_RE_fullmatch s \<and> k = (a, s)"
  by (auto simp: control_key_def bindR_eq_Inr)

lemma session_dir_Inr [simp]:
  "session_dir a s = Inr p \<longleftrightarrow> ID_RE_fullmatch a \<and> ID_RE_fullmatch s \<and>
     p = ''agents/'' @ a @ ''/workspace/sessions/'' @ s"
  by (auto simp: session_dir_def sessions_dir_def agent_workspace_def agent_dir_def bindR_eq_Inr)

section \<open>Error values\<close>

definition abs_path :: "store \<Rightarrow> string \<Rightarrow> string" where
  "abs_path w p = root w @ ''/'' @ p"

definition not_managed :: "string \<Rightarrow> string \<Rightarrow> error" where
  "not_managed label p = WorkspaceError (label @ '' is not a managed directory: '' @ p)"

definition session_missing :: "string \<Rightarrow> string \<Rightarrow> error" where
  "session_missing a s = WorkspaceError (''session does not exist: '' @ a @ ''/'' @ s)"

definition session_exists :: "string \<Rightarrow> string \<Rightarrow> error" where
  "session_exists a s = WorkspaceError (''session already exists: '' @ a @ ''/'' @ s)"

definition checkpoint_exists :: "string \<Rightarrow> error" where
  "checkpoint_exists c = WorkspaceError (''checkpoint already exists: '' @ c)"

definition checkpoint_missing :: "string \<Rightarrow> error" where
  "checkpoint_missing c = WorkspaceError (''checkpoint does not exist: '' @ c)"

definition checkpoint_pinned :: "string \<Rightarrow> error" where
  "checkpoint_pinned c = WorkspaceError (''checkpoint is pinned; use force to delete: '' @ c)"

definition unfinished_rollback :: "string \<Rightarrow> string \<Rightarrow> error" where
  "unfinished_rollback a s =
     WorkspaceError (''session has an unfinished rollback transaction: '' @ a @ ''/'' @ s)"

definition index_error :: "error \<Rightarrow> error" where
  "index_error e = WorkspaceError (''invalid checkpoint index: '' @ exc_text e)"

definition as_workspace :: "error \<Rightarrow> error" where
  "as_workspace e = WorkspaceError (exc_text e)"

definition receipt_mismatch :: error where
  "receipt_mismatch = WorkspaceError ''deferred rollback receipt does not match the request''"

definition unsafe_name :: error where
  "unsafe_name = WorkspaceError ''rollback transaction contains an unsafe path''"

definition path_escapes :: error where
  "path_escapes = WorkspaceError ''rollback transaction path escapes the session''"

definition path_unconfined :: error where
  "path_unconfined = WorkspaceError ''rollback transaction path is not confined to the session''"

section \<open>Effects on the state\<close>

definition upd_sess :: "skey \<Rightarrow> (sess \<Rightarrow> sess) \<Rightarrow> store \<Rightarrow> store" where
  "upd_sess k f w = w\<lparr>sessions := (sessions w)(k := map_option f (sessions w k))\<rparr>"

definition set_entry :: "skey \<Rightarrow> string \<Rightarrow> node \<Rightarrow> store \<Rightarrow> store" where
  "set_entry k n x = upd_sess k (\<lambda>sd. sd\<lparr>entries := dict_set n x (entries sd)\<rparr>)"

definition del_entry :: "skey \<Rightarrow> string \<Rightarrow> store \<Rightarrow> store" where
  "del_entry k n = upd_sess k (\<lambda>sd. sd\<lparr>entries := dict_del n (entries sd)\<rparr>)"

definition set_cp :: "skey \<Rightarrow> string \<Rightarrow> node \<Rightarrow> store \<Rightarrow> store" where
  "set_cp k c x = upd_sess k (\<lambda>sd. case cps sd of CpsDir d \<Rightarrow> sd\<lparr>cps := CpsDir (dict_set c x d)\<rparr> | _ \<Rightarrow> sd)"

definition del_cp :: "skey \<Rightarrow> string \<Rightarrow> store \<Rightarrow> store" where
  "del_cp k c = upd_sess k (\<lambda>sd. case cps sd of CpsDir d \<Rightarrow> sd\<lparr>cps := CpsDir (dict_del c d)\<rparr> | _ \<Rightarrow> sd)"

text \<open>
  \<open>os.rename\<close> inside a session directory: the source must exist; an occupied target is refused
  (the targets of the store are subvolumes with content).
\<close>

definition rename_entry :: "skey \<Rightarrow> string \<Rightarrow> string \<Rightarrow> unit sop" where
  "rename_entry k a b = bind (gets (\<lambda>w. (sess_entry w k a, sess_entry w k b))) (\<lambda>(x, y).
     (case (x, y) of
        (Some v, None) \<Rightarrow> effect io_error (\<lambda>w. set_entry k b v (del_entry k a w))
      | _ \<Rightarrow> raise io_error))"

section \<open>The Btrfs backend\<close>

definition run_btrfs :: "(store \<Rightarrow> store) \<Rightarrow> unit sop" where
  "run_btrfs f = effect CalledProcessError f"

definition assert_root :: "unit sop" where
  "assert_root = bind (gets (\<lambda>w. (root w, root_fstype w))) (\<lambda>(r, t). (case t of
      None \<Rightarrow> raise (WorkspaceError (''workspace root does not exist: '' @ r))
    | Some ty \<Rightarrow> require (ty = ''btrfs'') (WorkspaceError (''workspace root must be Btrfs, got: '' @ ty))))"

text \<open>\<open>btrfs subvolume create <session>/current\<close>\<close>

definition create_subvolume :: "skey \<Rightarrow> string \<Rightarrow> unit sop" where
  "create_subvolume k n = bind (gets (\<lambda>w. sess_entry w k n)) (\<lambda>x. (case x of
      None \<Rightarrow> run_btrfs (set_entry k n (Subvol []))
    | Some _ \<Rightarrow> raise CalledProcessError))"

text \<open>
  The two snapshots the store takes: of \<open>current\<close> into a checkpoint, and of a checkpoint into a
  restore subvolume. Btrfs refuses a source that is no subvolume and an occupied target.
\<close>

definition snapshot_checkpoint :: "skey \<Rightarrow> string \<Rightarrow> unit sop" where
  "snapshot_checkpoint k c =
     bind (gets (\<lambda>w. (current_node w k, cp_node w k c, map_option cps (sessions w k)))) (\<lambda>(src, dst, d).
     (case (src, dst, d) of
        (Some (Subvol t), None, Some (CpsDir _)) \<Rightarrow> run_btrfs (set_cp k c (Subvol t))
      | _ \<Rightarrow> raise CalledProcessError))"

definition snapshot_restore :: "skey \<Rightarrow> string \<Rightarrow> string \<Rightarrow> unit sop" where
  "snapshot_restore k c n =
     bind (gets (\<lambda>w. (cp_node w k c, sess_entry w k n))) (\<lambda>(src, dst).
     (case (src, dst) of
        (Some (Subvol t), None) \<Rightarrow> run_btrfs (set_entry k n (Subvol t))
      | _ \<Rightarrow> raise CalledProcessError))"

definition delete_subvolume :: "skey \<Rightarrow> string \<Rightarrow> unit sop" where
  "delete_subvolume k n = bind (gets (\<lambda>w. sess_entry w k n)) (\<lambda>x. (case x of
      Some (Subvol _) \<Rightarrow> run_btrfs (del_entry k n)
    | _ \<Rightarrow> raise CalledProcessError))"

definition delete_cp_subvolume :: "skey \<Rightarrow> string \<Rightarrow> unit sop" where
  "delete_cp_subvolume k c = bind (gets (\<lambda>w. cp_node w k c)) (\<lambda>x. (case x of
      Some (Subvol _) \<Rightarrow> run_btrfs (del_cp k c)
    | _ \<Rightarrow> raise CalledProcessError))"

section \<open>Control files\<close>

definition actual_checkpoint_ids :: "string \<Rightarrow> string \<Rightarrow> string list sop" where
  "actual_checkpoint_ids a s =
     bind (lift_res (checkpoints_path a s)) (\<lambda>p.
     bind (gets (\<lambda>w. (abs_path w p, map_option cps (sessions w (a, s))))) (\<lambda>(ap, c).
     (case c of
        Some (CpsDir d) \<Rightarrow>
          ret (map fst (filter (\<lambda>(n, x). n_dir (Some x) \<and> \<not> n_symlink (Some x)) d))
      | Some CpsOdd \<Rightarrow> raise (not_managed ''checkpoint directory'' ap)
      | _ \<Rightarrow> ret [])))"

definition require_managed_directory :: "node option \<Rightarrow> string \<Rightarrow> string \<Rightarrow> unit sop" where
  "require_managed_directory n p label =
     bind (gets (\<lambda>w. abs_path w p)) (\<lambda>ap.
     require (\<not> (n_symlink n \<or> \<not> n_dir n)) (not_managed label ap))"

definition write_index_file :: "skey \<Rightarrow> checkpoint_index \<Rightarrow> store \<Rightarrow> store" where
  "write_index_file k i w = w\<lparr>index_files := (index_files w)(k \<mapsto> JsonFile (JObj (to_dict i)))\<rparr>"

definition save_index :: "string \<Rightarrow> string \<Rightarrow> checkpoint_index \<Rightarrow> unit sop" where
  "save_index a s i = bind (lift_res (control_key a s)) (\<lambda>k. effect io_error (write_index_file k i))"

definition parse_index :: "jfile option \<Rightarrow> checkpoint_index res" where
  "parse_index f = (case f of
      None \<Rightarrow> Inr empty_index
    | Some (JsonFile (JObj d)) \<Rightarrow> from_dict d
    | Some (JsonFile _) \<Rightarrow> Inl (CheckpointIndexError ''checkpoint index root must be an object'')
    | Some GarbledFile \<Rightarrow> Inl (ValueError ''Expecting value'')
    | Some OddFile \<Rightarrow> Inl io_error)"

definition load_index :: "string \<Rightarrow> string \<Rightarrow> checkpoint_index sop" where
  "load_index a s =
     bind (lift_res (control_key a s)) (\<lambda>k.
     bind (gets (\<lambda>w. index_files w k)) (\<lambda>f.
     (case parse_index f of
        Inl e \<Rightarrow> raise (index_error e)
      | Inr i0 \<Rightarrow>
          bind (actual_checkpoint_ids a s) (\<lambda>actual.
          let (i, changed) = reconcile i0 actual in
          andthen (whenM (changed \<or> f = None) (save_index a s i)) (ret i)))))"

definition write_txn_file :: "skey \<Rightarrow> jdict \<Rightarrow> store \<Rightarrow> store" where
  "write_txn_file k t w = w\<lparr>txn_files := (txn_files w)(k \<mapsto> JsonFile (JObj t))\<rparr>"

definition write_transaction :: "string \<Rightarrow> string \<Rightarrow> jdict \<Rightarrow> unit sop" where
  "write_transaction a s t = bind (lift_res (control_key a s)) (\<lambda>k. effect io_error (write_txn_file k t))"

definition clear_txn_file :: "skey \<Rightarrow> store \<Rightarrow> store" where
  "clear_txn_file k w = w\<lparr>txn_files := (txn_files w)(k := None)\<rparr>"

definition clear_transaction :: "string \<Rightarrow> string \<Rightarrow> unit sop" where
  "clear_transaction a s = bind (lift_res (control_key a s)) (\<lambda>k. effect io_error (clear_txn_file k))"

definition load_transaction :: "string \<Rightarrow> string \<Rightarrow> jdict option sop" where
  "load_transaction a s =
     bind (lift_res (control_key a s)) (\<lambda>k.
     bind (gets (\<lambda>w. txn_files w k)) (\<lambda>f. (case f of
        None \<Rightarrow> ret None
      | Some OddFile \<Rightarrow> raise (WorkspaceError ''rollback transaction is not a managed file'')
      | Some GarbledFile \<Rightarrow> raise (WorkspaceError ''invalid rollback transaction: Expecting value'')
      | Some (JsonFile (JObj t)) \<Rightarrow> ret (Some t)
      | Some (JsonFile _) \<Rightarrow> raise (WorkspaceError ''rollback transaction root must be an object''))))"

definition write_receipt_file :: "string \<times> string \<times> string \<Rightarrow> jdict \<Rightarrow> store \<Rightarrow> store" where
  "write_receipt_file rk r w = w\<lparr>receipt_files := (receipt_files w)(rk \<mapsto> JsonFile (JObj r))\<rparr>"

definition write_recovery_receipt :: "string \<Rightarrow> string \<Rightarrow> string \<Rightarrow> jdict \<Rightarrow> unit sop" where
  "write_recovery_receipt a s r rec =
     bind (lift_res (recovery_receipt_key a s r)) (\<lambda>rk. effect io_error (write_receipt_file rk rec))"

text \<open>
  \<open>Path(value).name != value\<close> for a value that starts with the prefix \<open>.restore-\<close> or
  \<open>.discard-\<close> holds exactly when it contains a separator.
\<close>

definition safe_transaction_name :: "json \<Rightarrow> string \<Rightarrow> string res" where
  "safe_transaction_name v p = (case v of
      JStr n \<Rightarrow> if CHR ''/'' \<in> set n \<or> \<not> startswith n p then Inl unsafe_name else Inr n
    | _ \<Rightarrow> Inl unsafe_name)"

definition load_recovery_receipt :: "string \<Rightarrow> string \<Rightarrow> string \<Rightarrow> jdict option sop" where
  "load_recovery_receipt a s r =
     bind (lift_res (recovery_receipt_key a s r)) (\<lambda>rk.
     bind (gets (\<lambda>w. receipt_files w rk)) (\<lambda>f. (case f of
        None \<Rightarrow> ret None
      | Some OddFile \<Rightarrow> raise (WorkspaceError ''deferred rollback receipt is not a managed file'')
      | Some GarbledFile \<Rightarrow> raise (WorkspaceError ''invalid deferred rollback receipt: Expecting value'')
      | Some (JsonFile (JObj d)) \<Rightarrow>
          andthen (require (py_eq_int (jget d ''version'') 1 \<and> jget d ''agent_id'' = JStr a \<and>
              jget d ''session_id'' = JStr s \<and> jget d ''recovery_id'' = JStr r) receipt_mismatch)
          (bind (lift_res (in_str_set (jget d ''status'') [''cleanup_started'', ''completed''])) (\<lambda>ok.
          andthen (require ok receipt_mismatch)
          (case jget d ''checkpoint_id'' of
             JStr c \<Rightarrow>
               andthen (lift_res (validate_id ''checkpoint'' c))
               (andthen (lift_res (safe_transaction_name (jget d ''discard_name'') ''.discard-''))
               (ret (Some d)))
           | _ \<Rightarrow> raise (WorkspaceError ''deferred rollback receipt checkpoint_id must be a string''))))
      | Some (JsonFile _) \<Rightarrow> raise (WorkspaceError ''deferred rollback receipt root must be an object''))))"

definition transaction_subvolume_path :: "string \<Rightarrow> string \<Rightarrow> json \<Rightarrow> string \<Rightarrow> string sop" where
  "transaction_subvolume_path a s v p =
     bind (lift_res (safe_transaction_name v p)) (\<lambda>n.
     bind (gets (\<lambda>w. (sessions w (a, s), sess_entry w (a, s) n))) (\<lambda>(sd, x).
     if sd = None \<or> CHR 0x00 \<in> set n then raise path_escapes
     else (case x of
         Some (Symlink inside _) \<Rightarrow> raise (if inside then path_unconfined else path_escapes)
       | _ \<Rightarrow> ret n)))"

definition append_event :: "jdict \<Rightarrow> string option \<Rightarrow> string option \<Rightarrow> unit sop" where
  "append_event ev a s =
     bind (lift_res (event_key a s)) (\<lambda>k.
     bind time_ns (\<lambda>now.
     let r1 = dict_set ''timestamp_ns'' (JInt now) ev;
         r2 = (case a of None \<Rightarrow> r1 | Some x \<Rightarrow> dict_set ''agent_id'' (JStr x) r1);
         r3 = (case s of None \<Rightarrow> r2 | Some x \<Rightarrow> dict_set ''session_id'' (JStr x) r2)
     in effect io_error (\<lambda>w. w\<lparr>event_logs := (event_logs w)(k := event_logs w k @ [r3])\<rparr>)))"

text \<open>
  \<open>_session_lock\<close>: the operation runs while the in-process and the file lock are held; what
  remains visible is the lock file.
\<close>

definition session_lock :: "string \<Rightarrow> string \<Rightarrow> 'a sop \<Rightarrow> 'a sop" where
  "session_lock a s body =
     bind (lift_res (control_key a s)) (\<lambda>k.
     andthen (effect io_error (\<lambda>w. w\<lparr>lock_files := insert k (lock_files w)\<rparr>)) body)"

end
