(* ===== verification/Workspace_Operations.thy ===== *)
theory Workspace_Operations
  imports Workspace_Store
begin

text \<open>
  The public operations of \<^verbatim>\<open>WorkspaceStore\<close>: creating agents, sessions and
  checkpoints, describing and deleting them, rolling a session back (directly, or with deferred
  cleanup and a recovery receipt) and recovering interrupted rollbacks at start-up. Tokens drawn
  from \<open>uuid4\<close> are arguments.
\<close>

section \<open>Runtime entries\<close>

fun is_runtime :: "tree \<Rightarrow> bool" where
  "is_runtime SockNode = True"
| "is_runtime FifoNode = True"
| "is_runtime _ = False"

text \<open>
  \<open>os.walk\<close> over a directory: first the entries of the directory itself, then its real
  subdirectories. The result is the list of paths of sockets and FIFOs in that order.
\<close>

definition level_paths :: "string list \<Rightarrow> dirlist \<Rightarrow> string list list" where
  "level_paths pre d = map (\<lambda>(n, x). pre @ [n]) (filter (\<lambda>(n, x). is_runtime x) d)"

fun walk_tree :: "string list \<Rightarrow> tree \<Rightarrow> string list list"
and walk_list :: "string list \<Rightarrow> dirlist \<Rightarrow> string list list" where
  "walk_tree pre (DirEntry d) = level_paths pre d @ walk_list pre d"
| "walk_tree pre _ = []"
| "walk_list pre [] = []"
| "walk_list pre ((n, x) # d) = walk_tree (pre @ [n]) x @ walk_list pre d"

fun unlink_at :: "string list \<Rightarrow> tree \<Rightarrow> tree" where
  "unlink_at [n] (DirEntry d) = DirEntry (dict_del n d)"
| "unlink_at (n # ns) (DirEntry d) =
     (case map_of d n of None \<Rightarrow> DirEntry d | Some x \<Rightarrow> DirEntry (dict_set n (unlink_at ns x) d))"
| "unlink_at _ t = t"

fun join_path :: "string list \<Rightarrow> string" where
  "join_path [] = []"
| "join_path [n] = n"
| "join_path (n # ns) = n @ ''/'' @ join_path ns"

definition TMP_NAME :: string where
  "TMP_NAME = ''.allox-tmp''"

definition unlink_current :: "skey \<Rightarrow> string list \<Rightarrow> store \<Rightarrow> store" where
  "unlink_current k p w = (case current_node w k of
      Some (Subvol t) \<Rightarrow> (case map_of t TMP_NAME of
          Some x \<Rightarrow> set_entry k ''current'' (Subvol (dict_set TMP_NAME (unlink_at p x) t)) w
        | None \<Rightarrow> w)
    | _ \<Rightarrow> w)"

definition unlink_outside :: "string \<Rightarrow> string list \<Rightarrow> store \<Rightarrow> store" where
  "unlink_outside tgt p w = w\<lparr>outside := (outside w)(tgt := map_option (unlink_at p) (outside w tgt))\<rparr>"

text \<open>
  \<open>_scrub_runtime_entries(current / ".allox-tmp")\<close>. Both \<open>exists\<close> and \<open>os.walk\<close> follow
  the top path, so a \<open>.allox-tmp\<close> that is a symbolic link is walked where it points.
\<close>

definition scrub_runtime_entries :: "skey \<Rightarrow> string list sop" where
  "scrub_runtime_entries k =
     bind (gets (\<lambda>w. (case current_node w k of Some (Subvol t) \<Rightarrow> map_of t TMP_NAME | _ \<Rightarrow> None))) (\<lambda>tmp.
     (case tmp of
        Some (DirEntry d) \<Rightarrow>
          let ps = walk_tree [] (DirEntry d) in
          andthen (forM ps (\<lambda>p. effect io_error (unlink_current k p))) (ret (map join_path ps))
      | Some (LinkEntry tgt) \<Rightarrow>
          bind (gets (\<lambda>w. outside w tgt)) (\<lambda>ext. (case ext of
             Some t \<Rightarrow> let ps = walk_tree [] t in
               andthen (forM ps (\<lambda>p. effect io_error (unlink_outside tgt p))) (ret (map join_path ps))
           | None \<Rightarrow> ret []))
      | _ \<Rightarrow> ret []))"

section \<open>Agents and sessions\<close>

definition mkdir_shared :: "string \<Rightarrow> unit sop" where
  "mkdir_shared a = bind (gets (\<lambda>w. map_of (agent_ls w) a)) (\<lambda>x.
     if x = Some False then raise io_error
     else effect io_error (\<lambda>w. w\<lparr>agent_ls := (if x = None then agent_ls w @ [(a, True)] else agent_ls w),
                                agent_shared_dir := (agent_shared_dir w)(a := True)\<rparr>))"

definition mkdir_sessions :: "string \<Rightarrow> unit sop" where
  "mkdir_sessions a = effect io_error (\<lambda>w. w\<lparr>sess_ls := (sess_ls w)(a :=
     (case sess_ls w a of None \<Rightarrow> Some [] | Some l \<Rightarrow> Some l))\<rparr>)"

definition create_agent :: "string \<Rightarrow> string \<Rightarrow> json sop" where
  "create_agent a origin =
     bind (lift_res (agent_workspace a)) (\<lambda>ws.
     bind (lift_res (agent_shared a)) (\<lambda>sh.
     andthen (mkdir_shared a)
     (andthen (mkdir_sessions a)
     (andthen (append_event [(''op'', JStr ''agent.create''), (''origin'', JStr origin)] (Some a) None)
     (ret (JObj [(''agent_id'', JStr a), (''workspace_level'', JStr ''agent''),
                 (''relative_workspace'', JStr ws), (''relative_shared'', JStr sh)]))))))"

definition mkdir_checkpoints :: "skey \<Rightarrow> unit sop" where
  "mkdir_checkpoints k = bind (gets (\<lambda>w. (Option.bind (sess_ls w (fst k)) (\<lambda>l. map_of l (snd k)), sessions w k))) (\<lambda>(x, sd).
     if x = Some False \<or> map_option cps sd = Some CpsOdd then raise io_error
     else effect io_error (\<lambda>w. w\<lparr>
        sess_ls := (sess_ls w)(fst k := (case sess_ls w (fst k) of
             None \<Rightarrow> Some [(snd k, True)]
           | Some l \<Rightarrow> Some (if x = None then l @ [(snd k, True)] else l))),
        sessions := (sessions w)(k := Some (case sessions w k of
             None \<Rightarrow> \<lparr>entries = [], cps = CpsDir []\<rparr>
           | Some sd' \<Rightarrow> (if cps sd' = CpsAbsent then sd'\<lparr>cps := CpsDir []\<rparr> else sd')))\<rparr>))"

definition mkdir_tmp :: "skey \<Rightarrow> unit sop" where
  "mkdir_tmp k = bind (gets (\<lambda>w. current_node w k)) (\<lambda>x. (case x of
      Some (Subvol t) \<Rightarrow> if TMP_NAME \<in> fst ` set t then raise io_error
        else effect io_error (set_entry k ''current'' (Subvol (dict_set TMP_NAME (DirEntry []) t)))
    | _ \<Rightarrow> raise io_error))"

definition list_checkpoints :: "string \<Rightarrow> string \<Rightarrow> string list sop" where
  "list_checkpoints a s = bind (actual_checkpoint_ids a s) (\<lambda>ids. ret (sort ids))"

definition describe :: "string \<Rightarrow> string \<Rightarrow> json sop" where
  "describe a s =
     bind (lift_res (current a s)) (\<lambda>cp.
     bind (gets (\<lambda>w. current_node w (a, s))) (\<lambda>cur.
     andthen (require (n_exists cur) (session_missing a s))
     (andthen (require_managed_directory cur cp ''session workspace'')
     (bind (lift_res (agent_workspace a)) (\<lambda>aw.
      bind (lift_res (agent_shared a)) (\<lambda>sh.
      bind (lift_res (session_dir a s)) (\<lambda>sd.
      bind (list_checkpoints a s) (\<lambda>ids.
      bind (load_index a s) (\<lambda>i.
      ret (JObj [(''agent_id'', JStr a), (''session_id'', JStr s), (''workspace_level'', JStr ''session''),
                 (''relative_agent_workspace'', JStr aw), (''relative_agent_shared'', JStr sh),
                 (''relative_session_workspace'', JStr sd), (''relative_workspace'', JStr cp),
                 (''checkpoint_ids'', JList (map JStr ids)),
                 (''checkpoint_head'', dict_of_opt (head i))])))))))))) "

definition create_session :: "string \<Rightarrow> string \<Rightarrow> string \<Rightarrow> json sop" where
  "create_session a s origin =
     andthen (create_agent a origin)
     (andthen (session_lock a s
        (bind (lift_res (session_dir a s)) (\<lambda>_.
         bind (gets (\<lambda>w. current_node w (a, s))) (\<lambda>cur.
         andthen (require (\<not> (n_exists cur \<or> n_symlink cur)) (session_exists a s))
         (andthen (mkdir_checkpoints (a, s))
         (andthen (create_subvolume (a, s) ''current'')
         (andthen (mkdir_tmp (a, s))
         (andthen (save_index a s empty_index)
         (append_event [(''op'', JStr ''session.create''), (''origin'', JStr origin)] (Some a) (Some s)))))))))) 
     (describe a s))"

section \<open>Checkpoints\<close>

definition default_checkpoint_id :: "string option \<Rightarrow> string sop" where
  "default_checkpoint_id c = (case c of
      Some (x # xs) \<Rightarrow> ret (x # xs)
    | _ \<Rightarrow> bind time_ns (\<lambda>t. ret (''cp-'' @ int_str t)))"

definition create_checkpoint ::
  "string \<Rightarrow> string \<Rightarrow> string option \<Rightarrow> string \<Rightarrow> string option \<Rightarrow> bool \<Rightarrow> json \<Rightarrow> json sop" where
  "create_checkpoint a s c0 origin msg pin md =
     bind (default_checkpoint_id c0) (\<lambda>c1.
     bind (lift_res (validate_id ''checkpoint'' c1)) (\<lambda>c.
     bind (session_lock a s
       (bind (lift_res (current a s)) (\<lambda>cp.
        bind (gets (\<lambda>w. current_node w (a, s))) (\<lambda>cur.
        andthen (require (n_exists cur) (session_missing a s))
        (andthen (require_managed_directory cur cp ''session workspace'')
        (bind (gets (\<lambda>w. cp_node w (a, s) c)) (\<lambda>tgt.
        andthen (require (\<not> n_exists tgt) (checkpoint_exists c))
        (bind (load_index a s) (\<lambda>i.
         bind time_ns (\<lambda>now.
         (case add i c now origin msg pin md of
            Inl (CheckpointIndexError m) \<Rightarrow> raise (WorkspaceError m)
          | Inl e \<Rightarrow> raise e
          | Inr i' \<Rightarrow>
              andthen (snapshot_checkpoint (a, s) c)
              (andthen (save_index a s i')
              (andthen (append_event [(''op'', JStr ''checkpoint.create''), (''checkpoint_id'', JStr c),
                  (''origin'', JStr origin), (''message'', dict_of_opt msg), (''pinned'', JBool pin),
                  (''metadata'', md)] (Some a) (Some s))
              (ret i')))))))))))))) (\<lambda>i'.
     ret (JObj [(''agent_id'', JStr a), (''session_id'', JStr s), (''checkpoint_id'', JStr c),
                (''parent_id'', jget (dict_get (checkpoints i') c []) ''parent_id''),
                (''metadata'', md)]))))"

definition checkpoint_status :: "string \<Rightarrow> string \<Rightarrow> json sop" where
  "checkpoint_status a s =
     bind (load_index a s) (\<lambda>i.
     bind (list_checkpoints a s) (\<lambda>ids.
     bind (lift_res (records i)) (\<lambda>rs.
     ret (JObj [(''agent_id'', JStr a), (''session_id'', JStr s), (''head'', dict_of_opt (head i)),
                (''checkpoint_ids'', JList (map JStr ids)), (''checkpoints'', JList (map JObj rs))]))))"

text \<open>\<open>except CheckpointIndexError as exc: raise WorkspaceError(str(exc))\<close>\<close>

definition wrap_index_error :: "'a res \<Rightarrow> 'a sop" where
  "wrap_index_error r = (case r of
      Inl (CheckpointIndexError m) \<Rightarrow> raise (WorkspaceError m)
    | Inl e \<Rightarrow> raise e
    | Inr x \<Rightarrow> ret x)"

definition delete_checkpoint :: "string \<Rightarrow> string \<Rightarrow> string \<Rightarrow> string \<Rightarrow> bool \<Rightarrow> json sop" where
  "delete_checkpoint a s c0 origin force =
     bind (lift_res (validate_id ''checkpoint'' c0)) (\<lambda>c1.
     bind (session_lock a s
       (bind (load_index a s) (\<lambda>i.
        bind (wrap_index_error (resolve i (Some c1) None)) (\<lambda>c.
        andthen (require (\<not> (truthy (dict_get (dict_get (checkpoints i) c []) ''pinned'' (JBool False)) \<and> \<not> force))
          (checkpoint_pinned c))
        (bind (lift_res (checkpoints_path a s)) (\<lambda>cpp.
         bind (gets (\<lambda>w. cp_node w (a, s) c)) (\<lambda>tgt.
         andthen (require (n_exists tgt) (checkpoint_missing c))
         (andthen (require_managed_directory tgt (cpp @ ''/'' @ c) ''checkpoint'')
         (andthen (delete_cp_subvolume (a, s) c)
         (bind (lift_res (remove i c)) (\<lambda>i'.
          andthen (save_index a s i')
          (andthen (append_event [(''op'', JStr ''checkpoint.delete''), (''checkpoint_id'', JStr c),
              (''origin'', JStr origin)] (Some a) (Some s))
          (ret c))))))))))))) (\<lambda>c.
     ret (JObj [(''agent_id'', JStr a), (''session_id'', JStr s), (''checkpoint_id'', JStr c),
                (''deleted'', JBool True)])))"

section \<open>Rollback\<close>

definition rollback_guard :: "string option \<Rightarrow> int option \<Rightarrow> string option \<Rightarrow> bool \<Rightarrow> unit res" where
  "rollback_guard c0 anc rid defer =
     bindR (case c0 of None \<Rightarrow> Inr () | Some c \<Rightarrow> bindR (validate_id ''checkpoint'' c) (\<lambda>_. Inr ())) (\<lambda>_.
     bindR (case rid of None \<Rightarrow> Inr () | Some r \<Rightarrow> bindR (validate_id ''recovery'' r) (\<lambda>_. Inr ())) (\<lambda>_.
     if defer then
       (if rid = None then Inl (WorkspaceError ''recovery_id is required when rollback cleanup is deferred'')
        else if c0 = None \<or> anc \<noteq> None
          then Inl (WorkspaceError ''deferred rollback requires an exact checkpoint_id'')
        else Inr ())
     else if rid \<noteq> None then Inl (WorkspaceError ''recovery_id requires defer_cleanup=True'')
     else Inr ()))"

definition rollback_txn ::
  "bool \<Rightarrow> string \<Rightarrow> string \<Rightarrow> bool \<Rightarrow> string \<Rightarrow> string option \<Rightarrow> jdict" where
  "rollback_txn defer c token scrub origin rid =
     [(''version'', JInt (if defer then 2 else 1)), (''phase'', JStr ''preparing''),
      (''checkpoint_id'', JStr c), (''restore_name'', JStr (''.restore-'' @ token)),
      (''discard_name'', JStr (''.discard-'' @ token)), (''scrub_runtime'', JBool scrub),
      (''origin'', JStr origin)] @
     (if defer then [(''defer_cleanup'', JBool True), (''recovery_id'', dict_of_opt rid)] else [])"

abbreviation set_phase :: "string \<Rightarrow> jdict \<Rightarrow> jdict" where
  "set_phase p t \<equiv> dict_set ''phase'' (JStr p) t"

text \<open>The handlers \<open>except Exception\<close> around the snapshot and around the second rename.\<close>

definition delete_if_exists :: "skey \<Rightarrow> string \<Rightarrow> unit sop" where
  "delete_if_exists k n = bind (gets (\<lambda>w. sess_entry w k n)) (\<lambda>x. whenM (n_exists x) (delete_subvolume k n))"

definition rollback_swap :: "string \<Rightarrow> string \<Rightarrow> string \<Rightarrow> string \<Rightarrow> jdict \<Rightarrow> unit sop" where
  "rollback_swap a s c token t =
     (let r = ''.restore-'' @ token; d = ''.discard-'' @ token; k = (a, s) in
      andthen (write_transaction a s t)
      (andthen (catch (\<lambda>_. True) (snapshot_restore k c r)
          (\<lambda>e. andthen (delete_if_exists k r) (andthen (clear_transaction a s) (raise e))))
      (andthen (write_transaction a s (set_phase ''prepared'' t))
      (andthen (rename_entry k ''current'' d)
      (andthen (write_transaction a s (set_phase ''old_moved'' t))
      (catch (\<lambda>_. True) (rename_entry k r ''current'')
          (\<lambda>e. andthen (rename_entry k d ''current'')
               (andthen (delete_if_exists k r) (andthen (clear_transaction a s) (raise e)))))))))) "

definition rollback_finish ::
  "string \<Rightarrow> string \<Rightarrow> string \<Rightarrow> string \<Rightarrow> jdict \<Rightarrow> bool \<Rightarrow> bool \<Rightarrow> checkpoint_index \<Rightarrow> string list sop" where
  "rollback_finish a s c token t scrub defer i =
     (let k = (a, s); scrub_op = (if scrub then scrub_runtime_entries k else ret []) in
      if defer then
        bind scrub_op (\<lambda>removed.
        bind (lift_res (move_head i c)) (\<lambda>i'.
        andthen (save_index a s i')
        (bind time_ns (\<lambda>now.
         andthen (write_transaction a s
           (dict_set ''committed_at_ns'' (JInt now)
             (dict_set ''removed_runtime_entries'' (JList (map JStr removed)) (set_phase ''committed'' t))))
         (ret removed)))))
      else
        andthen (write_transaction a s (set_phase ''committed'' t))
        (bind scrub_op (\<lambda>removed.
         andthen (delete_subvolume k (''.discard-'' @ token))
         (bind (lift_res (move_head i c)) (\<lambda>i'.
          andthen (save_index a s i')
          (andthen (clear_transaction a s) (ret removed))))))) "

definition rollback ::
  "string \<Rightarrow> string \<Rightarrow> string option \<Rightarrow> int option \<Rightarrow> bool \<Rightarrow> string \<Rightarrow> string option \<Rightarrow> bool \<Rightarrow> string
     \<Rightarrow> json sop" where
  "rollback a s c0 anc scrub origin rid defer token =
     andthen (lift_res (rollback_guard c0 anc rid defer))
     (bind (session_lock a s
       (bind (load_transaction a s) (\<lambda>pending.
        andthen (require (pending = None) (unfinished_rollback a s))
        (bind (case rid of None \<Rightarrow> ret None | Some r \<Rightarrow> load_recovery_receipt a s r) (\<lambda>used.
        andthen (require (used = None)
          (WorkspaceError (''recovery_id was already used: '' @ (case rid of Some r \<Rightarrow> r | None \<Rightarrow> []))))
        (bind (load_index a s) (\<lambda>i.
         bind (wrap_index_error (resolve i c0 anc)) (\<lambda>c.
         andthen (require (\<not> (defer \<and> Some c \<noteq> c0))
           (WorkspaceError ''deferred rollback requires the complete checkpoint_id, not a prefix''))
         (bind (lift_res (checkpoints_path a s)) (\<lambda>cpp.
          bind (lift_res (current a s)) (\<lambda>cp.
          bind (gets (\<lambda>w. (cp_node w (a, s) c, current_node w (a, s)))) (\<lambda>(src, cur).
          andthen (require (n_exists src) (checkpoint_missing c))
          (andthen (require (n_exists cur) (session_missing a s))
          (andthen (require_managed_directory src (cpp @ ''/'' @ c) ''checkpoint'')
          (andthen (require_managed_directory cur cp ''session workspace'')
          (andthen (rollback_swap a s c token (rollback_txn defer c token scrub origin rid))
          (bind (rollback_finish a s c token
              (set_phase ''old_moved'' (rollback_txn defer c token scrub origin rid)) scrub defer i) (\<lambda>removed.
           andthen (append_event [(''op'', JStr ''session.rollback''), (''checkpoint_id'', JStr c),
               (''origin'', JStr origin), (''scrub_runtime'', JBool scrub),
               (''removed_runtime_entries'', JList (map JStr removed)),
               (''recovery_id'', dict_of_opt rid), (''deferred_cleanup'', JBool defer)] (Some a) (Some s))
           (ret (c, removed)))))))))))))))))))) (\<lambda>(c, removed).
     bind (lift_res (current a s)) (\<lambda>cp.
     bind (lift_res (session_dir a s)) (\<lambda>sd.
     ret (JObj [(''agent_id'', JStr a), (''session_id'', JStr s), (''checkpoint_id'', JStr c),
        (''relative_workspace'', JStr cp), (''removed_runtime_entries'', JList (map JStr removed)),
        (''recovery_id'', dict_of_opt rid), (''deferred_cleanup'', JBool defer),
        (''cleanup_pending'', JBool defer),
        (''deferred_discard_relative_path'',
           if defer then JStr (sd @ ''/'' @ ''.discard-'' @ token) else JNull)])))))"


section \<open>Deferred cleanup\<close>

definition receipt_conflict :: error where
  "receipt_conflict = WorkspaceError ''deferred rollback receipt does not match the transaction''"

text \<open>\<open>completed = dict(receipt); completed["status"] = ...; completed.setdefault("completed_at_ns", now)\<close>\<close>

definition complete_receipt :: "jdict \<Rightarrow> jdict sop" where
  "complete_receipt r = bind time_ns (\<lambda>now.
     let r1 = dict_set ''status'' (JStr ''completed'') r in
     ret (if ''completed_at_ns'' \<in> fst ` set r1 then r1
          else dict_set ''completed_at_ns'' (JInt now) r1))"

text \<open>Delete the discarded workspace, complete the receipt, clear the transaction.\<close>

definition finish_cleanup :: "string \<Rightarrow> string \<Rightarrow> string \<Rightarrow> string \<Rightarrow> string \<Rightarrow> jdict \<Rightarrow> unit sop" where
  "finish_cleanup a s rid dpath d receipt =
     bind (gets (\<lambda>w. sess_entry w (a, s) d)) (\<lambda>x.
     andthen (whenM (n_exists x)
        (andthen (require_managed_directory x dpath ''deferred rollback discarded workspace'')
        (delete_subvolume (a, s) d)))
     (bind (complete_receipt receipt) (\<lambda>r.
      andthen (write_recovery_receipt a s rid r) (clear_transaction a s))))"

definition cleanup_result ::
  "string \<Rightarrow> string \<Rightarrow> json \<Rightarrow> string \<Rightarrow> string \<Rightarrow> bool \<Rightarrow> string \<Rightarrow> json" where
  "cleanup_result a s c rid st already dpath =
     JObj [(''agent_id'', JStr a), (''session_id'', JStr s), (''checkpoint_id'', c),
       (''recovery_id'', JStr rid), (''cleanup_status'', JStr st), (''cleanup_completed'', JBool True),
       (''already_completed'', JBool already), (''cleanup_pending'', JBool False),
       (''deferred_discard_relative_path'', JStr dpath)]"

definition complete_already :: "string \<Rightarrow> string \<Rightarrow> string \<Rightarrow> json sop" where
  "complete_already a s rid =
     bind (load_recovery_receipt a s rid) (\<lambda>r.
     (case r of
        Some rec \<Rightarrow>
          andthen (require (jget rec ''status'' = JStr ''completed'')
            (WorkspaceError (''no completed deferred rollback for recovery_id: '' @ rid)))
          (bind (lift_res (session_dir a s)) (\<lambda>sd.
           bind (transaction_subvolume_path a s (jget rec ''discard_name'') ''.discard-'') (\<lambda>d.
           bind (gets (\<lambda>w. sess_entry w (a, s) d)) (\<lambda>x.
           andthen (require (\<not> n_exists x)
             (WorkspaceError ''completed deferred rollback still has a discarded workspace''))
           (ret (cleanup_result a s (jget rec ''checkpoint_id'') rid ''already_completed'' True
                  (sd @ ''/'' @ d)))))))
      | None \<Rightarrow> raise (WorkspaceError (''no completed deferred rollback for recovery_id: '' @ rid))))"

definition complete_pending :: "string \<Rightarrow> string \<Rightarrow> string \<Rightarrow> jdict \<Rightarrow> json sop" where
  "complete_pending a s rid t =
     andthen (require (py_eq_int (jget t ''version'') 2 \<and> jget t ''phase'' = JStr ''committed'' \<and>
         jget t ''defer_cleanup'' = JBool True)
       (WorkspaceError ''rollback transaction is not a committed deferred rollback''))
     (bind (case jget t ''recovery_id'' of JStr x \<Rightarrow> lift_res (validate_id ''recovery'' x)
        | _ \<Rightarrow> raise (WorkspaceError ''deferred rollback transaction recovery_id must be a string'')) (\<lambda>trid.
      andthen (require (trid = rid) (WorkspaceError ''recovery_id does not match deferred rollback''))
      (bind (case jget t ''checkpoint_id'' of JStr x \<Rightarrow> lift_res (validate_id ''checkpoint'' x)
        | _ \<Rightarrow> raise (WorkspaceError ''deferred rollback transaction checkpoint_id must be a string'')) (\<lambda>c.
      bind (lift_res (session_dir a s)) (\<lambda>sd.
      bind (lift_res (current a s)) (\<lambda>cp.
      bind (gets (\<lambda>w. current_node w (a, s))) (\<lambda>cur.
      andthen (require_managed_directory cur cp ''session workspace'')
      (bind (transaction_subvolume_path a s (jget t ''restore_name'') ''.restore-'') (\<lambda>r.
       bind (transaction_subvolume_path a s (jget t ''discard_name'') ''.discard-'') (\<lambda>d.
       bind (gets (\<lambda>w. (sess_entry w (a, s) r, sess_entry w (a, s) d))) (\<lambda>(rx, dx).
       andthen (require (\<not> n_exists rx)
         (WorkspaceError ''committed deferred rollback retains a restore workspace''))
       (bind (load_index a s) (\<lambda>i.
        andthen (require (head i = Some c)
          (WorkspaceError ''committed deferred rollback does not match the checkpoint head''))
        (bind (load_recovery_receipt a s rid) (\<lambda>old.
         bind (case old of
             Some rec \<Rightarrow>
               andthen (require (jget rec ''checkpoint_id'' = JStr c \<and> jget rec ''discard_name'' = JStr d)
                 receipt_conflict) (ret rec)
           | None \<Rightarrow>
               andthen (require (n_exists dx)
                 (WorkspaceError ''deferred rollback is missing its discarded workspace''))
               (andthen (require_managed_directory dx (sd @ ''/'' @ d) ''deferred rollback discarded workspace'')
               (bind time_ns (\<lambda>now.
                let rec = [(''version'', JInt 1), (''status'', JStr ''cleanup_started''),
                    (''agent_id'', JStr a), (''session_id'', JStr s), (''checkpoint_id'', JStr c),
                    (''recovery_id'', JStr rid), (''discard_name'', JStr d),
                    (''cleanup_started_at_ns'', JInt now)] in
                andthen (write_recovery_receipt a s rid rec) (ret rec))))) (\<lambda>receipt.
         andthen (finish_cleanup a s rid (sd @ ''/'' @ d) d receipt)
         (andthen (append_event [(''op'', JStr ''session.rollback.cleanup''), (''checkpoint_id'', JStr c),
             (''recovery_id'', JStr rid), (''outcome'', JStr ''completed'')] (Some a) (Some s))
         (ret (cleanup_result a s (JStr c) rid ''completed'' False (sd @ ''/'' @ d))))))))))))))))))))"

definition complete_deferred_rollback :: "string \<Rightarrow> string \<Rightarrow> string \<Rightarrow> json sop" where
  "complete_deferred_rollback a s rid =
     andthen (lift_res (validate_id ''recovery'' rid))
     (session_lock a s
       (bind (load_transaction a s) (\<lambda>t. (case t of
           None \<Rightarrow> complete_already a s rid
         | Some tx \<Rightarrow> complete_pending a s rid tx))))"

section \<open>Recovery at start-up\<close>

definition entries_with_prefix :: "store \<Rightarrow> skey \<Rightarrow> string \<Rightarrow> string list" where
  "entries_with_prefix w k p = (case sessions w k of None \<Rightarrow> []
     | Some sd \<Rightarrow> sort (filter (\<lambda>n. startswith n p) (map fst (entries sd))))"

definition recovered_event :: "string \<Rightarrow> string \<Rightarrow> json \<Rightarrow> string \<Rightarrow> jdict" where
  "recovered_event op c rid out =
     [(''op'', JStr op), (''checkpoint_id'', JStr c), (''recovery_id'', rid), (''outcome'', JStr out)]"

text \<open>No transaction file, but restore or discard subvolumes are left.\<close>

definition recover_orphan :: "string \<Rightarrow> string \<Rightarrow> bool sop" where
  "recover_orphan a s =
     bind (gets (\<lambda>w. (current_node w (a, s), entries_with_prefix w (a, s) ''.restore-'',
                      entries_with_prefix w (a, s) ''.discard-''))) (\<lambda>(cur, rs, ds).
     if rs = [] \<and> ds = [] then ret False
     else bind (if n_exists cur then ret ds
          else (case ds of
              [d] \<Rightarrow> andthen (rename_entry (a, s) d ''current'') (ret [])
            | _ \<Rightarrow> raise (WorkspaceError (''cannot recover orphan rollback for '' @ a @ ''/'' @ s)))) (\<lambda>ds'.
        andthen (forM (rs @ ds') (delete_if_exists (a, s)))
        (andthen (append_event [(''op'', JStr ''session.rollback.recovered''),
            (''outcome'', JStr ''aborted-orphan'')] (Some a) (Some s))
        (ret True))))"

text \<open>
  The checks on a transaction read back: \<open>(version, phase, recovery id, checkpoint, restore name,
  discard name)\<close>.
\<close>

definition check_transaction ::
  "string \<Rightarrow> string \<Rightarrow> jdict \<Rightarrow> (bool \<times> string \<times> string option \<times> string \<times> string \<times> string) sop" where
  "check_transaction a s t =
     bind (lift_res (in_str_set (jget t ''phase'')
        [''preparing'', ''prepared'', ''old_moved'', ''committed''])) (\<lambda>okp.
     andthen (require okp (WorkspaceError (''invalid rollback transaction phase: '' @ repr_json (jget t ''phase''))))
     (andthen (if hashable (jget t ''version'') then ret () else raise TypeError)
     (andthen (require (py_eq_int (jget t ''version'') 1 \<or> py_eq_int (jget t ''version'') 2)
        (WorkspaceError ''unsupported rollback transaction version''))
     (bind (if py_eq_int (jget t ''version'') 2
            then andthen (require (jget t ''defer_cleanup'' = JBool True)
                   (WorkspaceError ''deferred rollback transaction is not marked deferred''))
                 (case jget t ''recovery_id'' of
                    JStr x \<Rightarrow> bind (lift_res (validate_id ''recovery'' x)) (\<lambda>x.
                      andthen (require (is_bool (jget t ''scrub_runtime''))
                        (WorkspaceError ''deferred rollback transaction scrub_runtime must be a boolean''))
                      (ret (Some x)))
                  | _ \<Rightarrow> raise (WorkspaceError ''deferred rollback transaction recovery_id must be a string''))
            else ret None) (\<lambda>rid.
     bind (case jget t ''checkpoint_id'' of JStr x \<Rightarrow> lift_res (validate_id ''checkpoint'' x)
        | _ \<Rightarrow> raise (WorkspaceError ''rollback transaction checkpoint_id must be a string'')) (\<lambda>c.
     bind (transaction_subvolume_path a s (jget t ''restore_name'') ''.restore-'') (\<lambda>r.
     bind (transaction_subvolume_path a s (jget t ''discard_name'') ''.discard-'') (\<lambda>d.
     ret (py_eq_int (jget t ''version'') 2, the_str (jget t ''phase''), rid, c, r, d)))))))))"

text \<open>A committed deferred rollback whose workspace is in place.\<close>

definition recover_deferred_committed :: "string \<Rightarrow> string \<Rightarrow> string \<Rightarrow> string \<Rightarrow> string \<Rightarrow> string \<Rightarrow> bool sop" where
  "recover_deferred_committed a s rid c r d =
     bind (lift_res (current a s)) (\<lambda>cp.
     bind (lift_res (session_dir a s)) (\<lambda>sd.
     bind (gets (\<lambda>w. (current_node w (a, s), sess_entry w (a, s) r, sess_entry w (a, s) d))) (\<lambda>(cur, rx, dx).
     andthen (require_managed_directory cur cp ''session workspace'')
     (andthen (require (\<not> n_exists rx) (WorkspaceError ''committed deferred rollback retains a restore path''))
     (bind (load_index a s) (\<lambda>i.
      andthen (require (head i = Some c)
        (WorkspaceError ''committed deferred rollback does not match the checkpoint head''))
      (bind (load_recovery_receipt a s rid) (\<lambda>old. (case old of
         None \<Rightarrow>
           andthen (require (n_exists dx)
             (WorkspaceError ''committed deferred rollback is missing its discarded workspace''))
           (andthen (require_managed_directory dx (sd @ ''/'' @ d) ''deferred rollback discarded workspace'')
           (ret False))
       | Some rec \<Rightarrow>
           andthen (require (jget rec ''checkpoint_id'' = JStr c \<and> jget rec ''discard_name'' = JStr d)
             receipt_conflict)
           (andthen (finish_cleanup a s rid (sd @ ''/'' @ d) d rec)
           (andthen (append_event
              (recovered_event ''session.rollback.cleanup.recovered'' c (JStr rid) ''completed'')
              (Some a) (Some s))
           (ret True))))))))))))"

text \<open>Bring a workspace back to \<open>current\<close>; the result says whether the rollback commits.\<close>

definition recover_current :: "string \<Rightarrow> string \<Rightarrow> string \<Rightarrow> string \<Rightarrow> string \<Rightarrow> bool sop" where
  "recover_current a s phase r d =
     bind (lift_res (session_dir a s)) (\<lambda>sd.
     bind (gets (\<lambda>w. (current_node w (a, s), sess_entry w (a, s) r, sess_entry w (a, s) d))) (\<lambda>(cur, rx, dx).
     if n_exists cur then ret (phase \<in> {''old_moved'', ''committed''})
     else if phase \<in> {''prepared'', ''old_moved'', ''committed''} \<and> n_exists rx then
       andthen (require_managed_directory rx (sd @ ''/'' @ r) ''rollback restore workspace'')
       (andthen (rename_entry (a, s) r ''current'') (ret True))
     else if n_exists dx then
       andthen (require_managed_directory dx (sd @ ''/'' @ d) ''rollback discarded workspace'')
       (andthen (rename_entry (a, s) d ''current'') (ret False))
     else raise (WorkspaceError (''rollback recovery has no current workspace: '' @ a @ ''/'' @ s))))"

definition resolve_and_move :: "string \<Rightarrow> string \<Rightarrow> string \<Rightarrow> unit sop" where
  "resolve_and_move a s c =
     bind (load_index a s) (\<lambda>i.
     bind (wrap_index_error (bindR (resolve i (Some c) None) (move_head i))) (\<lambda>i'.
     save_index a s i'))"

definition recover_deferred_commit ::
  "string \<Rightarrow> string \<Rightarrow> jdict \<Rightarrow> string \<Rightarrow> string \<Rightarrow> string \<Rightarrow> string \<Rightarrow> bool sop" where
  "recover_deferred_commit a s t rid c r d =
     bind (lift_res (current a s)) (\<lambda>cp.
     bind (lift_res (session_dir a s)) (\<lambda>sd.
     bind (gets (\<lambda>w. (current_node w (a, s), sess_entry w (a, s) r, sess_entry w (a, s) d))) (\<lambda>(cur, rx, dx).
     andthen (require_managed_directory cur cp ''session workspace'')
     (andthen (require (n_exists dx)
        (WorkspaceError ''deferred rollback recovery is missing its discarded workspace''))
     (andthen (require_managed_directory dx (sd @ ''/'' @ d) ''deferred rollback discarded workspace'')
     (andthen (require (\<not> n_exists rx) (WorkspaceError ''deferred rollback recovery retains a restore path''))
     (bind (if jget t ''scrub_runtime'' = JBool True then scrub_runtime_entries (a, s) else ret []) (\<lambda>removed.
      andthen (resolve_and_move a s c)
      (bind time_ns (\<lambda>now.
       andthen (write_transaction a s
         (dict_set ''committed_at_ns'' (JInt now)
           (dict_set ''removed_runtime_entries'' (JList (map JStr removed)) (set_phase ''committed'' t))))
       (andthen (append_event
          (recovered_event ''session.rollback.recovered'' c (JStr rid) ''committed-deferred'')
          (Some a) (Some s))
       (ret True))))))))))))"

definition recover_discard :: "string \<Rightarrow> string \<Rightarrow> string \<Rightarrow> string \<Rightarrow> unit sop" where
  "recover_discard a s n label =
     bind (lift_res (session_dir a s)) (\<lambda>sd.
     bind (gets (\<lambda>w. sess_entry w (a, s) n)) (\<lambda>x.
     whenM (n_exists x)
       (andthen (require_managed_directory x (sd @ ''/'' @ n) label) (delete_subvolume (a, s) n))))"

definition recover_direct ::
  "string \<Rightarrow> string \<Rightarrow> string option \<Rightarrow> string \<Rightarrow> string \<Rightarrow> string \<Rightarrow> bool \<Rightarrow> bool sop" where
  "recover_direct a s rid c r d commit =
     andthen (recover_discard a s d ''rollback discarded workspace'')
     (andthen (recover_discard a s r ''rollback restore workspace'')
     (andthen (whenM commit (resolve_and_move a s c))
     (andthen (clear_transaction a s)
     (andthen (append_event (recovered_event ''session.rollback.recovered'' c (dict_of_opt rid)
         (if commit then ''committed'' else ''aborted'')) (Some a) (Some s))
     (ret True)))))"

definition recover_session :: "string \<Rightarrow> string \<Rightarrow> bool sop" where
  "recover_session a s =
     bind (lift_res (current a s)) (\<lambda>_.
     bind (load_transaction a s) (\<lambda>t0. (case t0 of
        None \<Rightarrow> recover_orphan a s
      | Some t \<Rightarrow>
          bind (check_transaction a s t) (\<lambda>(deferred, phase, rid, c, r, d).
          bind (gets (\<lambda>w. current_node w (a, s))) (\<lambda>cur.
          if deferred \<and> phase = ''committed'' \<and> n_exists cur
          then recover_deferred_committed a s (the rid) c r d
          else
            bind (recover_current a s phase r d) (\<lambda>commit.
            if deferred \<and> commit then recover_deferred_commit a s t (the rid) c r d
            else
              andthen (if deferred then bind (load_recovery_receipt a s (the rid)) (\<lambda>x.
                  require (x = None)
                    (WorkspaceError ''aborted deferred rollback unexpectedly has a cleanup receipt''))
                else ret ())
              (recover_direct a s rid c r d commit)))))))"

text \<open>\<open>_recover_sessions\<close>: every real, validly named session directory under its lock.\<close>

definition recovery_targets :: "store \<Rightarrow> skey list" where
  "recovery_targets w =
     concat (map (\<lambda>(a, real). if real \<and> ID_RE_fullmatch a
       then (case sess_ls w a of None \<Rightarrow> []
             | Some l \<Rightarrow> map (\<lambda>(s, _). (a, s)) (filter (\<lambda>(s, real). real \<and> ID_RE_fullmatch s) l))
       else []) (agent_ls w))"

fun recover_all :: "skey list \<Rightarrow> string list sop" where
  "recover_all [] = ret []"
| "recover_all ((a, s) # ks) =
     bind (session_lock a s (recover_session a s)) (\<lambda>done.
     bind (recover_all ks) (\<lambda>rest.
     ret (if done then (a @ ''/'' @ s) # rest else rest)))"

definition recover_sessions :: "string list sop" where
  "recover_sessions = bind (gets recovery_targets) recover_all"

text \<open>
  The control directories are implicit in the state; creating them is an effect that can fail.
\<close>

definition CONTROL_DIRS :: "string list" where
  "CONTROL_DIRS = [''agents'', ''.allox/events'', ''.allox/indexes'', ''.allox/locks'', ''.allox/transactions'']"

definition initialize :: "json sop" where
  "initialize =
     andthen assert_root
     (andthen (forM CONTROL_DIRS (\<lambda>_. effect io_error (\<lambda>w. w)))
     (bind recover_sessions (\<lambda>recovered.
      andthen (append_event [(''op'', JStr ''store.initialize'')] None None)
      (bind (gets root) (\<lambda>r.
       ret (JObj [(''root'', JStr r), (''recovered_sessions'', JList (map JStr recovered))]))))))"

end
