(* ===== verification/Workspace_Scrub.thy ===== *)
theory Workspace_Scrub
  imports Workspace_Operations
begin

text \<open>
  What \<^verbatim>\<open>_scrub_runtime_entries\<close> does to a file tree: unlinking the paths that
  \<open>os.walk\<close> yields removes sockets and FIFOs and nothing else, in full (the result is the pruned
  tree) and when the loop is cut short (the pruned tree stays the same).
\<close>

section \<open>Trees without runtime entries\<close>

fun prune :: "tree \<Rightarrow> tree" and prune_list :: "dirlist \<Rightarrow> dirlist" where
  "prune (DirEntry d) = DirEntry (prune_list d)"
| "prune x = x"
| "prune_list [] = []"
| "prune_list ((n, x) # d) = (if is_runtime x then prune_list d else (n, prune x) # prune_list d)"

text \<open>Names in a directory are distinct, at every level.\<close>

fun wf_tree :: "tree \<Rightarrow> bool" and wf_list :: "dirlist \<Rightarrow> bool" where
  "wf_tree (DirEntry d) = (distinct (dict_keys d) \<and> wf_list d)"
| "wf_tree x = True"
| "wf_list [] = True"
| "wf_list ((n, x) # d) = (wf_tree x \<and> wf_list d)"

fun tree_at :: "string list \<Rightarrow> tree \<Rightarrow> tree option" where
  "tree_at [] x = Some x"
| "tree_at (n # ns) (DirEntry d) = Option.bind (map_of d n) (tree_at ns)"
| "tree_at (n # ns) _ = None"

definition runtime_at :: "string list \<Rightarrow> tree \<Rightarrow> bool" where
  "runtime_at p x = (case tree_at p x of None \<Rightarrow> False | Some y \<Rightarrow> is_runtime y)"

definition removable :: "string list \<Rightarrow> tree \<Rightarrow> bool" where
  "removable p x = (p \<noteq> [] \<and> (case tree_at p x of None \<Rightarrow> True | Some y \<Rightarrow> is_runtime y))"

lemma wf_list_all: "wf_list d \<longleftrightarrow> (\<forall>(n, x) \<in> set d. wf_tree x)"
  by (induction d) auto

lemma wf_list_lookup: "wf_list d \<Longrightarrow> map_of d n = Some x \<Longrightarrow> wf_tree x"
  by (auto simp: wf_list_all dest: map_of_SomeD)

lemma wf_list_set: "wf_list d \<Longrightarrow> wf_tree x \<Longrightarrow> wf_list (dict_set n x d)"
  by (induction d) auto

lemma wf_list_del: "wf_list d \<Longrightarrow> wf_list (dict_del n d)"
  by (auto simp: wf_list_all AList.delete_eq)

lemma prune_list_absent: "n \<notin> fst ` set d \<Longrightarrow> prune_list (dict_del n d) = prune_list d"
  by (simp add: delete_idem)

lemma prune_list_del:
  assumes "distinct (dict_keys d)" and "map_of d n = Some x" and "is_runtime x"
  shows "prune_list (dict_del n d) = prune_list d"
  using assms
proof (induction d)
  case (Cons kv d)
  obtain k v where kv: "kv = (k, v)" by (cases kv)
  show ?case
  proof (cases "k = n")
    case True
    then have "n \<notin> fst ` set d" using Cons.prems by (simp add: kv)
    then show ?thesis using Cons.prems True by (simp add: kv delete_idem)
  next
    case False
    then show ?thesis using Cons by (simp add: kv)
  qed
qed simp

lemma prune_runtime: "is_runtime (prune x) = is_runtime x"
  by (cases x) simp_all

lemma prune_list_set:
  assumes "map_of d n = Some x" and "prune y = prune x"
  shows "prune_list (dict_set n y d) = prune_list d"
  using assms(1)
proof (induction d)
  case (Cons kv d)
  have "is_runtime y = is_runtime x" using assms(2) prune_runtime by metis
  with Cons assms(2) show ?case by (cases kv) (auto split: if_splits)
qed simp

lemma unlink_at_Cons:
  "ns \<noteq> [] \<Longrightarrow> unlink_at (n # ns) (DirEntry d) =
     (case map_of d n of None \<Rightarrow> DirEntry d | Some x \<Rightarrow> DirEntry (dict_set n (unlink_at ns x) d))"
  by (cases ns) auto

lemma unlink_at_leaf: "\<not> (\<exists>d. x = DirEntry d) \<Longrightarrow> unlink_at p x = x"
  by (cases "(p, x)" rule: unlink_at.cases) auto

text \<open>One unlink of a removable path keeps the pruned tree and every other removable path.\<close>

lemma unlink_removable:
  assumes "removable p x" and "wf_tree x"
  shows "prune (unlink_at p x) = prune x \<and> wf_tree (unlink_at p x)"
  using assms
proof (induction p arbitrary: x)
  case Nil
  then show ?case by (simp add: removable_def)
next
  case (Cons n ns)
  show ?case
  proof (cases "\<exists>d. x = DirEntry d")
    case False
    then show ?thesis using Cons.prems by (simp add: unlink_at_leaf)
  next
    case True
    then obtain d where d: "x = DirEntry d" by blast
    note wf = Cons.prems(2) [unfolded d wf_tree.simps]
    show ?thesis
    proof (cases "ns = []")
      case True
      have "prune_list (dict_del n d) = prune_list d"
      proof (cases "map_of d n")
        case None
        then show ?thesis by (simp add: delete_idem map_of_eq_None_iff)
      next
        case (Some y)
        then have "is_runtime y" using Cons.prems(1) True by (simp add: d removable_def)
        then show ?thesis using prune_list_del wf Some by blast
      qed
      then show ?thesis using wf True by (simp add: d wf_list_del)
    next
      case False
      show ?thesis
      proof (cases "map_of d n")
        case None
        then show ?thesis using wf False by (simp add: d unlink_at_Cons)
      next
        case (Some y)
        have "removable ns y" using Cons.prems(1) False Some by (simp add: d removable_def)
        then have "prune (unlink_at ns y) = prune y \<and> wf_tree (unlink_at ns y)"
          by (rule Cons.IH) (use wf Some wf_list_lookup in blast)
        then show ?thesis
          using wf False Some by (simp add: d unlink_at_Cons wf_list_set prune_list_set)
      qed
    qed
  qed
qed

lemma tree_at_unlink:
  "p \<noteq> [] \<Longrightarrow> tree_at q (unlink_at p x) = Some y \<Longrightarrow> is_runtime y \<Longrightarrow> tree_at q x = Some y \<and> q \<noteq> p"
proof (induction p arbitrary: q x)
  case (Cons n ns)
  show ?case
  proof (cases "\<exists>d. x = DirEntry d")
    case False
    then show ?thesis using Cons.prems by (cases x; cases q) (auto simp: unlink_at_leaf)
  next
    case True
    then obtain d where d: "x = DirEntry d" by blast
    show ?thesis
    proof (cases "ns = []")
      case True
      then show ?thesis
        using Cons.prems by (cases q) (auto simp: d split: if_splits Option.bind_splits)
    next
      case False
      show ?thesis
      proof (cases "map_of d n")
        case None
        then show ?thesis
          using Cons.prems False by (cases q) (auto simp: d unlink_at_Cons)
      next
        case (Some z)
        show ?thesis
          using Cons.prems Cons.IH [OF False] False Some
          by (cases q) (auto simp: d unlink_at_Cons split: if_splits)
      qed
    qed
  qed
qed simp

definition is_dir :: "tree \<Rightarrow> bool" where
  "is_dir x = (\<exists>d. x = DirEntry d)"

lemma unlink_at_dir: "is_dir (unlink_at p x) = is_dir x"
  by (cases "(p, x)" rule: unlink_at.cases) (auto simp: is_dir_def split: option.splits)

lemma tree_at_unlink_from:
  "tree_at q (unlink_at p x) = Some y \<Longrightarrow> \<exists>z. tree_at q x = Some z \<and> (z = y \<or> is_dir z \<and> is_dir y)"
proof (induction p arbitrary: q x)
  case Nil
  then show ?case by (cases x) simp_all
next
  case (Cons n ns)
  show ?case
  proof (cases "is_dir x")
    case False
    then show ?thesis using Cons.prems by (simp add: unlink_at_leaf is_dir_def)
  next
    case True
    then obtain d where d: "x = DirEntry d" by (auto simp: is_dir_def)
    show ?thesis
    proof (cases q)
      case Nil
      then show ?thesis using Cons.prems unlink_at_dir [of "n # ns" x] True by auto
    next
      case (Cons m ms)
      show ?thesis
      proof (cases "ns = []")
        case True
        then show ?thesis using \<open>tree_at q _ = _\<close> by (auto simp: d Cons split: if_splits)
      next
        case False
        then show ?thesis
          using \<open>tree_at q _ = _\<close> Cons.IH
          by (cases "map_of d n") (auto simp: d Cons unlink_at_Cons split: if_splits)
      qed
    qed
  qed
qed

lemma removable_unlink: "removable q x \<Longrightarrow> removable q (unlink_at p x)"
  using tree_at_unlink_from [of q p x]
  by (cases "tree_at q (unlink_at p x)") (auto simp: removable_def is_dir_def)

lemma runtime_unlink: "p \<noteq> [] \<Longrightarrow> runtime_at q (unlink_at p x) \<Longrightarrow> runtime_at q x \<and> q \<noteq> p"
  using tree_at_unlink [of p q x] by (auto simp: runtime_at_def split: option.splits)

section \<open>The walk finds every runtime entry\<close>

lemma runtime_at_dir:
  assumes "distinct (dict_keys d)"
  shows "runtime_at (n # q) (DirEntry d) \<longleftrightarrow> (\<exists>x. (n, x) \<in> set d \<and> runtime_at q x)"
proof -
  have m: "(n, x) \<in> set d \<longleftrightarrow> map_of d n = Some x" for x
    using map_of_eq_Some_iff [OF assms] by simp
  show ?thesis unfolding m by (cases "map_of d n") (simp_all add: runtime_at_def)
qed

lemma runtime_at_Nil [simp]: "runtime_at [] x = is_runtime x"
  by (simp add: runtime_at_def)

lemma runtime_at_leaf: "\<not> is_dir x \<Longrightarrow> q \<noteq> [] \<Longrightarrow> \<not> runtime_at q x"
  by (cases x; cases q) (simp_all add: runtime_at_def is_dir_def)

lemma set_walk:
  "wf_tree x \<Longrightarrow> set (walk_tree pre x) = {pre @ q | q. q \<noteq> [] \<and> runtime_at q x}"
  "wf_list d \<Longrightarrow> set (walk_list pre d) = {pre @ n # q | n q x. (n, x) \<in> set d \<and> q \<noteq> [] \<and> runtime_at q x}"
proof (induction pre x and pre d rule: walk_tree_walk_list.induct)
  case (1 pre d)
  have eq: "q \<noteq> [] \<and> runtime_at q (DirEntry d) \<longleftrightarrow>
      (\<exists>n x. q = [n] \<and> (n, x) \<in> set d \<and> is_runtime x) \<or>
      (\<exists>n r x. q = n # r \<and> (n, x) \<in> set d \<and> r \<noteq> [] \<and> runtime_at r x)" for q
  proof (cases q)
    case (Cons n r)
    have d: "distinct (dict_keys d)" using 1(2) by simp
    show ?thesis by (cases "r = []") (auto simp: Cons runtime_at_dir [OF d])
  qed simp
  have lp: "set (level_paths pre d) = {pre @ [n] | n x. (n, x) \<in> set d \<and> is_runtime x}"
    by (force simp: level_paths_def)
  have ih: "set (walk_list pre d) = {pre @ n # q | n q x. (n, x) \<in> set d \<and> q \<noteq> [] \<and> runtime_at q x}"
    using 1 by simp
  show ?case unfolding walk_tree.simps set_append lp ih eq by blast
next
  case (4 pre n x d)
  then show ?case by auto
qed (auto simp: runtime_at_def is_dir_def neq_Nil_conv)

lemma walk_runtime: "wf_tree x \<Longrightarrow> p \<in> set (walk_tree [] x) \<longleftrightarrow> p \<noteq> [] \<and> runtime_at p x"
  by (simp add: set_walk)

lemma runtime_removable: "p \<noteq> [] \<Longrightarrow> runtime_at p x \<Longrightarrow> removable p x"
  by (auto simp: runtime_at_def removable_def split: option.splits)

section \<open>Unlinking a list of paths\<close>

abbreviation unlink_all :: "string list list \<Rightarrow> tree \<Rightarrow> tree" where
  "unlink_all ps x \<equiv> fold unlink_at ps x"

lemma unlink_all_prune:
  assumes "\<forall>p \<in> set ps. removable p x" and "wf_tree x"
  shows "prune (unlink_all ps x) = prune x \<and> wf_tree (unlink_all ps x)"
  using assms
proof (induction ps arbitrary: x)
  case (Cons p ps)
  have "prune (unlink_at p x) = prune x" "wf_tree (unlink_at p x)"
    using unlink_removable [of p x] Cons.prems by simp_all
  moreover have "\<forall>q \<in> set ps. removable q (unlink_at p x)"
    using Cons.prems removable_unlink by simp
  ultimately show ?case using Cons.IH [of "unlink_at p x"] by simp
qed simp

lemma unlink_all_runtime:
  "[] \<notin> set ps \<Longrightarrow> runtime_at q (unlink_all ps x) \<Longrightarrow> runtime_at q x \<and> q \<notin> set ps"
proof (induction ps arbitrary: x)
  case (Cons p ps)
  then have "runtime_at q (unlink_at p x) \<and> q \<notin> set ps" by simp
  with runtime_unlink [of p q x] Cons.prems show ?case by auto
qed simp

lemma prune_id:
  "wf_tree x \<Longrightarrow> (\<forall>q. q \<noteq> [] \<longrightarrow> \<not> runtime_at q x) \<Longrightarrow> prune x = x"
  "wf_list d \<Longrightarrow> distinct (dict_keys d) \<Longrightarrow> (\<forall>q. q \<noteq> [] \<longrightarrow> \<not> runtime_at q (DirEntry d)) \<Longrightarrow> prune_list d = d"
proof (induction x and d rule: prune_prune_list.induct)
  case (4 n x d)
  have x: "\<not> is_runtime x" using 4(6) [rule_format, of "[n]"] by (simp add: runtime_at_def)
  have "prune x = x"
  proof (rule 4(2) [OF x])
    show "wf_tree x" using 4(4) by simp
    show "\<forall>q. q \<noteq> [] \<longrightarrow> \<not> runtime_at q x"
    proof (intro allI impI)
      fix q :: "string list" assume "q \<noteq> []"
      show "\<not> runtime_at q x" using 4(6) [rule_format, of "n # q"] by (simp add: runtime_at_def)
    qed
  qed
  moreover have "prune_list d = d"
  proof (rule 4(3) [OF x])
    show "\<forall>q. q \<noteq> [] \<longrightarrow> \<not> runtime_at q (DirEntry d)"
    proof (intro allI impI)
      fix q :: "string list" assume "q \<noteq> []"
      then show "\<not> runtime_at q (DirEntry d)"
        using 4(5) 4(6) [rule_format, of q] by (cases q) (auto simp: runtime_at_dir)
    qed
  qed (use 4(4,5) in simp_all)
  ultimately show ?case using x by simp
qed simp_all

lemma scrub_tree_full:
  assumes wf: "wf_tree x"
  shows "unlink_all (walk_tree [] x) x = prune x"
proof -
  have r: "\<forall>p \<in> set (walk_tree [] x). removable p x"
    using walk_runtime [OF wf] runtime_removable by blast
  have n: "[] \<notin> set (walk_tree [] x)" using walk_runtime [OF wf] by simp
  let ?y = "unlink_all (walk_tree [] x) x"
  have y: "prune ?y = prune x" "wf_tree ?y" using unlink_all_prune [OF r wf] by simp_all
  have "\<forall>q. q \<noteq> [] \<longrightarrow> \<not> runtime_at q ?y"
    using unlink_all_runtime [OF n] walk_runtime [OF wf] by blast
  then have "prune ?y = ?y" by (rule prune_id(1) [OF y(2)])
  then show ?thesis using y(1) by simp
qed

end
