(* ===== verification/Fault_Logic.thy ===== *)
theory Fault_Logic
  imports Workspace_Scrub
begin

text \<open>
  A Hoare logic for the operations of the workspace store under one injected fault, and the
  rules of the primitive effects. A triple \<open>hoare b P m Q X\<close> says: from a state satisfying \<open>P\<close>,
  \<open>m\<close> returns in a state satisfying \<open>Q\<close>; or, only if \<open>b\<close> allows a fault, it ends in an
  exception (or a crash) in a state satisfying \<open>X\<close>, and no second fault follows.
\<close>

section \<open>Fault modes\<close>

definition single_fault :: "outcome list \<Rightarrow> bool" where
  "single_fault l \<longleftrightarrow> l = [] \<or> (\<exists>n x. l = replicate n Ok @ [x])"

definition fm :: "bool \<Rightarrow> store \<Rightarrow> bool" where
  "fm b w \<longleftrightarrow> (if b then single_fault (schedule w) else schedule w = [])"

lemma single_fault_Nil [simp]: "single_fault []"
  by (simp add: single_fault_def)

lemma single_fault_Cons:
  assumes "single_fault (x # l)"
  shows "single_fault l \<and> (x \<noteq> Ok \<longrightarrow> l = [])"
proof -
  obtain n y where "x # l = replicate n Ok @ [y]" using assms by (auto simp: single_fault_def)
  then show ?thesis by (cases n) (auto simp: single_fault_def)
qed

definition hoare ::
  "bool \<Rightarrow> (store \<Rightarrow> bool) \<Rightarrow> 'a sop \<Rightarrow> ('a \<Rightarrow> store \<Rightarrow> bool) \<Rightarrow> (error \<Rightarrow> store \<Rightarrow> bool) \<Rightarrow> bool" where
  "hoare b P m Q X \<longleftrightarrow> (\<forall>w. fm b w \<and> P w \<longrightarrow>
     wp m (\<lambda>x w'. fm b w' \<and> Q x w') (\<lambda>e w'. b \<and> fm False w' \<and> X e w') w)"

lemma hoare_bind:
  assumes m: "hoare b P m Q X" and f: "\<And>x. hoare b (Q x) (f x) R X"
  shows "hoare b P (bind m f) R X"
  unfolding hoare_def wp_bind
proof (intro allI impI)
  fix w assume w: "fm b w \<and> P w"
  show "wp m (\<lambda>x. wp (f x) (\<lambda>y w'. fm b w' \<and> R y w') (\<lambda>e w'. b \<and> fm False w' \<and> X e w'))
      (\<lambda>e w'. b \<and> fm False w' \<and> X e w') w"
  proof (rule wp_mono)
    show "wp m (\<lambda>x w'. fm b w' \<and> Q x w') (\<lambda>e w'. b \<and> fm False w' \<and> X e w') w"
      using m w unfolding hoare_def by blast
    show "fm b w' \<and> Q x w' \<Longrightarrow> wp (f x) (\<lambda>y w'. fm b w' \<and> R y w') (\<lambda>e w'. b \<and> fm False w' \<and> X e w') w'" for x w'
      using f unfolding hoare_def by blast
  qed
qed

lemma hoare_andthen:
  assumes "hoare b P m (\<lambda>_. Q) X" and "hoare b Q k R X"
  shows "hoare b P (andthen m k) R X"
  unfolding andthen_def using assms by (rule hoare_bind)

lemma hoare_weaken:
  assumes "hoare b P m Q X" and "\<And>w. P' w \<Longrightarrow> P w" and "\<And>x w. Q x w \<Longrightarrow> Q' x w"
    and "\<And>e w. X e w \<Longrightarrow> X' e w"
  shows "hoare b P' m Q' X'"
  unfolding hoare_def
proof (intro allI impI)
  fix w assume "fm b w \<and> P' w"
  then have "wp m (\<lambda>x w'. fm b w' \<and> Q x w') (\<lambda>e w'. b \<and> fm False w' \<and> X e w') w"
    using assms(1,2) unfolding hoare_def by blast
  then show "wp m (\<lambda>x w'. fm b w' \<and> Q' x w') (\<lambda>e w'. b \<and> fm False w' \<and> X' e w') w"
    by (rule wp_mono) (use assms(3,4) in auto)
qed

lemma hoare_pre: "hoare b P m Q X \<Longrightarrow> (\<And>w. P' w \<Longrightarrow> P w) \<Longrightarrow> hoare b P' m Q X"
  by (rule hoare_weaken)

lemma hoare_ret: "(\<And>w. P w \<Longrightarrow> Q x w) \<Longrightarrow> hoare b P (ret x) Q X"
  by (simp add: hoare_def wp_ret)

lemma hoare_pull: "(C \<Longrightarrow> hoare b P m Q X) \<Longrightarrow> hoare b (\<lambda>w. C \<and> P w) m Q X"
  unfolding hoare_def by blast

lemma hoare_gets:
  assumes "\<And>x. hoare b (\<lambda>w. P w \<and> f w = x) (g x) Q X"
  shows "hoare b P (bind (gets f) g) Q X"
  using assms unfolding hoare_def by (auto simp: wp_bind wp_gets)

text \<open>A read whose value the precondition determines.\<close>

lemma hoare_gets_eq:
  assumes "\<And>w. P w \<Longrightarrow> f w = v" and "hoare b P (g v) Q X"
  shows "hoare b P (bind (gets f) g) Q X"
  using assms unfolding hoare_def by (auto simp: wp_bind wp_gets)

lemma hoare_lift:
  assumes "r = Inr v" and "hoare b P (g v) Q X"
  shows "hoare b P (bind (lift_res r) g) Q X"
  using assms unfolding hoare_def by (auto simp: wp_bind wp_lift_res)

lemma hoare_require:
  assumes "ok" and "hoare b P k Q X"
  shows "hoare b P (andthen (require ok e) k) Q X"
  using assms unfolding hoare_def by (auto simp: wp_andthen wp_require)

text \<open>A computation that only reads.\<close>

lemma hoare_pure:
  assumes "\<And>w. P w \<Longrightarrow> m w = (Inr v, w)" and "hoare b P (g v) Q X"
  shows "hoare b P (bind m g) Q X"
  using assms unfolding hoare_def wp_bind by (auto simp: wp_def)

lemma hoare_forM:
  assumes "\<And>x. x \<in> set xs \<Longrightarrow> hoare b I (f x) (\<lambda>_. I) X"
  shows "hoare b I (forM xs f) (\<lambda>_. I) X"
  using assms
proof (induction xs)
  case Nil
  then show ?case by (simp add: hoare_ret)
next
  case (Cons x xs)
  then show ?case by (auto intro: hoare_andthen)
qed

text \<open>\<open>try\<close> with a handler that cleans up in a fault-free tail and raises again.\<close>

definition cleanup :: "(store \<Rightarrow> bool) \<Rightarrow> 'a sop \<Rightarrow> (error \<Rightarrow> store \<Rightarrow> bool) \<Rightarrow> bool" where
  "cleanup P m X \<longleftrightarrow> (\<forall>w. fm False w \<and> P w \<longrightarrow>
     wp m (\<lambda>_ _. False) (\<lambda>e w'. fm False w' \<and> X e w') w)"

lemma cleanup_raise: "(\<And>w. P w \<Longrightarrow> X e w) \<Longrightarrow> cleanup P (raise e) X"
  by (simp add: cleanup_def wp_raise)

lemma cleanup_andthen:
  assumes m: "hoare False P m (\<lambda>_. Q) Y" and k: "cleanup Q k X"
  shows "cleanup P (andthen m k) X"
  unfolding cleanup_def wp_andthen
proof (intro allI impI)
  fix w assume "fm False w \<and> P w"
  then have "wp m (\<lambda>x w'. fm False w' \<and> Q w') (\<lambda>e w'. False) w"
    using m unfolding hoare_def by simp
  then show "wp m (\<lambda>_. wp k (\<lambda>_ _. False) (\<lambda>e w'. fm False w' \<and> X e w')) (\<lambda>e w'. fm False w' \<and> X e w') w"
    by (rule wp_mono) (use k in \<open>simp_all add: cleanup_def\<close>)
qed

lemma cleanup_disj: "cleanup P m X \<Longrightarrow> cleanup Q m X \<Longrightarrow> cleanup (\<lambda>w. P w \<or> Q w) m X"
  unfolding cleanup_def by blast

lemma cleanup_fails:
  assumes "\<And>w. P w \<Longrightarrow> m w = (Inl e, w)" and "\<And>w. P w \<Longrightarrow> X e w"
  shows "cleanup P (andthen m k) X"
  using assms by (simp add: cleanup_def wp_andthen wp_def [of m])

lemma hoare_disj: "hoare b P m Q X \<Longrightarrow> hoare b P' m Q X \<Longrightarrow> hoare b (\<lambda>w. P w \<or> P' w) m Q X"
  unfolding hoare_def by blast

lemma hoare_catch:
  assumes m: "hoare b P m Q Y" and h: "\<And>e. e \<noteq> Crashed \<Longrightarrow> cleanup (Y e) (h e) X"
    and c: "\<And>w. Y Crashed w \<Longrightarrow> X Crashed w"
  shows "hoare b P (catch (\<lambda>_. True) m h) Q X"
  unfolding hoare_def wp_catch
proof (intro allI impI)
  fix w assume w: "fm b w \<and> P w"
  have m': "wp m (\<lambda>x w'. fm b w' \<and> Q x w') (\<lambda>e w'. b \<and> fm False w' \<and> Y e w') w"
    using m w unfolding hoare_def by blast
  show "wp m (\<lambda>x w'. fm b w' \<and> Q x w')
      (\<lambda>e s'. if e \<noteq> Crashed \<and> True
        then wp (h e) (\<lambda>x w'. fm b w' \<and> Q x w') (\<lambda>e w'. b \<and> fm False w' \<and> X e w') s'
        else b \<and> fm False s' \<and> X e s') w"
  proof (rule wp_mono [OF m'])
    fix e w' assume y: "b \<and> fm False w' \<and> Y e w'"
    have "wp (h e) (\<lambda>x w'. fm b w' \<and> Q x w') (\<lambda>e w'. b \<and> fm False w' \<and> X e w') w'" if "e \<noteq> Crashed"
    proof (rule wp_mono)
      show "wp (h e) (\<lambda>_ _. False) (\<lambda>e w'. fm False w' \<and> X e w') w'"
        using h [OF that] y unfolding cleanup_def by blast
    qed (use y in auto)
    then show "if e \<noteq> Crashed \<and> True
        then wp (h e) (\<lambda>x w'. fm b w' \<and> Q x w') (\<lambda>e w'. b \<and> fm False w' \<and> X e w') w'
        else b \<and> fm False w' \<and> X e w'"
      using y c by auto
  qed blast
qed

lemma hoare_raise_never: "(\<And>w. \<not> P w) \<Longrightarrow> hoare b P m Q X"
  by (simp add: hoare_def)

section \<open>One durable effect\<close>

definition stable :: "(store \<Rightarrow> bool) \<Rightarrow> bool" where
  "stable P \<longleftrightarrow> (\<forall>w l. P w \<longrightarrow> P (w\<lparr>schedule := l\<rparr>))"

lemma hoare_effect:
  assumes st: "stable P" and f: "\<And>w. P w \<Longrightarrow> P' (f w)" and sch: "\<And>w. schedule (f w) = schedule w"
    and X: "\<And>w. P w \<Longrightarrow> X e w" "\<And>w. P w \<Longrightarrow> X Crashed w" "\<And>w. P' w \<Longrightarrow> X e w"
  shows "hoare b P (effect e f) (\<lambda>_. P') X"
  unfolding hoare_def
proof (intro allI impI)
  fix w assume w: "fm b w \<and> P w"
  have P: "P (w\<lparr>schedule := l\<rparr>)" for l using w st by (simp add: stable_def)
  show "wp (effect e f) (\<lambda>_ w'. fm b w' \<and> P' w') (\<lambda>e w'. b \<and> fm False w' \<and> X e w') w"
  proof (cases "schedule w")
    case Nil
    then show ?thesis using w f by (simp add: wp_def effect_def fm_def sch)
  next
    case (Cons x l)
    then have b: "b" and l: "single_fault l" "x \<noteq> Ok \<longrightarrow> l = []"
      using w single_fault_Cons [of x l] by (simp_all add: fm_def split: if_splits)
    show ?thesis
      using b l f [OF P [of l]] X P [of l]
      by (cases x) (simp_all add: wp_def effect_def Cons fm_def sch)
  qed
qed

lemma wp_time_ns [wp_simps]: "wp time_ns Q E w = Q (clock w) (w\<lparr>clock := clock w + 1\<rparr>)"
  by (simp add: wp_def time_ns_def)

lemma hoare_time_ns:
  assumes "\<And>w t. P w \<Longrightarrow> P (w\<lparr>clock := t\<rparr>)" and "\<And>t. hoare b P (g t) Q X"
  shows "hoare b P (bind time_ns g) Q X"
  using assms unfolding hoare_def wp_bind wp_time_ns by (simp add: fm_def)

section \<open>How the state updates read\<close>

lemma sess_entry_set_entry [simp]:
  "sess_entry (set_entry k n x w) k' m =
     (if k' = k \<and> m = n \<and> sessions w k \<noteq> None then Some x else sess_entry w k' m)"
  by (cases "sessions w k") (auto simp: sess_entry_def set_entry_def upd_sess_def)

lemma sess_entry_del_entry [simp]:
  "sess_entry (del_entry k n w) k' m = (if k' = k \<and> m = n then None else sess_entry w k' m)"
  by (cases "sessions w k") (auto simp: sess_entry_def del_entry_def upd_sess_def)

lemma entry_updates [simp]:
  "schedule (set_entry k n x w) = schedule w" "schedule (del_entry k n w) = schedule w"
  "index_files (set_entry k n x w) = index_files w" "index_files (del_entry k n w) = index_files w"
  "txn_files (set_entry k n x w) = txn_files w" "txn_files (del_entry k n w) = txn_files w"
  "receipt_files (set_entry k n x w) = receipt_files w" "receipt_files (del_entry k n w) = receipt_files w"
  "outside (set_entry k n x w) = outside w" "outside (del_entry k n w) = outside w"
  "map_option cps (sessions (set_entry k n x w) k') = map_option cps (sessions w k')"
  "map_option cps (sessions (del_entry k n w) k') = map_option cps (sessions w k')"
  "k' \<noteq> k \<Longrightarrow> sessions (set_entry k n x w) k' = sessions w k'"
  "k' \<noteq> k \<Longrightarrow> sessions (del_entry k n w) k' = sessions w k'"
  by (simp_all add: set_entry_def del_entry_def upd_sess_def option.map_comp comp_def)

lemma entry_updates_exists [simp]:
  "(\<exists>y. sessions (del_entry k n w) k' = Some y) \<longleftrightarrow> (\<exists>y. sessions w k' = Some y)"
  "(\<exists>y. sessions (set_entry k n x w) k' = Some y) \<longleftrightarrow> (\<exists>y. sessions w k' = Some y)"
  by (auto simp: set_entry_def del_entry_def upd_sess_def)

lemma sess_entry_fields [simp]:
  "sess_entry (w\<lparr>schedule := l\<rparr>) = sess_entry w" "sess_entry (w\<lparr>clock := t\<rparr>) = sess_entry w"
  "sess_entry (w\<lparr>txn_files := f\<rparr>) = sess_entry w" "sess_entry (w\<lparr>index_files := g\<rparr>) = sess_entry w"
  "sess_entry (w\<lparr>receipt_files := h\<rparr>) = sess_entry w" "sess_entry (w\<lparr>event_logs := ev\<rparr>) = sess_entry w"
  "sess_entry (w\<lparr>lock_files := lf\<rparr>) = sess_entry w" "sess_entry (w\<lparr>outside := ou\<rparr>) = sess_entry w"
  by (simp_all add: sess_entry_def fun_eq_iff)

lemma cps_entries_eq: "map_option cps (sessions w k) = Some (CpsDir d) \<Longrightarrow> cps_entries w k = d"
  by (auto simp: cps_entries_def)

end
