(* ===== verification/Rollback_Recovery.thy ===== *)
theory Rollback_Recovery
  imports Fault_Logic
begin

text \<open>
  Crash safety of \<^verbatim>\<open>WorkspaceStore.rollback\<close>: the durable states a rollback passes
  through, what \<^verbatim>\<open>_recover_session\<close> makes of each of them, and the theorem that a
  single fault anywhere in a rollback leaves a state from which recovery reaches either the
  workspace and lineage before the rollback or the finished rollback.
\<close>

section \<open>A rollback and its durable states\<close>

text \<open>Workspaces that differ in sockets and FIFOs under \<open>.allox-tmp\<close> only.\<close>

definition work_of :: "dirlist \<Rightarrow> dirlist" where
  "work_of t = map (\<lambda>(n, x). (n, if n = TMP_NAME then prune x else x)) t"

definition wf_work :: "dirlist \<Rightarrow> bool" where
  "wf_work t \<longleftrightarrow> distinct (dict_keys t) \<and> wf_list t"

text \<open>The data of one rollback: its arguments, the session it starts from, the checkpoint tree.\<close>

record rb =
  rb_agent :: string
  rb_session :: string
  rb_cid :: string
  rb_token :: string
  rb_origin :: string
  rb_defer :: bool
  rb_scrub :: bool
  rb_rid :: "string option"
  rb_old :: dirlist
  rb_new :: dirlist
  rb_cps :: "(string, node) dict"
  rb_idx :: checkpoint_index
  rb_w0 :: store

abbreviation rb_key :: "rb \<Rightarrow> skey" where
  "rb_key p \<equiv> (rb_agent p, rb_session p)"

definition rname :: "rb \<Rightarrow> string" where
  "rname p = ''.restore-'' @ rb_token p"

definition dname :: "rb \<Rightarrow> string" where
  "dname p = ''.discard-'' @ rb_token p"

definition cp_ids :: "(string, node) dict \<Rightarrow> string list" where
  "cp_ids d = map fst (filter (\<lambda>(n, x). n_dir (Some x) \<and> \<not> n_symlink (Some x)) d)"

definition rb_ok :: "rb \<Rightarrow> bool" where
  "rb_ok p \<longleftrightarrow>
     ID_RE_fullmatch (rb_agent p) \<and> ID_RE_fullmatch (rb_session p) \<and> ID_RE_fullmatch (rb_cid p) \<and>
     CHR ''/'' \<notin> set (rb_token p) \<and> CHR 0x00 \<notin> set (rb_token p) \<and>
     (case rb_rid p of None \<Rightarrow> \<not> rb_defer p | Some r \<Rightarrow> rb_defer p \<and> ID_RE_fullmatch r) \<and>
     map_of (rb_cps p) (rb_cid p) = Some (Subvol (rb_new p)) \<and> wf_work (rb_new p) \<and>
     wf_index (rb_idx p) \<and> synced (rb_idx p) (cp_ids (rb_cps p))"

text \<open>A transaction document of this rollback, in a given phase.\<close>

definition txn_like :: "rb \<Rightarrow> string \<Rightarrow> jdict \<Rightarrow> bool" where
  "txn_like p ph t \<longleftrightarrow>
     jget t ''version'' = JInt (if rb_defer p then 2 else 1) \<and> jget t ''phase'' = JStr ph \<and>
     jget t ''checkpoint_id'' = JStr (rb_cid p) \<and> jget t ''restore_name'' = JStr (rname p) \<and>
     jget t ''discard_name'' = JStr (dname p) \<and> jget t ''scrub_runtime'' = JBool (rb_scrub p) \<and>
     (rb_defer p \<longrightarrow> jget t ''defer_cleanup'' = JBool True \<and> jget t ''recovery_id'' = dict_of_opt (rb_rid p))"

definition moved :: "rb \<Rightarrow> checkpoint_index \<Rightarrow> bool" where
  "moved p j \<longleftrightarrow> wf_index j \<and> synced j (cp_ids (rb_cps p)) \<and> head j = Some (rb_cid p) \<and>
     view j = l_move (view (rb_idx p)) (rb_cid p)"

definition txn_in :: "rb \<Rightarrow> string option \<Rightarrow> jfile option \<Rightarrow> bool" where
  "txn_in p ph f \<longleftrightarrow> (case ph of None \<Rightarrow> f = None
     | Some x \<Rightarrow> \<exists>t. f = Some (JsonFile (JObj t)) \<and> txn_like p x t)"

text \<open>
  The durable state of the session: transaction phase, \<open>current\<close>, restore and discard
  subvolumes, index. Everything else about the session and all other sessions are as at the start.
\<close>

definition sst ::
  "rb \<Rightarrow> string option \<Rightarrow> node option \<Rightarrow> node option \<Rightarrow> node option \<Rightarrow> checkpoint_index \<Rightarrow> store \<Rightarrow> bool" where
  "sst p ph cur res dis j w \<longleftrightarrow>
     txn_in p ph (txn_files w (rb_key p)) \<and>
     current_node w (rb_key p) = cur \<and> sess_entry w (rb_key p) (rname p) = res \<and>
     sess_entry w (rb_key p) (dname p) = dis \<and>
     map_option cps (sessions w (rb_key p)) = Some (CpsDir (rb_cps p)) \<and>
     index_files w (rb_key p) = Some (JsonFile (JObj (to_dict j))) \<and>
     (\<forall>n. n \<notin> {''current'', rname p, dname p} \<longrightarrow> sess_entry w (rb_key p) n = sess_entry (rb_w0 p) (rb_key p) n) \<and>
     (\<forall>k. k \<noteq> rb_key p \<longrightarrow> sessions w k = sessions (rb_w0 p) k \<and> index_files w k = index_files (rb_w0 p) k \<and>
        txn_files w k = txn_files (rb_w0 p) k) \<and>
     receipt_files w = receipt_files (rb_w0 p)"

text \<open>The state a rollback starts from: no transaction, no left-over subvolume, no used receipt.\<close>

definition fresh_start :: "rb \<Rightarrow> bool" where
  "fresh_start p \<longleftrightarrow>
     sst p None (Some (Subvol (rb_old p))) None None (rb_idx p) (rb_w0 p) \<and>
     (\<forall>n. startswith n ''.restore-'' \<or> startswith n ''.discard-'' \<longrightarrow> sess_entry (rb_w0 p) (rb_key p) n = None) \<and>
     (\<forall>r. rb_rid p = Some r \<longrightarrow> receipt_files (rb_w0 p) (rb_agent p, rb_session p, r) = None)"

abbreviation "old_node p \<equiv> Some (Subvol (rb_old p))"
abbreviation "new_node p \<equiv> Some (Subvol (rb_new p))"

definition is_work :: "rb \<Rightarrow> dirlist \<Rightarrow> bool" where
  "is_work p t \<longleftrightarrow> wf_work t \<and> work_of t = work_of (rb_new p)"

text \<open>The states between two effects of a rollback.\<close>

inductive flight :: "rb \<Rightarrow> store \<Rightarrow> bool" for p where
  idle: "sst p None (old_node p) None None (rb_idx p) w \<Longrightarrow> flight p w"
| preparing: "sst p (Some ''preparing'') (old_node p) res None (rb_idx p) w \<Longrightarrow>
    res = None \<or> res = new_node p \<Longrightarrow> flight p w"
| prepared: "sst p (Some ''prepared'') (old_node p) (new_node p) None (rb_idx p) w \<Longrightarrow> flight p w"
| gone: "sst p (Some ph) None (new_node p) (old_node p) (rb_idx p) w \<Longrightarrow>
    ph = ''prepared'' \<or> ph = ''old_moved'' \<Longrightarrow> flight p w"
| swapped: "sst p (Some ''old_moved'') (Some (Subvol t)) None (old_node p) j w \<Longrightarrow> is_work p t \<Longrightarrow>
    j = rb_idx p \<or> moved p j \<Longrightarrow> flight p w"
| committed: "sst p (Some ''committed'') (Some (Subvol t)) None dis j w \<Longrightarrow> is_work p t \<Longrightarrow>
    j = rb_idx p \<or> moved p j \<Longrightarrow> dis = None \<or> dis = old_node p \<Longrightarrow> \<not> rb_defer p \<Longrightarrow> flight p w"
| pending: "sst p (Some ''committed'') (Some (Subvol t)) None (old_node p) j w \<Longrightarrow> is_work p t \<Longrightarrow>
    moved p j \<Longrightarrow> rb_defer p \<Longrightarrow> flight p w"
| finished: "sst p None (Some (Subvol t)) None None j w \<Longrightarrow> is_work p t \<Longrightarrow> moved p j \<Longrightarrow>
    \<not> rb_defer p \<Longrightarrow> flight p w"

text \<open>The two outcomes recovery may end in: nothing happened, or the rollback happened.\<close>

definition rolled_back :: "rb \<Rightarrow> store \<Rightarrow> bool" where
  "rolled_back p w \<longleftrightarrow> (\<exists>t j. is_work p t \<and> moved p j \<and>
     sst p (if rb_defer p then Some ''committed'' else None) (Some (Subvol t)) None
       (if rb_defer p then old_node p else None) j w)"

definition untouched :: "rb \<Rightarrow> store \<Rightarrow> bool" where
  "untouched p w \<longleftrightarrow> sst p None (old_node p) None None (rb_idx p) w"

section \<open>Names and documents\<close>

lemma startswith_append [simp]: "startswith (p @ s) p"
  by (simp add: startswith_def)

lemma names_distinct [simp]:
  "rname p \<noteq> dname p" "dname p \<noteq> rname p" "rname p \<noteq> ''current''" "dname p \<noteq> ''current''"
  "''current'' \<noteq> rname p" "''current'' \<noteq> dname p"
  by (simp_all add: rname_def dname_def)

lemma rb_okD:
  assumes "rb_ok p"
  shows "ID_RE_fullmatch (rb_agent p)" "ID_RE_fullmatch (rb_session p)" "ID_RE_fullmatch (rb_cid p)"
    "CHR ''/'' \<notin> set (rb_token p)" "CHR 0x00 \<notin> set (rb_token p)"
    "rb_rid p = Some r \<Longrightarrow> rb_defer p \<and> ID_RE_fullmatch r" "rb_rid p = None \<longleftrightarrow> \<not> rb_defer p"
    "map_of (rb_cps p) (rb_cid p) = Some (Subvol (rb_new p))" "wf_work (rb_new p)"
    "wf_index (rb_idx p)" "synced (rb_idx p) (cp_ids (rb_cps p))"
  using assms by (auto simp: rb_ok_def split: option.splits)

lemma cid_in_ids: "rb_ok p \<Longrightarrow> rb_cid p \<in> set (cp_ids (rb_cps p))"
  using rb_okD(8) [of p] by (force simp: cp_ids_def dest: map_of_SomeD)

lemma is_work_new: "rb_ok p \<Longrightarrow> is_work p (rb_new p)"
  by (simp add: is_work_def rb_okD)

lemma txn_like_start:
  "txn_like p ''preparing''
     (rollback_txn (rb_defer p) (rb_cid p) (rb_token p) (rb_scrub p) (rb_origin p) (rb_rid p))"
  by (simp add: txn_like_def rollback_txn_def dict_get_def rname_def dname_def)

lemma txn_like_phase [simp]: "txn_like p ph t \<Longrightarrow> txn_like p ph' (set_phase ph' t)"
  by (simp add: txn_like_def)

lemma txn_like_committed:
  "txn_like p ph t \<Longrightarrow> txn_like p ''committed'' (dict_set ''committed_at_ns'' v
     (dict_set ''removed_runtime_entries'' u (set_phase ''committed'' t)))"
  by (simp add: txn_like_def)

lemma control_key_rb [simp]: "rb_ok p \<Longrightarrow> control_key (rb_agent p) (rb_session p) = Inr (rb_key p)"
  by (simp add: rb_okD)

lemma stable_sst: "stable (sst p ph cur res dis j)"
  by (simp add: stable_def sst_def)

lemma sst_clock: "sst p ph cur res dis j w \<Longrightarrow> sst p ph cur res dis j (w\<lparr>clock := t\<rparr>)"
  by (simp add: sst_def)

lemma sst_session: "sst p ph cur res dis j w \<Longrightarrow> sessions w (rb_key p) \<noteq> None"
  by (auto simp: sst_def)

lemma txn_in_None [simp]: "txn_in p None f \<longleftrightarrow> f = None"
  by (simp add: txn_in_def)

lemma txn_in_file [simp]: "txn_in p (Some ph) (Some (JsonFile (JObj t))) \<longleftrightarrow> txn_like p ph t"
  by (simp add: txn_in_def)

section \<open>Rules of the effects\<close>

definition covers :: "(error \<Rightarrow> store \<Rightarrow> bool) \<Rightarrow> (store \<Rightarrow> bool) \<Rightarrow> bool" where
  "covers X P \<longleftrightarrow> (\<forall>e w. P w \<longrightarrow> X e w)"

lemma hoare_effect_sst:
  assumes "\<And>w. sst p ph cur res dis j w \<Longrightarrow> P' (f w)" and "\<And>w. schedule (f w) = schedule w"
    and "covers X (sst p ph cur res dis j)" and "covers X P'"
  shows "hoare b (sst p ph cur res dis j) (effect e f) (\<lambda>_. P') X"
  by (rule hoare_effect [OF stable_sst]) (use assms in \<open>simp_all add: covers_def\<close>)

lemma hoare_write_txn:
  assumes "rb_ok p" and "txn_like p ph' t"
    and "covers X (sst p ph cur res dis j)" and "covers X (sst p (Some ph') cur res dis j)"
  shows "hoare b (sst p ph cur res dis j) (write_transaction (rb_agent p) (rb_session p) t)
           (\<lambda>_. sst p (Some ph') cur res dis j) X"
  unfolding write_transaction_def
  by (rule hoare_lift [OF control_key_rb [OF assms(1)]], rule hoare_effect_sst)
     (use assms in \<open>auto simp: write_txn_file_def sst_def\<close>)

lemma hoare_clear_txn:
  assumes "rb_ok p" and "covers X (sst p ph cur res dis j)" and "covers X (sst p None cur res dis j)"
  shows "hoare b (sst p ph cur res dis j) (clear_transaction (rb_agent p) (rb_session p))
           (\<lambda>_. sst p None cur res dis j) X"
  unfolding clear_transaction_def
  by (rule hoare_lift [OF control_key_rb [OF assms(1)]], rule hoare_effect_sst)
     (use assms in \<open>auto simp: clear_txn_file_def sst_def\<close>)

lemma hoare_save_index:
  assumes "rb_ok p" and "covers X (sst p ph cur res dis j)" and "covers X (sst p ph cur res dis j')"
  shows "hoare b (sst p ph cur res dis j) (save_index (rb_agent p) (rb_session p) j')
           (\<lambda>_. sst p ph cur res dis j') X"
  unfolding save_index_def
  by (rule hoare_lift [OF control_key_rb [OF assms(1)]], rule hoare_effect_sst)
     (use assms in \<open>auto simp: write_index_file_def sst_def\<close>)

lemma hoare_append_event:
  assumes "rb_ok p" and "covers X (sst p ph cur res dis j)"
  shows "hoare b (sst p ph cur res dis j)
           (append_event ev (Some (rb_agent p)) (Some (rb_session p))) (\<lambda>_. sst p ph cur res dis j) X"
proof -
  have k: "event_key (Some (rb_agent p)) (Some (rb_session p)) = Inr (Some (rb_agent p), Some (rb_session p))"
    using rb_okD(1,2) [OF assms(1)] by (simp add: event_key_def bindR_eq_Inr)
  show ?thesis
    unfolding append_event_def Let_def
    by (rule hoare_lift [OF k], rule hoare_time_ns, erule sst_clock, rule hoare_effect_sst)
       (use assms in \<open>auto simp: sst_def\<close>)
qed

lemma hoare_lock:
  assumes "rb_ok p" and "covers X (sst p ph cur res dis j)"
    and "hoare b (sst p ph cur res dis j) body Q X"
  shows "hoare b (sst p ph cur res dis j) (session_lock (rb_agent p) (rb_session p) body) Q X"
  unfolding session_lock_def
  by (rule hoare_lift [OF control_key_rb [OF assms(1)]], rule hoare_andthen [OF hoare_effect_sst assms(3)])
     (use assms in \<open>auto simp: sst_def\<close>)

text \<open>The three renames and the deletions.\<close>

lemma hoare_rename:
  assumes P: "\<And>w. sst p ph cur res dis j w \<Longrightarrow> sess_entry w (rb_key p) m = Some v \<and> sess_entry w (rb_key p) n = None"
    and f: "\<And>w. sst p ph cur res dis j w \<Longrightarrow> P' (set_entry (rb_key p) n v (del_entry (rb_key p) m w))"
    and c: "covers X (sst p ph cur res dis j)" "covers X P'"
  shows "hoare b (sst p ph cur res dis j) (rename_entry (rb_key p) m n) (\<lambda>_. P') X"
  unfolding rename_entry_def
  by (rule hoare_gets_eq [where v = "(Some v, None)"])
     (use P in simp, simp, rule hoare_effect_sst [OF f _ c], simp_all)

lemma hoare_rename_away:
  assumes "covers X (sst p ph (Some v) res None j)" and "covers X (sst p ph None res (Some v) j)"
  shows "hoare b (sst p ph (Some v) res None j) (rename_entry (rb_key p) ''current'' (dname p))
           (\<lambda>_. sst p ph None res (Some v) j) X"
  by (rule hoare_rename [where v = v]) (use assms in \<open>auto simp: sst_def\<close>)

lemma hoare_rename_back:
  assumes "covers X (sst p ph None res (Some v) j)" and "covers X (sst p ph (Some v) res None j)"
  shows "hoare b (sst p ph None res (Some v) j) (rename_entry (rb_key p) (dname p) ''current'')
           (\<lambda>_. sst p ph (Some v) res None j) X"
  by (rule hoare_rename [where v = v]) (use assms in \<open>auto simp: sst_def\<close>)

lemma hoare_rename_in:
  assumes "covers X (sst p ph None (Some v) dis j)" and "covers X (sst p ph (Some v) None dis j)"
  shows "hoare b (sst p ph None (Some v) dis j) (rename_entry (rb_key p) (rname p) ''current'')
           (\<lambda>_. sst p ph (Some v) None dis j) X"
  by (rule hoare_rename [where v = v]) (use assms in \<open>auto simp: sst_def\<close>)

lemma hoare_delete:
  assumes P: "\<And>w. sst p ph cur res dis j w \<Longrightarrow> sess_entry w (rb_key p) n = Some (Subvol t)"
    and f: "\<And>w. sst p ph cur res dis j w \<Longrightarrow> P' (del_entry (rb_key p) n w)"
    and c: "covers X (sst p ph cur res dis j)" "covers X P'"
  shows "hoare b (sst p ph cur res dis j) (delete_subvolume (rb_key p) n) (\<lambda>_. P') X"
  unfolding delete_subvolume_def run_btrfs_def
  by (rule hoare_gets_eq [OF P], assumption, simp, rule hoare_effect_sst [OF f _ c], simp_all)

lemma hoare_delete_discard:
  assumes "covers X (sst p ph cur res (Some (Subvol t)) j)" and "covers X (sst p ph cur res None j)"
  shows "hoare b (sst p ph cur res (Some (Subvol t)) j) (delete_subvolume (rb_key p) (dname p))
           (\<lambda>_. sst p ph cur res None j) X"
  by (rule hoare_delete) (use assms in \<open>auto simp: sst_def\<close>)

lemma hoare_delete_restore:
  assumes "covers X (sst p ph cur (Some (Subvol t)) dis j)" and "covers X (sst p ph cur None dis j)"
  shows "hoare b (sst p ph cur (Some (Subvol t)) dis j) (delete_subvolume (rb_key p) (rname p))
           (\<lambda>_. sst p ph cur None dis j) X"
  by (rule hoare_delete) (use assms in \<open>auto simp: sst_def\<close>)

lemma hoare_snapshot:
  assumes "rb_ok p" and "covers X (sst p ph cur None dis j)" and "covers X (sst p ph cur (new_node p) dis j)"
  shows "hoare b (sst p ph cur None dis j) (snapshot_restore (rb_key p) (rb_cid p) (rname p))
           (\<lambda>_. sst p ph cur (new_node p) dis j) X"
  unfolding snapshot_restore_def run_btrfs_def
  by (rule hoare_gets_eq [where v = "(new_node p, None)"])
     (use rb_okD(8) [OF assms(1)] in \<open>force simp: sst_def cps_entries_def\<close>, simp,
      rule hoare_effect_sst, use assms in \<open>auto simp: sst_def\<close>)

section \<open>Reading the control files\<close>

lemma load_index_sst:
  assumes "rb_ok p" and "wf_index j" and "synced j (cp_ids (rb_cps p))" and "sst p ph cur res dis j w"
  shows "load_index (rb_agent p) (rb_session p) w = (Inr j, w)"
proof -
  have cpp: "checkpoints_path (rb_agent p) (rb_session p) =
      Inr (''agents/'' @ rb_agent p @ ''/workspace/sessions/'' @ rb_session p @ ''/checkpoints'')"
    using rb_okD(1,2) [OF assms(1)] by (simp add: checkpoints_path_def bindR_eq_Inr)
  have "actual_checkpoint_ids (rb_agent p) (rb_session p) w = (Inr (cp_ids (rb_cps p)), w)"
    using assms(4) cpp by (auto simp: actual_checkpoint_ids_def io_defs sst_def cp_ids_def)
  moreover have "index_files w (rb_key p) = Some (JsonFile (JObj (to_dict j)))"
    using assms(4) by (simp add: sst_def)
  ultimately show ?thesis
    using assms(1) synced_reconcile [OF wf_indexD(1) [OF assms(2)] assms(3)]
    by (simp add: load_index_def io_defs parse_index_def from_dict_to_dict)
qed

lemma idle_index: "rb_ok p \<Longrightarrow> j = rb_idx p \<or> moved p j \<Longrightarrow> wf_index j \<and> synced j (cp_ids (rb_cps p))"
  by (auto simp: moved_def rb_okD)

lemma hoare_load_index:
  assumes "rb_ok p" and "j = rb_idx p \<or> moved p j" and "hoare b (sst p ph cur res dis j) (g j) Q X"
  shows "hoare b (sst p ph cur res dis j) (bind (load_index (rb_agent p) (rb_session p)) g) Q X"
proof (rule hoare_pure [where v = j])
  show "load_index (rb_agent p) (rb_session p) w = (Inr j, w)" if "sst p ph cur res dis j w" for w
    using load_index_sst [OF assms(1) _ _ that] idle_index [OF assms(1,2)] by simp
qed (rule assms(3))

lemma hoare_load_txn_None:
  assumes "rb_ok p" and "hoare b (sst p None cur res dis j) (g None) Q X"
  shows "hoare b (sst p None cur res dis j) (bind (load_transaction (rb_agent p) (rb_session p)) g) Q X"
  by (rule hoare_pure [where v = None]) (use assms in \<open>simp_all add: load_transaction_def io_defs sst_def\<close>)

lemma hoare_load_txn:
  assumes ok: "rb_ok p" and g: "\<And>t. txn_like p ph t \<Longrightarrow> hoare b (sst p (Some ph) cur res dis j) (g (Some t)) Q X"
  shows "hoare b (sst p (Some ph) cur res dis j) (bind (load_transaction (rb_agent p) (rb_session p)) g) Q X"
  unfolding hoare_def wp_bind
proof (intro allI impI)
  fix w assume w: "fm b w \<and> sst p (Some ph) cur res dis j w"
  then obtain t where t: "txn_files w (rb_key p) = Some (JsonFile (JObj t))" "txn_like p ph t"
    by (auto simp: sst_def txn_in_def)
  have "load_transaction (rb_agent p) (rb_session p) w = (Inr (Some t), w)"
    using ok t by (simp add: load_transaction_def io_defs)
  then show "wp (load_transaction (rb_agent p) (rb_session p))
      (\<lambda>x. wp (g x) (\<lambda>y w'. fm b w' \<and> Q y w') (\<lambda>e w'. b \<and> fm False w' \<and> X e w'))
      (\<lambda>e w'. b \<and> fm False w' \<and> X e w') w"
    using g [OF t(2)] w by (simp add: wp_def [of "load_transaction _ _"] hoare_def)
qed

lemma hoare_load_receipt:
  assumes "rb_ok p" and "fresh_start p" and "rb_rid p = Some r"
    and "hoare b (sst p ph cur res dis j) (g None) Q X"
  shows "hoare b (sst p ph cur res dis j) (bind (load_recovery_receipt (rb_agent p) (rb_session p) r) g) Q X"
proof (rule hoare_pure [where v = None])
  fix w assume "sst p ph cur res dis j w"
  then have "receipt_files w (rb_agent p, rb_session p, r) = None"
    using assms(2,3) by (simp add: sst_def fresh_start_def)
  then show "load_recovery_receipt (rb_agent p) (rb_session p) r w = (Inr None, w)"
    using rb_okD(6) [OF assms(1,3)] assms(1)
    by (simp add: load_recovery_receipt_def recovery_receipt_key_def io_defs)
qed (rule assms(4))

section \<open>Scrubbing the current workspace\<close>

lemma work_of_set_tmp:
  assumes "map_of t TMP_NAME = Some x" and "prune y = prune x"
  shows "work_of (dict_set TMP_NAME y t) = work_of t"
  using assms(1) by (induction t) (auto simp: work_of_def assms(2) split: if_splits)

definition scrubbing :: "rb \<Rightarrow> string option \<Rightarrow> node option \<Rightarrow> checkpoint_index \<Rightarrow> store \<Rightarrow> bool" where
  "scrubbing p ph dis j w \<longleftrightarrow> (\<exists>t. is_work p t \<and> sst p ph (Some (Subvol t)) None dis j w)"

lemma stable_scrubbing: "stable (scrubbing p ph dis j)"
  using stable_sst unfolding stable_def scrubbing_def by blast

lemma unlink_keeps_work:
  assumes "is_work p t" and "map_of t TMP_NAME = Some x" and "removable q x"
  shows "is_work p (dict_set TMP_NAME (unlink_at q x) t)"
proof -
  have wf: "wf_list t" "distinct (dict_keys t)" using assms(1) by (simp_all add: is_work_def wf_work_def)
  have x: "wf_tree x" by (rule wf_list_lookup [OF wf(1) assms(2)])
  from unlink_removable [OF assms(3) x] show ?thesis
    using assms(1) wf work_of_set_tmp [OF assms(2), of "unlink_at q x"]
    by (simp add: is_work_def wf_work_def wf_list_set)
qed

lemma hoare_unlink_loop:
  assumes c: "covers X (scrubbing p ph dis j)"
  shows "hoare b (\<lambda>w. \<exists>t x. is_work p t \<and> sst p ph (Some (Subvol t)) None dis j w \<and>
             map_of t TMP_NAME = Some x \<and> (\<forall>q \<in> set ps. removable q x))
           (forM ps (\<lambda>q. effect io_error (unlink_current (rb_key p) q))) (\<lambda>_. scrubbing p ph dis j) X"
    (is "hoare b ?I _ _ X")
proof (rule hoare_weaken [where Q = "\<lambda>_. ?I" and P = ?I and X = X])
  have st: "stable ?I" unfolding stable_def using stable_sst unfolding stable_def by blast
  have XI: "covers X ?I" using c unfolding covers_def scrubbing_def by blast
  show "hoare b ?I (forM ps (\<lambda>q. effect io_error (unlink_current (rb_key p) q))) (\<lambda>_. ?I) X"
  proof (rule hoare_forM, rule hoare_effect [OF st])
    fix q w assume q: "q \<in> set ps" and "?I w"
    then obtain t x where t: "is_work p t" "sst p ph (Some (Subvol t)) None dis j w" "map_of t TMP_NAME = Some x"
      "\<forall>q \<in> set ps. removable q x" by blast
    let ?t = "dict_set TMP_NAME (unlink_at q x) t"
    have "unlink_current (rb_key p) q w = set_entry (rb_key p) ''current'' (Subvol ?t) w"
      using t(2,3) by (simp add: unlink_current_def sst_def)
    moreover have "sst p ph (Some (Subvol ?t)) None dis j (set_entry (rb_key p) ''current'' (Subvol ?t) w)"
      using t(2) by (auto simp: sst_def)
    moreover have "is_work p ?t" by (rule unlink_keeps_work) (use t q in auto)
    moreover have "\<forall>q' \<in> set ps. removable q' (unlink_at q x)" using t(4) removable_unlink by blast
    ultimately show "?I (unlink_current (rb_key p) q w)"
      by (intro exI [of _ ?t] exI [of _ "unlink_at q x"]) simp
  qed (use XI in \<open>auto simp: covers_def unlink_current_def split: option.splits node.splits\<close>)
qed (auto simp: scrubbing_def)

lemma hoare_scrub:
  assumes c: "covers X (scrubbing p ph dis j)"
  shows "hoare b (scrubbing p ph dis j) (scrub_runtime_entries (rb_key p)) (\<lambda>_. scrubbing p ph dis j) X"
  unfolding scrub_runtime_entries_def
proof (rule hoare_gets, goal_cases)
  case (1 tmp)
  let ?P = "\<lambda>w. scrubbing p ph dis j w \<and>
    (case current_node w (rb_key p) of Some (Subvol t) \<Rightarrow> map_of t TMP_NAME | _ \<Rightarrow> None) = tmp"
  show ?case
  proof (cases "\<exists>d. tmp = Some (DirEntry d)")
    case True
    then obtain d where d: "tmp = Some (DirEntry d)" by blast
    let ?I = "\<lambda>w. \<exists>t x. is_work p t \<and> sst p ph (Some (Subvol t)) None dis j w \<and>
             map_of t TMP_NAME = Some x \<and> (\<forall>q \<in> set (walk_tree [] (DirEntry d)). removable q x)"
    have "?I w" if P: "?P w" for w
    proof -
      obtain t where t: "is_work p t" "sst p ph (Some (Subvol t)) None dis j w"
        using P by (auto simp: scrubbing_def)
      then have x: "map_of t TMP_NAME = Some (DirEntry d)" using P d by (simp add: sst_def)
      have "wf_tree (DirEntry d)"
        using t(1) wf_list_lookup [OF _ x] by (simp add: is_work_def wf_work_def)
      then have "\<forall>q \<in> set (walk_tree [] (DirEntry d)). removable q (DirEntry d)"
        using walk_runtime runtime_removable by blast
      with t x show ?thesis by blast
    qed
    then have "hoare b ?P (forM (walk_tree [] (DirEntry d)) (\<lambda>q. effect io_error (unlink_current (rb_key p) q)))
        (\<lambda>_. scrubbing p ph dis j) X"
      by (rule hoare_pre [OF hoare_unlink_loop [OF c]])
    then show ?thesis
      by (simp only: d option.case tree.case Let_def) (rule hoare_andthen, assumption, rule hoare_ret, assumption)
  next
    case False
    have ext: "hoare b (scrubbing p ph dis j)
        (forM ps (\<lambda>q. effect io_error (unlink_outside tgt q))) (\<lambda>_. scrubbing p ph dis j) X" for tgt ps
      by (rule hoare_forM, rule hoare_effect [OF stable_scrubbing])
         (use c in \<open>auto simp: covers_def unlink_outside_def scrubbing_def sst_def\<close>)
    have link: "hoare b ?P (bind (gets (\<lambda>w. outside w tgt)) (\<lambda>ext. case ext of
             Some t \<Rightarrow> let ps = walk_tree [] t in
               andthen (forM ps (\<lambda>p. effect io_error (unlink_outside tgt p))) (ret (map join_path ps))
           | None \<Rightarrow> ret [])) (\<lambda>_. scrubbing p ph dis j) X" for tgt
    proof (rule hoare_gets)
      fix x
      show "hoare b (\<lambda>w. ?P w \<and> outside w tgt = x) (case x of
             Some t \<Rightarrow> let ps = walk_tree [] t in
               andthen (forM ps (\<lambda>p. effect io_error (unlink_outside tgt p))) (ret (map join_path ps))
           | None \<Rightarrow> ret []) (\<lambda>_. scrubbing p ph dis j) X"
        by (cases x) (auto simp: Let_def intro!: hoare_ret hoare_andthen [OF hoare_pre [OF ext]])
    qed
    show ?thesis
      using False link by (cases tmp) (auto intro!: hoare_ret split: tree.split)
  qed
qed

lemma hoare_scrubbing:
  "(\<And>t. is_work p t \<Longrightarrow> hoare b (sst p ph (Some (Subvol t)) None dis j) m Q X) \<Longrightarrow>
     hoare b (scrubbing p ph dis j) m Q X"
  unfolding hoare_def scrubbing_def by blast

section \<open>Every state of a rollback is in flight\<close>

lemma covers_flight:
  "covers (\<lambda>_. flight p) (sst p None (old_node p) None None (rb_idx p))"
  "covers (\<lambda>_. flight p) (sst p (Some ''preparing'') (old_node p) None None (rb_idx p))"
  "covers (\<lambda>_. flight p) (sst p (Some ''preparing'') (old_node p) (new_node p) None (rb_idx p))"
  "covers (\<lambda>_. flight p) (sst p (Some ''prepared'') (old_node p) (new_node p) None (rb_idx p))"
  "covers (\<lambda>_. flight p) (sst p (Some ''prepared'') None (new_node p) (old_node p) (rb_idx p))"
  "covers (\<lambda>_. flight p) (sst p (Some ''old_moved'') None (new_node p) (old_node p) (rb_idx p))"
  "is_work p t \<Longrightarrow> j = rb_idx p \<or> moved p j \<Longrightarrow>
     covers (\<lambda>_. flight p) (sst p (Some ''old_moved'') (Some (Subvol t)) None (old_node p) j)"
  "is_work p t \<Longrightarrow> j = rb_idx p \<or> moved p j \<Longrightarrow> \<not> rb_defer p \<Longrightarrow>
     covers (\<lambda>_. flight p) (sst p (Some ''committed'') (Some (Subvol t)) None (old_node p) j)"
  "is_work p t \<Longrightarrow> j = rb_idx p \<or> moved p j \<Longrightarrow> \<not> rb_defer p \<Longrightarrow>
     covers (\<lambda>_. flight p) (sst p (Some ''committed'') (Some (Subvol t)) None None j)"
  "is_work p t \<Longrightarrow> moved p j \<Longrightarrow> rb_defer p \<Longrightarrow>
     covers (\<lambda>_. flight p) (sst p (Some ''committed'') (Some (Subvol t)) None (old_node p) j)"
  "is_work p t \<Longrightarrow> moved p j \<Longrightarrow> \<not> rb_defer p \<Longrightarrow>
     covers (\<lambda>_. flight p) (sst p None (Some (Subvol t)) None None j)"
  by (simp_all add: covers_def flight.idle flight.preparing flight.prepared flight.gone flight.swapped
      flight.committed flight.pending flight.finished)

lemma covers_scrubbing:
  "j = rb_idx p \<or> moved p j \<Longrightarrow> covers (\<lambda>_. flight p) (scrubbing p (Some ''old_moved'') (old_node p) j)"
  "j = rb_idx p \<or> moved p j \<Longrightarrow> \<not> rb_defer p \<Longrightarrow>
     covers (\<lambda>_. flight p) (scrubbing p (Some ''committed'') (old_node p) j)"
  unfolding covers_def scrubbing_def
  by (auto intro: flight.swapped flight.committed [where dis = "old_node p"])

lemma covers_True [simp]: "covers (\<lambda>_ _. True) P"
  by (simp add: covers_def)

lemma moved_head:
  assumes "rb_ok p" and "j = rb_idx p \<or> moved p j"
  shows "\<exists>j'. move_head j (rb_cid p) = Inr j' \<and> moved p j'"
proof -
  have j: "wf_index j" "synced j (cp_ids (rb_cps p))" using idle_index [OF assms] by auto
  note c = cid_in_ids [OF assms(1)]
  obtain j' where j': "move_head j (rb_cid p) = Inr j'"
    using move_head_result [OF j(1) synced_keys [OF j(2) c]] by blast
  have "view j' = l_move (view j) (rb_cid p)" by (rule move_head_view(1) [OF j(1) j'])
  also have "\<dots> = l_move (view (rb_idx p)) (rb_cid p)"
    using assms(2) by (auto simp: moved_def l_move_def)
  finally show ?thesis
    using j' synced_move_head [OF j(2) c j(1) j'] by (simp add: moved_def)
qed

section \<open>The rollback itself\<close>

lemma hoare_delete_if_exists:
  assumes "covers X (sst p ph cur None dis j)" and "covers X (sst p ph cur (Some (Subvol t)) dis j)"
  shows "hoare b (\<lambda>w. sst p ph cur None dis j w \<or> sst p ph cur (Some (Subvol t)) dis j w)
           (delete_if_exists (rb_key p) (rname p)) (\<lambda>_. sst p ph cur None dis j) X"
proof (rule hoare_disj)
  show "hoare b (sst p ph cur None dis j) (delete_if_exists (rb_key p) (rname p)) (\<lambda>_. sst p ph cur None dis j) X"
    unfolding delete_if_exists_def
    by (rule hoare_gets_eq [where v = None]) (auto simp: sst_def whenM_def intro: hoare_ret)
  show "hoare b (sst p ph cur (Some (Subvol t)) dis j) (delete_if_exists (rb_key p) (rname p))
      (\<lambda>_. sst p ph cur None dis j) X"
    unfolding delete_if_exists_def
    by (rule hoare_gets_eq [where v = "Some (Subvol t)"])
       (simp add: sst_def, simp add: whenM_def hoare_delete_restore assms)
qed

lemma swap_abort_snapshot:
  assumes "rb_ok p"
  shows "cleanup (\<lambda>w. sst p (Some ''preparing'') (old_node p) None None (rb_idx p) w \<or>
             sst p (Some ''preparing'') (old_node p) (new_node p) None (rb_idx p) w)
           (andthen (delete_if_exists (rb_key p) (rname p))
             (andthen (clear_transaction (rb_agent p) (rb_session p)) (raise e))) (\<lambda>_. flight p)"
  by (rule cleanup_andthen [where Y = "\<lambda>_ _. True", OF hoare_delete_if_exists],
      simp, simp, rule cleanup_andthen [where Y = "\<lambda>_ _. True", OF hoare_clear_txn [OF assms]],
      simp, simp, rule cleanup_raise, erule flight.idle)

lemma swap_abort_rename:
  assumes "rb_ok p"
  shows "cleanup (sst p (Some ''old_moved'') None (new_node p) (old_node p) (rb_idx p))
           (andthen (rename_entry (rb_key p) (dname p) ''current'') (andthen (delete_if_exists (rb_key p) (rname p))
             (andthen (clear_transaction (rb_agent p) (rb_session p)) (raise e)))) (\<lambda>_. flight p)"
proof -
  have d: "hoare False (sst p (Some ''old_moved'') (old_node p) (new_node p) None (rb_idx p))
      (delete_if_exists (rb_key p) (rname p)) (\<lambda>_. sst p (Some ''old_moved'') (old_node p) None None (rb_idx p)) (\<lambda>_ _. True)"
    by (rule hoare_pre [OF hoare_delete_if_exists]) auto
  show ?thesis
    by (rule cleanup_andthen [where Y = "\<lambda>_ _. True", OF hoare_rename_back], simp, simp,
        rule cleanup_andthen [OF d],
        rule cleanup_andthen [where Y = "\<lambda>_ _. True", OF hoare_clear_txn [OF assms]],
        simp, simp, rule cleanup_raise, erule flight.idle)
qed

lemma rename_in_occupied:
  "sst p ph (Some v) res (Some u) j w \<Longrightarrow> rename_entry (rb_key p) (dname p) ''current'' w = (Inl io_error, w)"
  by (simp add: rename_entry_def io_defs sst_def)

definition rb_txn :: "rb \<Rightarrow> jdict" where
  "rb_txn p = rollback_txn (rb_defer p) (rb_cid p) (rb_token p) (rb_scrub p) (rb_origin p) (rb_rid p)"

lemma rb_txn_like: "txn_like p ''preparing'' (rb_txn p)"
  unfolding rb_txn_def by (rule txn_like_start)

lemma hoare_swap:
  assumes ok: "rb_ok p"
  shows "hoare b (sst p None (old_node p) None None (rb_idx p))
           (rollback_swap (rb_agent p) (rb_session p) (rb_cid p) (rb_token p) (rb_txn p))
           (\<lambda>_. sst p (Some ''old_moved'') (new_node p) None (old_node p) (rb_idx p)) (\<lambda>_. flight p)"
proof -
  note cf = covers_flight
  let ?Y1 = "\<lambda>e::error. \<lambda>w. sst p (Some ''preparing'') (old_node p) None None (rb_idx p) w \<or>
             sst p (Some ''preparing'') (old_node p) (new_node p) None (rb_idx p) w"
  let ?Y2 = "\<lambda>e::error. \<lambda>w. sst p (Some ''old_moved'') None (new_node p) (old_node p) (rb_idx p) w \<or>
             sst p (Some ''old_moved'') (new_node p) None (old_node p) (rb_idx p) w"
  have snap: "hoare b (sst p (Some ''preparing'') (old_node p) None None (rb_idx p))
      (catch (\<lambda>_. True) (snapshot_restore (rb_key p) (rb_cid p) (rname p))
         (\<lambda>e. andthen (delete_if_exists (rb_key p) (rname p))
           (andthen (clear_transaction (rb_agent p) (rb_session p)) (raise e))))
      (\<lambda>_. sst p (Some ''preparing'') (old_node p) (new_node p) None (rb_idx p)) (\<lambda>_. flight p)"
    by (rule hoare_catch [where Y = ?Y1], rule hoare_snapshot [OF ok])
       (use cf(2,3) in \<open>auto simp: covers_def intro: swap_abort_snapshot [OF ok]\<close>)
  have ren: "hoare b (sst p (Some ''old_moved'') None (new_node p) (old_node p) (rb_idx p))
      (catch (\<lambda>_. True) (rename_entry (rb_key p) (rname p) ''current'')
         (\<lambda>e. andthen (rename_entry (rb_key p) (dname p) ''current'') (andthen (delete_if_exists (rb_key p) (rname p))
           (andthen (clear_transaction (rb_agent p) (rb_session p)) (raise e)))))
      (\<lambda>_. sst p (Some ''old_moved'') (new_node p) None (old_node p) (rb_idx p)) (\<lambda>_. flight p)"
  proof (rule hoare_catch [where Y = ?Y2], rule hoare_rename_in)
    show "cleanup (?Y2 e) (andthen (rename_entry (rb_key p) (dname p) ''current'')
        (andthen (delete_if_exists (rb_key p) (rname p))
           (andthen (clear_transaction (rb_agent p) (rb_session p)) (raise e)))) (\<lambda>_. flight p)" for e
      by (rule cleanup_disj [OF swap_abort_rename [OF ok]], rule cleanup_fails, erule rename_in_occupied)
         (use cf(7) [OF is_work_new [OF ok]] in \<open>auto simp: covers_def\<close>)
  qed (use cf(6) cf(7) [OF is_work_new [OF ok]] in \<open>auto simp: covers_def\<close>)
  show ?thesis
    unfolding rollback_swap_def Let_def rname_def [symmetric] dname_def [symmetric]
    by (rule hoare_andthen [OF hoare_write_txn [OF ok rb_txn_like cf(1,2)]],
        rule hoare_andthen [OF snap],
        rule hoare_andthen [OF hoare_write_txn [OF ok txn_like_phase [OF rb_txn_like] cf(3,4)]],
        rule hoare_andthen [OF hoare_rename_away [OF cf(4,5)]],
        rule hoare_andthen [OF hoare_write_txn [OF ok txn_like_phase [OF rb_txn_like] cf(5,6)]],
        rule ren)
qed

lemma hoare_finish:
  assumes ok: "rb_ok p"
  shows "hoare b (sst p (Some ''old_moved'') (new_node p) None (old_node p) (rb_idx p))
           (rollback_finish (rb_agent p) (rb_session p) (rb_cid p) (rb_token p)
              (set_phase ''old_moved'' (rb_txn p)) (rb_scrub p) (rb_defer p) (rb_idx p))
           (\<lambda>_. rolled_back p) (\<lambda>_. flight p)"
proof -
  note cf = covers_flight
  have l: "txn_like p ''old_moved'' (set_phase ''old_moved'' (rb_txn p))"
    by (rule txn_like_phase [OF rb_txn_like])
  obtain j where j: "move_head (rb_idx p) (rb_cid p) = Inr j" "moved p j"
    using moved_head [OF ok, of "rb_idx p"] by blast
  have scrub: "hoare b (scrubbing p ph dis (rb_idx p))
      (if rb_scrub p then scrub_runtime_entries (rb_key p) else ret []) (\<lambda>_. scrubbing p ph dis (rb_idx p)) X"
    if "covers X (scrubbing p ph dis (rb_idx p))" for ph dis X
    using hoare_scrub [OF that] by (auto intro: hoare_ret)
  have start: "sst p ph (new_node p) None dis i w \<Longrightarrow> scrubbing p ph dis i w" for ph dis i w
    unfolding scrubbing_def using is_work_new [OF ok] by blast
  show ?thesis
  proof (cases "rb_defer p")
    case True
    have body: "hoare b (sst p (Some ''old_moved'') (Some (Subvol t)) None (old_node p) (rb_idx p))
       (bind (lift_res (move_head (rb_idx p) (rb_cid p))) (\<lambda>i'.
        andthen (save_index (rb_agent p) (rb_session p) i')
        (bind time_ns (\<lambda>now.
         andthen (write_transaction (rb_agent p) (rb_session p)
           (dict_set ''committed_at_ns'' (JInt now)
             (dict_set ''removed_runtime_entries'' (JList (map JStr rem))
               (set_phase ''committed'' (set_phase ''old_moved'' (rb_txn p))))))
         (ret rem))))) (\<lambda>_. rolled_back p) (\<lambda>_. flight p)" if t: "is_work p t" for t rem
      by (rule hoare_lift [OF j(1)],
          rule hoare_andthen [OF hoare_save_index [OF ok cf(7) [OF t] cf(7) [OF t]]], simp, use j in simp,
          rule hoare_time_ns, erule sst_clock,
          rule hoare_andthen [OF hoare_write_txn [OF ok txn_like_committed [OF l] cf(7) [OF t] cf(10) [OF t j(2) True]]],
          use j in simp, rule hoare_ret, use t j True in \<open>auto simp: rolled_back_def\<close>)
    show ?thesis
      unfolding rollback_finish_def Let_def if_P [OF True]
      by (rule hoare_bind [OF hoare_pre [OF scrub [OF covers_scrubbing(1)] start]], simp, assumption,
          rule hoare_scrubbing, erule body)
  next
    case False
    have body: "hoare b (sst p (Some ''committed'') (Some (Subvol t)) None (old_node p) (rb_idx p))
       (andthen (delete_subvolume (rb_key p) (dname p))
         (bind (lift_res (move_head (rb_idx p) (rb_cid p))) (\<lambda>i'.
          andthen (save_index (rb_agent p) (rb_session p) i')
          (andthen (clear_transaction (rb_agent p) (rb_session p)) (ret rem)))))
       (\<lambda>_. rolled_back p) (\<lambda>_. flight p)" if t: "is_work p t" for t rem
      by (rule hoare_andthen [OF hoare_delete_discard [OF cf(8) [OF t _ False] cf(9) [OF t _ False]]], simp, simp,
          rule hoare_lift [OF j(1)],
          rule hoare_andthen [OF hoare_save_index [OF ok cf(9) [OF t _ False] cf(9) [OF t _ False]]], simp, use j in simp,
          rule hoare_andthen [OF hoare_clear_txn [OF ok cf(9) [OF t _ False] cf(11) [OF t j(2) False]]], use j in simp,
          rule hoare_ret, use t j False in \<open>auto simp: rolled_back_def\<close>)
    show ?thesis
      unfolding rollback_finish_def Let_def if_not_P [OF False] dname_def [symmetric]
      by (rule hoare_andthen [OF hoare_write_txn [OF ok txn_like_phase [OF l] cf(7) [OF is_work_new [OF ok]]
              cf(8) [OF is_work_new [OF ok] _ False]]], simp, simp,
          rule hoare_bind [OF hoare_pre [OF scrub [OF covers_scrubbing(2)] start]], simp, rule False, assumption,
          rule hoare_scrubbing, erule body)
  qed
qed

lemma rolled_backI:
  "is_work p t \<Longrightarrow> moved p j \<Longrightarrow>
     sst p (if rb_defer p then Some ''committed'' else None) (Some (Subvol t)) None
       (if rb_defer p then old_node p else None) j w \<Longrightarrow> rolled_back p w"
  unfolding rolled_back_def by blast

lemma hoare_rolled_back:
  "(\<And>t j. is_work p t \<Longrightarrow> moved p j \<Longrightarrow>
      hoare b (sst p (if rb_defer p then Some ''committed'' else None) (Some (Subvol t)) None
         (if rb_defer p then old_node p else None) j) m Q X) \<Longrightarrow>
     hoare b (rolled_back p) m Q X"
  unfolding hoare_def rolled_back_def by blast

lemma rolled_back_flight: "rolled_back p w \<Longrightarrow> flight p w"
  by (auto simp: rolled_back_def intro: flight.pending flight.finished split: if_splits)

lemma covers_rolled_back:
  "is_work p t \<Longrightarrow> moved p j \<Longrightarrow>
     covers (\<lambda>_. flight p) (sst p (if rb_defer p then Some ''committed'' else None) (Some (Subvol t)) None
         (if rb_defer p then old_node p else None) j)"
  unfolding covers_def using rolled_back_flight rolled_back_def by blast

lemma hoare_managed:
  assumes "n = Some (Subvol t)" and "hoare b P k Q X"
  shows "hoare b P (andthen (require_managed_directory n pth l) k) Q X"
  using assms unfolding hoare_def
  by (auto simp: require_managed_directory_def wp_andthen wp_bind wp_gets wp_require)

lemma rb_paths:
  assumes "rb_ok p"
  shows "session_dir (rb_agent p) (rb_session p) = Inr (''agents/'' @ rb_agent p @ ''/workspace/sessions/'' @ rb_session p)"
    and "\<exists>x. current (rb_agent p) (rb_session p) = Inr x"
    and "\<exists>x. checkpoints_path (rb_agent p) (rb_session p) = Inr x"
  using rb_okD(1,2) [OF assms] by (simp_all add: current_def checkpoints_path_def bindR_eq_Inr)

lemma hoare_rollback:
  assumes ok: "rb_ok p" and fr: "fresh_start p"
    and res: "resolve (rb_idx p) c0 anc = Inr (rb_cid p)"
    and gd: "rollback_guard c0 anc (rb_rid p) (rb_defer p) = Inr ()"
    and ex: "rb_defer p \<longrightarrow> c0 = Some (rb_cid p)"
  shows "hoare b (sst p None (old_node p) None None (rb_idx p))
           (rollback (rb_agent p) (rb_session p) c0 anc (rb_scrub p) (rb_origin p) (rb_rid p) (rb_defer p) (rb_token p))
           (\<lambda>_. rolled_back p) (\<lambda>_. flight p)"
proof -
  obtain cp where cp: "current (rb_agent p) (rb_session p) = Inr cp" using rb_paths(2) [OF ok] by blast
  obtain cpp where cpp: "checkpoints_path (rb_agent p) (rb_session p) = Inr cpp" using rb_paths(3) [OF ok] by blast
  have tail: "hoare b (rolled_back p)
      (andthen (append_event ev (Some (rb_agent p)) (Some (rb_session p))) (ret (rb_cid p, rem)))
      (\<lambda>_. rolled_back p) (\<lambda>_. flight p)" for ev rem
  proof (rule hoare_rolled_back)
    fix t j assume w: "is_work p t" "moved p j"
    show "hoare b (sst p (if rb_defer p then Some ''committed'' else None) (Some (Subvol t)) None
         (if rb_defer p then old_node p else None) j)
        (andthen (append_event ev (Some (rb_agent p)) (Some (rb_session p))) (ret (rb_cid p, rem)))
        (\<lambda>_. rolled_back p) (\<lambda>_. flight p)"
      by (rule hoare_andthen [OF hoare_append_event [OF ok covers_rolled_back [OF w]]], rule hoare_ret)
         (rule rolled_backI [OF w])
  qed
  have rc: "hoare b (sst p None (old_node p) None None (rb_idx p))
      (bind (case rb_rid p of None \<Rightarrow> ret None | Some r \<Rightarrow> load_recovery_receipt (rb_agent p) (rb_session p) r) g) Q X"
    if "hoare b (sst p None (old_node p) None None (rb_idx p)) (g None) Q X" for g :: "jdict option \<Rightarrow> 'z sop" and Q X
  proof (cases "rb_rid p")
    case None
    then show ?thesis using that by (simp add: hoare_def wp_bind wp_ret)
  next
    case (Some r)
    then show ?thesis using hoare_load_receipt [OF ok fr Some, where g = g] that by simp
  qed
  have body: "hoare b (sst p None (old_node p) None None (rb_idx p))
      (andthen (rollback_swap (rb_agent p) (rb_session p) (rb_cid p) (rb_token p)
          (rollback_txn (rb_defer p) (rb_cid p) (rb_token p) (rb_scrub p) (rb_origin p) (rb_rid p)))
        (bind (rollback_finish (rb_agent p) (rb_session p) (rb_cid p) (rb_token p)
              (set_phase ''old_moved'' (rollback_txn (rb_defer p) (rb_cid p) (rb_token p) (rb_scrub p) (rb_origin p) (rb_rid p)))
              (rb_scrub p) (rb_defer p) (rb_idx p)) (\<lambda>rem.
         andthen (append_event (ev rem) (Some (rb_agent p)) (Some (rb_session p))) (ret (rb_cid p, rem)))))
      (\<lambda>_. rolled_back p) (\<lambda>_. flight p)" for ev
    unfolding rb_txn_def [symmetric]
    by (rule hoare_andthen [OF hoare_swap [OF ok]], rule hoare_bind [OF hoare_finish [OF ok] tail])
  have nodes: "(cp_node w (rb_key p) (rb_cid p), current_node w (rb_key p)) = (new_node p, old_node p)"
    if "sst p None (old_node p) None None (rb_idx p) w" for w
    using that rb_okD(8) [OF ok] by (auto simp: sst_def cps_entries_def)
  show ?thesis
    unfolding rollback_def andthen_def [of "lift_res _"]
    apply (rule hoare_lift [OF gd])
    apply (rule hoare_bind [where Q = "\<lambda>_. rolled_back p"])
     apply (rule hoare_lock [OF ok covers_flight(1)])
     apply (rule hoare_load_txn_None [OF ok])
     apply (rule hoare_require [OF refl])
     apply (rule rc)
     apply (rule hoare_require [OF refl])
     apply (rule hoare_load_index [OF ok disjI1 [OF refl]])
     apply (simp only: wrap_index_error_def res sum.case)
     apply (rule hoare_pure [where v = "rb_cid p"], simp add: ret_def)
     apply (rule hoare_require, use ex in blast)
     apply (rule hoare_lift [OF cpp], rule hoare_lift [OF cp])
     apply (rule hoare_gets_eq [OF nodes], assumption)
     apply (simp only: prod.case)
     apply (rule hoare_require, simp, rule hoare_require, simp)
     apply (rule hoare_managed [OF refl], rule hoare_managed [OF refl])
     apply (rule body)
    apply (simp only: split_beta)
    apply (rule hoare_lift [OF cp], rule hoare_lift [OF rb_paths(1) [OF ok]], rule hoare_ret, assumption)
    done
qed

section \<open>Recovery from each state\<close>

lemma no_leftover:
  assumes fr: "fresh_start p" and w: "sst p None cur None None j w"
    and pre: "pre = ''.restore-'' \<or> pre = ''.discard-''"
  shows "entries_with_prefix w (rb_key p) pre = []"
proof -
  have "sess_entry w (rb_key p) n = None" if "startswith n pre" for n
  proof (cases "n \<in> {''current'', rname p, dname p}")
    case True
    then show ?thesis using w that pre by (auto simp: sst_def startswith_def)
  next
    case False
    then have "sess_entry w (rb_key p) n = sess_entry (rb_w0 p) (rb_key p) n" using w by (simp add: sst_def)
    then show ?thesis using fr that pre by (auto simp: fresh_start_def)
  qed
  then have "\<not> startswith n pre" if "sessions w (rb_key p) = Some sd" "n \<in> fst ` set (entries sd)" for n sd
    using that by (auto simp: sess_entry_def map_of_eq_None_iff)
  then show ?thesis
    by (auto simp: entries_with_prefix_def filter_empty_conv split: option.splits)
qed

lemma hoare_no_orphan:
  assumes fr: "fresh_start p" and ok: "rb_ok p"
  shows "hoare b (sst p None (Some v) None None j) (recover_orphan (rb_agent p) (rb_session p))
    (\<lambda>_. sst p None (Some v) None None j) X"
  unfolding recover_orphan_def
  by (rule hoare_gets_eq [where v = "(Some v, [], [])"])
     (use no_leftover [OF fr] in \<open>auto simp: sst_def [of _ _ _ _ _ _ _ for w] intro: hoare_ret\<close>)

lemma hoare_check_txn:
  assumes ok: "rb_ok p" and l: "txn_like p ph t"
    and ph: "ph \<in> {''preparing'', ''prepared'', ''old_moved'', ''committed''}"
    and res: "res = None \<or> (\<exists>u. res = Some (Subvol u))" and dis: "dis = None \<or> (\<exists>u. dis = Some (Subvol u))"
    and g: "hoare b (sst p (Some ph) cur res dis j) (g (rb_defer p, ph, rb_rid p, rb_cid p, rname p, dname p)) Q X"
  shows "hoare b (sst p (Some ph) cur res dis j)
           (bind (check_transaction (rb_agent p) (rb_session p) t) g) Q X"
proof (rule hoare_pure [where v = "(rb_defer p, ph, rb_rid p, rb_cid p, rname p, dname p)"])
  fix w assume w: "sst p (Some ph) cur res dis j w"
  have names: "CHR ''/'' \<notin> set (rname p)" "CHR ''/'' \<notin> set (dname p)"
    "CHR 0x00 \<notin> set (rname p)" "CHR 0x00 \<notin> set (dname p)"
    "startswith (rname p) ''.restore-''" "startswith (dname p) ''.discard-''"
    using rb_okD(4,5) [OF ok] by (simp_all add: rname_def dname_def del: append.simps)
  have r: "transaction_subvolume_path (rb_agent p) (rb_session p) (JStr (rname p)) ''.restore-'' w = (Inr (rname p), w)"
    using w res names by (auto simp: transaction_subvolume_path_def safe_transaction_name_def io_defs sst_def)
  have d: "transaction_subvolume_path (rb_agent p) (rb_session p) (JStr (dname p)) ''.discard-'' w = (Inr (dname p), w)"
    using w dis names by (auto simp: transaction_subvolume_path_def safe_transaction_name_def io_defs sst_def)
  have v: "validate_id ''checkpoint'' (rb_cid p) = Inr (rb_cid p)"
    using rb_okD(3) [OF ok] by simp
  have ps: "in_str_set (JStr ph) [''preparing'', ''prepared'', ''old_moved'', ''committed''] = Inr True"
    using ph by (auto simp: in_str_set_def)
  show "check_transaction (rb_agent p) (rb_session p) t w =
      (Inr (rb_defer p, ph, rb_rid p, rb_cid p, rname p, dname p), w)"
  proof (cases "rb_rid p")
    case None
    then have "\<not> rb_defer p" using rb_okD(7) [OF ok] by simp
    then show ?thesis
      using l None ps r d v by (simp add: check_transaction_def txn_like_def io_defs)
  next
    case (Some x)
    then have x: "rb_defer p" "validate_id ''recovery'' x = Inr x" using rb_okD(6) [OF ok Some] by simp_all
    then show ?thesis
      using l Some ps r d v by (simp add: check_transaction_def txn_like_def io_defs dict_of_opt_def)
  qed
qed (rule g)

lemma hoare_resolve_and_move:
  assumes ok: "rb_ok p" and j: "j = rb_idx p \<or> moved p j"
    and g: "\<And>j'. moved p j' \<Longrightarrow> hoare False (sst p ph cur res dis j') k Q X"
  shows "hoare False (sst p ph cur res dis j) (andthen (resolve_and_move (rb_agent p) (rb_session p) (rb_cid p)) k) Q X"
proof -
  obtain j' where m: "move_head j (rb_cid p) = Inr j'" "moved p j'" using moved_head [OF ok j] by blast
  have r: "wrap_index_error (bindR (resolve j (Some (rb_cid p)) None) (move_head j)) = ret j'"
    using synced_resolve [OF _ cid_in_ids [OF ok]] idle_index [OF ok j] m by (simp add: wrap_index_error_def)
  have "hoare False (sst p ph cur res dis j) (resolve_and_move (rb_agent p) (rb_session p) (rb_cid p))
      (\<lambda>_. sst p ph cur res dis j') (\<lambda>_ _. True)"
    unfolding resolve_and_move_def
    by (rule hoare_load_index [OF ok j], simp only: r, rule hoare_pure [where v = j'], simp add: ret_def,
        rule hoare_save_index [OF ok]) simp_all
  then have "hoare False (sst p ph cur res dis j) (resolve_and_move (rb_agent p) (rb_session p) (rb_cid p))
      (\<lambda>_. sst p ph cur res dis j') X"
    by (simp add: hoare_def)
  then show ?thesis by (rule hoare_andthen [OF _ g [OF m(2)]])
qed

text \<open>In a run without faults the exceptional postcondition does not matter.\<close>

lemma hoare_False: "hoare False P m Q Y \<Longrightarrow> hoare False P m Q X"
  by (simp add: hoare_def)

lemma hoare_discard:
  assumes ok: "rb_ok p" and d: "dis = None \<or> (\<exists>u. dis = Some (Subvol u))"
  shows "hoare False (sst p ph cur res dis j) (recover_discard (rb_agent p) (rb_session p) (dname p) l)
           (\<lambda>_. sst p ph cur res None j) X"
  unfolding recover_discard_def
  by (rule hoare_lift [OF rb_paths(1) [OF ok]], rule hoare_gets_eq [where v = dis], simp add: sst_def)
     (use d in \<open>auto simp: whenM_def intro!: hoare_ret hoare_managed
        hoare_False [OF hoare_delete_discard [where X = "\<lambda>_ _. True"]]\<close>)

lemma hoare_discard_restore:
  assumes ok: "rb_ok p" and d: "res = None \<or> (\<exists>u. res = Some (Subvol u))"
  shows "hoare False (sst p ph cur res dis j) (recover_discard (rb_agent p) (rb_session p) (rname p) l)
           (\<lambda>_. sst p ph cur None dis j) X"
  unfolding recover_discard_def
  by (rule hoare_lift [OF rb_paths(1) [OF ok]], rule hoare_gets_eq [where v = res], simp add: sst_def)
     (use d in \<open>auto simp: whenM_def intro!: hoare_ret hoare_managed
        hoare_False [OF hoare_delete_restore [where X = "\<lambda>_ _. True"]]\<close>)

lemma hoare_direct_tail:
  assumes ok: "rb_ok p"
  shows "hoare False (sst p ph cur res dis j)
     (andthen (clear_transaction (rb_agent p) (rb_session p))
       (andthen (append_event ev (Some (rb_agent p)) (Some (rb_session p))) (ret True)))
     (\<lambda>_. sst p None cur res dis j) X"
  by (rule hoare_False [where Y = "\<lambda>_ _. True"],
      rule hoare_andthen [OF hoare_clear_txn [OF ok]], simp, simp,
      rule hoare_andthen [OF hoare_append_event [OF ok]], simp, rule hoare_ret)

lemma hoare_direct_abort:
  assumes ok: "rb_ok p" and res: "res = None \<or> (\<exists>u. res = Some (Subvol u))"
  shows "hoare False (sst p (Some ph) (old_node p) res None (rb_idx p))
     (recover_direct (rb_agent p) (rb_session p) rid c (rname p) (dname p) False) (\<lambda>_. untouched p) X"
  unfolding recover_direct_def whenM_def untouched_def if_False
  by (rule hoare_andthen [OF hoare_discard [OF ok]], simp,
      rule hoare_andthen [OF hoare_discard_restore [OF ok res]],
      rule hoare_andthen [where Q = "sst p (Some ph) (old_node p) None None (rb_idx p)"],
      rule hoare_ret, assumption, rule hoare_direct_tail [OF ok])

lemma hoare_direct_commit:
  assumes ok: "rb_ok p" and t: "is_work p t" and j: "j = rb_idx p \<or> moved p j" and nd: "\<not> rb_defer p"
    and dis: "dis = None \<or> (\<exists>u. dis = Some (Subvol u))"
  shows "hoare False (sst p (Some ph) (Some (Subvol t)) None dis j)
     (recover_direct (rb_agent p) (rb_session p) rid (rb_cid p) (rname p) (dname p) True) (\<lambda>_. rolled_back p) X"
  unfolding recover_direct_def whenM_def if_True
proof (rule hoare_andthen [OF hoare_discard [OF ok dis]], rule hoare_andthen [OF hoare_discard_restore [OF ok]],
    simp, rule hoare_resolve_and_move [OF ok j])
  fix j' assume j': "moved p j'"
  show "hoare False (sst p (Some ph) (Some (Subvol t)) None None j')
     (andthen (clear_transaction (rb_agent p) (rb_session p))
       (andthen (append_event (recovered_event ''session.rollback.recovered'' (rb_cid p) (dict_of_opt rid) ''committed'')
          (Some (rb_agent p)) (Some (rb_session p))) (ret True)))
     (\<lambda>_. rolled_back p) X"
    by (rule hoare_weaken [OF hoare_direct_tail [OF ok]]) (use rolled_backI [OF t j'] nd in auto)
qed

lemma hoare_deferred_commit:
  assumes ok: "rb_ok p" and t: "is_work p t" and j: "j = rb_idx p \<or> moved p j" and df: "rb_defer p"
    and l: "txn_like p ph tx"
  shows "hoare False (sst p (Some ph) (Some (Subvol t)) None (old_node p) j)
     (recover_deferred_commit (rb_agent p) (rb_session p) tx rid (rb_cid p) (rname p) (dname p)) (\<lambda>_. rolled_back p) X"
proof -
  obtain cp where cp: "current (rb_agent p) (rb_session p) = Inr cp" using rb_paths(2) [OF ok] by blast
  have scrub: "hoare False (scrubbing p (Some ph) (old_node p) j)
      (if jget tx ''scrub_runtime'' = JBool True then scrub_runtime_entries (rb_key p) else ret [])
      (\<lambda>_. scrubbing p (Some ph) (old_node p) j) X"
    using hoare_False [OF hoare_scrub [where X = "\<lambda>_ _. True"]] by (auto intro: hoare_ret)
  have tail: "hoare False (sst p (Some ph) (Some (Subvol u)) None (old_node p) j')
      (bind time_ns (\<lambda>now.
       andthen (write_transaction (rb_agent p) (rb_session p)
         (dict_set ''committed_at_ns'' (JInt now)
           (dict_set ''removed_runtime_entries'' (JList (map JStr removed)) (set_phase ''committed'' tx))))
       (andthen (append_event (recovered_event ''session.rollback.recovered'' (rb_cid p) (JStr rid) ''committed-deferred'')
          (Some (rb_agent p)) (Some (rb_session p)))
       (ret True)))) (\<lambda>_. rolled_back p) X" if u: "is_work p u" "moved p j'" for u j' removed
    by (rule hoare_False [where Y = "\<lambda>_ _. True"], rule hoare_time_ns, erule sst_clock,
        rule hoare_andthen [OF hoare_write_txn [OF ok txn_like_committed [OF l]]], simp, simp,
        rule hoare_andthen [OF hoare_append_event [OF ok]], simp, rule hoare_ret)
       (use rolled_backI [OF u] df in simp)
  show ?thesis
    unfolding recover_deferred_commit_def
    apply (rule hoare_lift [OF cp], rule hoare_lift [OF rb_paths(1) [OF ok]])
    apply (rule hoare_gets_eq [where v = "(Some (Subvol t), None, old_node p)"], simp add: sst_def)
    apply (simp only: prod.case)
    apply (rule hoare_managed [OF refl], rule hoare_require, simp, rule hoare_managed [OF refl], rule hoare_require, simp)
    apply (rule hoare_bind [OF hoare_pre [OF scrub]])
     apply (use t in \<open>auto simp: scrubbing_def\<close>) [1]
    apply (rule hoare_scrubbing, rule hoare_resolve_and_move [OF ok j])
    apply (erule (1) tail)
    done
qed

lemma hoare_current_present:
  assumes ok: "rb_ok p" and g: "hoare b (sst p ph (Some (Subvol u)) res dis j) (g (x \<in> {''old_moved'', ''committed''})) Q X"
  shows "hoare b (sst p ph (Some (Subvol u)) res dis j)
     (bind (recover_current (rb_agent p) (rb_session p) x (rname p) (dname p)) g) Q X"
proof (rule hoare_pure [where v = "x \<in> {''old_moved'', ''committed''}"])
  show "recover_current (rb_agent p) (rb_session p) x (rname p) (dname p) w = (Inr (x \<in> {''old_moved'', ''committed''}), w)"
    if "sst p ph (Some (Subvol u)) res dis j w" for w
    using that by (simp add: recover_current_def io_defs rb_paths(1) [OF ok] sst_def)
qed (rule g)

lemma hoare_current_restored:
  assumes ok: "rb_ok p" and x: "x \<in> {''prepared'', ''old_moved'', ''committed''}"
    and g: "hoare False (sst p ph (Some (Subvol u)) None dis j) (g True) Q X"
  shows "hoare False (sst p ph None (Some (Subvol u)) dis j)
     (bind (recover_current (rb_agent p) (rb_session p) x (rname p) (dname p)) g) Q X"
proof (rule hoare_bind [where Q = "\<lambda>y w. y = True \<and> sst p ph (Some (Subvol u)) None dis j w"])
  show "hoare False (sst p ph None (Some (Subvol u)) dis j)
      (recover_current (rb_agent p) (rb_session p) x (rname p) (dname p))
      (\<lambda>y w. y = True \<and> sst p ph (Some (Subvol u)) None dis j w) X"
    unfolding recover_current_def
    by (rule hoare_lift [OF rb_paths(1) [OF ok]],
        rule hoare_gets_eq [where v = "(None, Some (Subvol u), dis)"], simp add: sst_def, use x in simp,
        rule hoare_managed [OF refl],
        rule hoare_andthen [OF hoare_False [OF hoare_rename_in [where X = "\<lambda>_ _. True"]]])
       (simp_all add: hoare_ret)
  show "hoare False (\<lambda>w. y = True \<and> sst p ph (Some (Subvol u)) None dis j w) (g y) Q X" for y
    using g by (auto simp: hoare_def)
qed

lemma hoare_no_receipt:
  assumes ok: "rb_ok p" and fr: "fresh_start p" and k: "hoare b (sst p ph cur res dis j) k Q X"
  shows "hoare b (sst p ph cur res dis j)
     (andthen (if rb_defer p then bind (load_recovery_receipt (rb_agent p) (rb_session p) (the (rb_rid p)))
          (\<lambda>x. require (x = None) e) else ret ()) k) Q X"
proof -
  have "hoare b (sst p ph cur res dis j) (if rb_defer p then
      bind (load_recovery_receipt (rb_agent p) (rb_session p) (the (rb_rid p))) (\<lambda>x. require (x = None) e) else ret ())
      (\<lambda>_. sst p ph cur res dis j) X"
  proof (cases "rb_defer p")
    case True
    then obtain r where r: "rb_rid p = Some r" using rb_okD(7) [OF ok] by auto
    show ?thesis
      using True hoare_load_receipt [OF ok fr r, where g = "\<lambda>x. require (x = None) e"]
      by (simp add: r require_def hoare_ret)
  qed (simp add: hoare_ret)
  then show ?thesis by (rule hoare_andthen [OF _ k])
qed

text \<open>Recovery of a session that has a transaction, up to the point where the phases differ.\<close>

lemma hoare_recover_txn:
  assumes ok: "rb_ok p" and ph: "ph \<in> {''preparing'', ''prepared'', ''old_moved'', ''committed''}"
    and res: "res = None \<or> (\<exists>u. res = Some (Subvol u))" and dis: "dis = None \<or> (\<exists>u. dis = Some (Subvol u))"
    and k: "\<And>t. txn_like p ph t \<Longrightarrow> hoare False (sst p (Some ph) cur res dis j)
      (if rb_defer p \<and> ph = ''committed'' \<and> n_exists cur
       then recover_deferred_committed (rb_agent p) (rb_session p) (the (rb_rid p)) (rb_cid p) (rname p) (dname p)
       else bind (recover_current (rb_agent p) (rb_session p) ph (rname p) (dname p)) (\<lambda>commit.
         if rb_defer p \<and> commit
         then recover_deferred_commit (rb_agent p) (rb_session p) t (the (rb_rid p)) (rb_cid p) (rname p) (dname p)
         else andthen (if rb_defer p then bind (load_recovery_receipt (rb_agent p) (rb_session p) (the (rb_rid p)))
             (\<lambda>x. require (x = None) (WorkspaceError ''aborted deferred rollback unexpectedly has a cleanup receipt''))
             else ret ())
           (recover_direct (rb_agent p) (rb_session p) (rb_rid p) (rb_cid p) (rname p) (dname p) commit))) Q X"
  shows "hoare False (sst p (Some ph) cur res dis j) (recover_session (rb_agent p) (rb_session p)) Q X"
proof -
  obtain cp where cp: "current (rb_agent p) (rb_session p) = Inr cp" using rb_paths(2) [OF ok] by blast
  show ?thesis
    unfolding recover_session_def
    by (rule hoare_lift [OF cp], rule hoare_load_txn [OF ok], simp only: option.case,
        rule hoare_check_txn [OF ok _ ph res dis], assumption, simp only: prod.case,
        rule hoare_gets_eq [where v = cur], simp add: sst_def, erule k)
qed

lemma recover_aborts:
  assumes ok: "rb_ok p" and fr: "fresh_start p" and ph: "ph = ''preparing'' \<or> ph = ''prepared''"
    and res: "res = None \<or> res = new_node p"
  shows "hoare False (sst p (Some ph) (old_node p) res None (rb_idx p))
     (recover_session (rb_agent p) (rb_session p)) (\<lambda>_. untouched p) X"
proof (rule hoare_recover_txn [OF ok], goal_cases)
  case (4 t)
  have n: "(ph \<in> {''old_moved'', ''committed''}) = False" "ph \<noteq> ''committed''" using ph by auto
  show ?case
    by (simp only: n simp_thms if_False, rule hoare_current_present [OF ok], simp only: n simp_thms if_False,
        rule hoare_no_receipt [OF ok fr], rule hoare_direct_abort [OF ok])
       (use res in auto)
qed (use ph res in auto)

lemma recover_commits:
  assumes ok: "rb_ok p" and t: "is_work p t" and j: "j = rb_idx p \<or> moved p j"
    and df: "rb_defer p \<longrightarrow> dis = old_node p" and dis: "dis = None \<or> dis = old_node p" and l: "txn_like p ph tx"
  shows "hoare False (sst p (Some ph) (Some (Subvol t)) None dis j)
     (if rb_defer p \<and> True
      then recover_deferred_commit (rb_agent p) (rb_session p) tx (the (rb_rid p)) (rb_cid p) (rname p) (dname p)
      else andthen (if rb_defer p then bind (load_recovery_receipt (rb_agent p) (rb_session p) (the (rb_rid p)))
             (\<lambda>x. require (x = None) (WorkspaceError ''aborted deferred rollback unexpectedly has a cleanup receipt''))
             else ret ())
           (recover_direct (rb_agent p) (rb_session p) (rb_rid p) (rb_cid p) (rname p) (dname p) True))
     (\<lambda>_. rolled_back p) X"
proof (cases "rb_defer p")
  case True
  then show ?thesis using df hoare_deferred_commit [OF ok t j True l] by simp
next
  case False
  have d: "dis = None \<or> (\<exists>u. dis = Some (Subvol u))" using dis by auto
  have "hoare False (sst p (Some ph) (Some (Subvol t)) None dis j)
      (andthen (ret ()) (recover_direct (rb_agent p) (rb_session p) (rb_rid p) (rb_cid p) (rname p) (dname p) True))
      (\<lambda>_. rolled_back p) X"
    by (rule hoare_andthen [OF hoare_ret hoare_direct_commit [OF ok t j False d]])
  then show ?thesis using False by simp
qed

lemma recover_gone:
  assumes ok: "rb_ok p" and ph: "ph = ''prepared'' \<or> ph = ''old_moved''"
  shows "hoare False (sst p (Some ph) None (new_node p) (old_node p) (rb_idx p))
     (recover_session (rb_agent p) (rb_session p)) (\<lambda>_. rolled_back p) X"
proof (rule hoare_recover_txn [OF ok], goal_cases)
  case (4 t)
  show ?case
    by (simp only: n_exists.simps simp_thms if_False, rule hoare_current_restored [OF ok],
        use ph in blast, rule recover_commits [OF ok is_work_new [OF ok] _ _ _ 4(1)]) simp_all
qed (use ph in auto)

lemma recover_present:
  assumes ok: "rb_ok p" and t: "is_work p t" and j: "j = rb_idx p \<or> moved p j"
    and ph: "ph = ''old_moved'' \<or> ph = ''committed'' \<and> \<not> rb_defer p"
    and df: "rb_defer p \<longrightarrow> dis = old_node p" and dis: "dis = None \<or> dis = old_node p"
  shows "hoare False (sst p (Some ph) (Some (Subvol t)) None dis j)
     (recover_session (rb_agent p) (rb_session p)) (\<lambda>_. rolled_back p) X"
proof (rule hoare_recover_txn [OF ok], goal_cases)
  case (4 tx)
  have n: "(rb_defer p \<and> ph = ''committed'' \<and> n_exists (Some (Subvol t))) = False"
    "(ph \<in> {''old_moved'', ''committed''}) = True" using ph by auto
  show ?case
    by (simp only: n if_False, rule hoare_current_present [OF ok], simp only: n,
        rule recover_commits [OF ok t j df dis 4(1)])
qed (use ph dis in auto)

lemma recover_pending:
  assumes ok: "rb_ok p" and fr: "fresh_start p" and t: "is_work p t" and j: "moved p j" and df: "rb_defer p"
  shows "hoare False (sst p (Some ''committed'') (Some (Subvol t)) None (old_node p) j)
     (recover_session (rb_agent p) (rb_session p)) (\<lambda>_. rolled_back p) X"
proof (rule hoare_recover_txn [OF ok], goal_cases)
  case (4 tx)
  obtain cp where cp: "current (rb_agent p) (rb_session p) = Inr cp" using rb_paths(2) [OF ok] by blast
  obtain r where r: "rb_rid p = Some r" using df rb_okD(7) [OF ok] by auto
  have hd: "head j = Some (rb_cid p)" using j by (simp add: moved_def)
  show ?case
    unfolding recover_deferred_committed_def
    apply (simp only: n_exists.simps df simp_thms if_True r option.sel)
    apply (rule hoare_lift [OF cp], rule hoare_lift [OF rb_paths(1) [OF ok]])
    apply (rule hoare_gets_eq [where v = "(Some (Subvol t), None, old_node p)"], simp add: sst_def)
    apply (simp only: prod.case)
    apply (rule hoare_managed [OF refl], rule hoare_require, simp)
    apply (rule hoare_load_index [OF ok disjI2 [OF j]], rule hoare_require [OF hd])
    apply (rule hoare_load_receipt [OF ok fr r], simp only: option.case)
    apply (rule hoare_require, simp, rule hoare_managed [OF refl], rule hoare_ret)
    apply (rule rolled_backI [OF t j], simp add: df)
    done
qed simp_all

lemma recover_none:
  assumes ok: "rb_ok p" and fr: "fresh_start p"
  shows "hoare False (sst p None (Some v) None None j) (recover_session (rb_agent p) (rb_session p))
     (\<lambda>_. sst p None (Some v) None None j) X"
proof -
  obtain cp where cp: "current (rb_agent p) (rb_session p) = Inr cp" using rb_paths(2) [OF ok] by blast
  show ?thesis
    unfolding recover_session_def
    by (rule hoare_lift [OF cp], rule hoare_load_txn_None [OF ok], simp only: option.case,
        rule hoare_no_orphan [OF fr ok])
qed

lemma recover_flight:
  assumes ok: "rb_ok p" and fr: "fresh_start p"
  shows "hoare False (flight p) (recover_session (rb_agent p) (rb_session p))
     (\<lambda>_ w. untouched p w \<or> rolled_back p w) (\<lambda>_ _. False)"
proof -
  let ?G = "\<lambda>P. hoare False P (recover_session (rb_agent p) (rb_session p))
     (\<lambda>_ w. untouched p w \<or> rolled_back p w) (\<lambda>_ _. False)"
  have "?G (\<lambda>v. v = w)" if f: "flight p w" for w
    using f
  proof cases
    case idle
    then show ?thesis
      by (intro hoare_weaken [OF recover_none [OF ok fr, where X = "\<lambda>_ _. False"]]) (auto simp: untouched_def)
  next
    case (preparing res)
    then show ?thesis
      by (intro hoare_weaken [OF recover_aborts [OF ok fr, where X = "\<lambda>_ _. False"]]) auto
  next
    case prepared
    then show ?thesis
      by (intro hoare_weaken [OF recover_aborts [OF ok fr, where X = "\<lambda>_ _. False"]]) auto
  next
    case (gone ph)
    then show ?thesis
      by (intro hoare_weaken [OF recover_gone [OF ok, where X = "\<lambda>_ _. False"]]) auto
  next
    case (swapped t j)
    then show ?thesis
      by (intro hoare_weaken [OF recover_present [OF ok, where X = "\<lambda>_ _. False"]]) auto
  next
    case (committed t dis j)
    then show ?thesis
      by (intro hoare_weaken [OF recover_present [OF ok, where X = "\<lambda>_ _. False"]]) auto
  next
    case (pending t j)
    then show ?thesis
      by (intro hoare_weaken [OF recover_pending [OF ok fr, where X = "\<lambda>_ _. False"]]) auto
  next
    case (finished t j)
    have "rolled_back p v" if "sst p None (Some (Subvol t)) None None j v" for v
      using rolled_backI [OF finished(2,3)] finished(4) that by simp
    then show ?thesis
      using finished(1)
      by (intro hoare_weaken [OF recover_none [OF ok fr, where X = "\<lambda>_ _. False"]]) auto
  qed
  then show ?thesis unfolding hoare_def by blast
qed

lemma sst_schedule [simp]: "sst p ph cur res dis j (w\<lparr>schedule := l\<rparr>) = sst p ph cur res dis j w"
  by (simp add: sst_def)

lemma flight_stable: "flight p w \<Longrightarrow> flight p (w\<lparr>schedule := l\<rparr>)"
proof (induction rule: flight.induct)
  case (preparing res w)
  then show ?case by (intro flight.preparing) simp_all
next
  case (gone ph w)
  then show ?case by (intro flight.gone) simp_all
next
  case (swapped t j w)
  then show ?case by (intro flight.swapped) simp_all
next
  case (committed t dis j w)
  then show ?case by (intro flight.committed) simp_all
next
  case (pending t j w)
  then show ?case by (intro flight.pending) simp_all
next
  case (finished t j w)
  then show ?case by (intro flight.finished) simp_all
qed (simp_all add: flight.idle flight.prepared)

section \<open>A concrete session\<close>

text \<open>A session with checkpoints \<open>a\<close> and \<open>b\<close>, head \<open>b\<close>, and later edits in \<open>current\<close>.\<close>

definition demo_cps :: "(string, node) dict" where
  "demo_cps = [(''a'', Subvol [(''f'', RegFile ''saved'')]), (''b'', Subvol [(''f'', RegFile ''later'')])]"

definition demo_store :: store where
  "demo_store = \<lparr>root = ''/w'', root_fstype = Some ''btrfs'', agent_ls = [(''x'', True)],
     agent_shared_dir = (\<lambda>_. True), sess_ls = (\<lambda>a. if a = ''x'' then Some [(''y'', True)] else None),
     sessions = [(''x'', ''y'') \<mapsto> \<lparr>entries = [(''current'', Subvol [(''f'', RegFile ''edited'')])],
                                   cps = CpsDir demo_cps\<rparr>],
     index_files = [(''x'', ''y'') \<mapsto> JsonFile (JObj (to_dict two_checkpoints))],
     txn_files = Map.empty, receipt_files = Map.empty, event_logs = (\<lambda>_. []), lock_files = {},
     outside = Map.empty, clock = 0, schedule = []\<rparr>"

definition demo :: "bool \<Rightarrow> rb" where
  "demo defer = \<lparr>rb_agent = ''x'', rb_session = ''y'', rb_cid = ''a'', rb_token = ''0'', rb_origin = ''cli'',
     rb_defer = defer, rb_scrub = True, rb_rid = (if defer then Some ''r'' else None),
     rb_old = [(''f'', RegFile ''edited'')], rb_new = [(''f'', RegFile ''saved'')], rb_cps = demo_cps,
     rb_idx = two_checkpoints, rb_w0 = demo_store\<rparr>"

lemma demo_fields [simp]:
  "rb_agent (demo b) = ''x''" "rb_session (demo b) = ''y''" "rb_cid (demo b) = ''a''" "rb_token (demo b) = ''0''"
  "rb_origin (demo b) = ''cli''" "rb_defer (demo b) = b" "rb_scrub (demo b) = True"
  "rb_rid (demo b) = (if b then Some ''r'' else None)"
  "rb_old (demo b) = [(''f'', RegFile ''edited'')]" "rb_new (demo b) = [(''f'', RegFile ''saved'')]"
  "rb_cps (demo b) = demo_cps" "rb_idx (demo b) = two_checkpoints" "rb_w0 (demo b) = demo_store"
  by (simp_all add: demo_def)

lemma demo_ids: "ID_RE_fullmatch ''x''" "ID_RE_fullmatch ''y''" "ID_RE_fullmatch ''a''" "ID_RE_fullmatch ''r''"
  by (simp_all add: ID_RE_fullmatch_def id_start_char_def is_alpha_def)

lemma demo_synced: "synced two_checkpoints (cp_ids demo_cps)"
  by (simp add: synced_def two_checkpoints_def cp_ids_def demo_cps_def new_meta_def live_meta_def dict_get_def)

lemma demo_ok: "rb_ok (demo b)"
  by (simp add: rb_ok_def demo_ids wf_two_checkpoints wf_work_def demo_synced) (simp add: demo_cps_def)

lemma demo_fresh: "fresh_start (demo b)"
  by (auto simp: fresh_start_def sst_def demo_store_def sess_entry_def rname_def dname_def startswith_def)

lemma demo_resolve: "resolve two_checkpoints (Some ''a'') None = Inr ''a''"
  by (simp add: resolve_def two_checkpoints_def live_meta_def new_meta_def dict_get_def)

lemma demo_request:
  "resolve (rb_idx (demo b)) (Some ''a'') None = Inr (rb_cid (demo b))"
  "rollback_guard (Some ''a'') None (rb_rid (demo b)) (rb_defer (demo b)) = Inr ()"
  "rb_defer (demo b) \<longrightarrow> Some ''a'' = Some (rb_cid (demo b))"
  by (simp_all add: demo_resolve rollback_guard_def validate_id_def demo_ids)

abbreviation demo_rollback :: "outcome list \<Rightarrow> json res \<times> store" where
  "demo_rollback l \<equiv> rollback ''x'' ''y'' (Some ''a'') None True ''cli'' None False ''0'' (demo_store\<lparr>schedule := l\<rparr>)"

abbreviation demo_recover :: "outcome list \<Rightarrow> store \<Rightarrow> bool res \<times> store" where
  "demo_recover l w \<equiv> recover_session ''x'' ''y'' (w\<lparr>schedule := l\<rparr>)"

text \<open>Whether the call raised, \<open>current\<close>, the discarded workspace, the transaction, the head.\<close>

definition demo_obs :: "'a res \<times> store \<Rightarrow> bool \<times> node option \<times> node option \<times> bool \<times> string option" where
  "demo_obs rw = (case rw of (r, w) \<Rightarrow> (isl r, current_node w (''x'', ''y''),
     sess_entry w (''x'', ''y'') ''.discard-0'', txn_files w (''x'', ''y'') = None,
     (case parse_index (index_files w (''x'', ''y'')) of Inr i \<Rightarrow> head i | Inl _ \<Rightarrow> None)))"

section \<open>Properties\<close>

text \<open>
  C1. Crash safety of rollback. Let a session have no pending transaction and an index in step with
  its checkpoints, and let one fault of any kind (an I/O call that raises before or after its
  effect, or a crash of the daemon) hit any one of the durable effects of a direct or deferred
  rollback. A rollback that returns has put the checkpoint in place and moved the head. Whatever
  happened, the recovery pass of the next start returns normally and ends either in the workspace,
  index and journal from before the call or in the finished rollback; nothing in between, and no
  other session is touched.
\<close>

theorem rollback_single_fault_recovers:
  assumes ok: "rb_ok p" and fr: "fresh_start p"
    and res: "resolve (rb_idx p) c0 anc = Inr (rb_cid p)"
    and gd: "rollback_guard c0 anc (rb_rid p) (rb_defer p) = Inr ()"
    and ex: "rb_defer p \<longrightarrow> c0 = Some (rb_cid p)"
    and l: "single_fault l"
    and run: "rollback (rb_agent p) (rb_session p) c0 anc (rb_scrub p) (rb_origin p) (rb_rid p) (rb_defer p)
        (rb_token p) ((rb_w0 p)\<lparr>schedule := l\<rparr>) = (r, w1)"
    and rec: "recover_session (rb_agent p) (rb_session p) (w1\<lparr>schedule := []\<rparr>) = (r', w2)"
  shows "(\<forall>x. r = Inr x \<longrightarrow> rolled_back p w1) \<and> (\<exists>b. r' = Inr b) \<and> (untouched p w2 \<or> rolled_back p w2)"
proof -
  let ?m = "rollback (rb_agent p) (rb_session p) c0 anc (rb_scrub p) (rb_origin p) (rb_rid p) (rb_defer p) (rb_token p)"
  have s: "sst p None (old_node p) None None (rb_idx p) ((rb_w0 p)\<lparr>schedule := l\<rparr>)"
    using fr stable_sst by (simp add: fresh_start_def stable_def)
  have "wp ?m (\<lambda>_ w'. fm True w' \<and> rolled_back p w') (\<lambda>e w'. True \<and> fm False w' \<and> flight p w') ((rb_w0 p)\<lparr>schedule := l\<rparr>)"
    using hoare_rollback [OF ok fr res gd ex, of True] s l by (simp add: hoare_def fm_def)
  then have w1: "flight p w1" and ret: "\<forall>x. r = Inr x \<longrightarrow> rolled_back p w1"
    using run rolled_back_flight by (auto simp: wp_def split: sum.splits)
  have "wp (recover_session (rb_agent p) (rb_session p)) (\<lambda>_ w'. fm False w' \<and> (untouched p w' \<or> rolled_back p w'))
      (\<lambda>_ _. False) (w1\<lparr>schedule := []\<rparr>)"
    using recover_flight [OF ok fr] flight_stable [OF w1] by (simp add: hoare_def fm_def)
  then have "(\<exists>b. r' = Inr b) \<and> (untouched p w2 \<or> rolled_back p w2)"
    using rec by (auto simp: wp_def split: sum.splits)
  with ret show ?thesis by blast
qed

theorem rollback_single_fault_recovers_witness:
  "\<exists>b. fst (demo_recover [] (snd (demo_rollback [Ok, Ok, Ok, Ok, Ok, Crash]))) = Inr b \<and>
     (untouched (demo False) (snd (demo_recover [] (snd (demo_rollback [Ok, Ok, Ok, Ok, Ok, Crash])))) \<or>
      rolled_back (demo False) (snd (demo_recover [] (snd (demo_rollback [Ok, Ok, Ok, Ok, Ok, Crash])))))"
proof -
  let ?l = "[Ok, Ok, Ok, Ok, Ok, Crash]"
  have l: "single_fault ?l" unfolding single_fault_def
    by (intro disjI2 exI [of _ "5::nat"] exI [of _ Crash]) (simp add: eval_nat_numeral)
  have run: "rollback (rb_agent (demo False)) (rb_session (demo False)) (Some ''a'') None (rb_scrub (demo False))
      (rb_origin (demo False)) (rb_rid (demo False)) (rb_defer (demo False)) (rb_token (demo False))
      ((rb_w0 (demo False))\<lparr>schedule := ?l\<rparr>) = (fst (demo_rollback ?l), snd (demo_rollback ?l))"
    by simp
  have rec: "recover_session (rb_agent (demo False)) (rb_session (demo False)) ((snd (demo_rollback ?l))\<lparr>schedule := []\<rparr>) =
      (fst (demo_recover [] (snd (demo_rollback ?l))), snd (demo_recover [] (snd (demo_rollback ?l))))"
    by simp
  from rollback_single_fault_recovers [OF demo_ok demo_fresh demo_request l run rec]
  show ?thesis by auto
qed

text \<open>
  C2. A rollback that meets no fault succeeds: it returns a result, \<open>current\<close> holds the checkpoint
  tree (up to sockets and FIFOs under \<open>.allox-tmp\<close>), the head is the checkpoint, every parent
  pointer is kept, and a direct rollback leaves neither transaction nor restore or discard
  subvolume, while a deferred one keeps the committed transaction and the discarded workspace.
\<close>

theorem rollback_succeeds:
  assumes ok: "rb_ok p" and fr: "fresh_start p" and "resolve (rb_idx p) c0 anc = Inr (rb_cid p)"
    and "rollback_guard c0 anc (rb_rid p) (rb_defer p) = Inr ()" and "rb_defer p \<longrightarrow> c0 = Some (rb_cid p)"
    and sc: "schedule (rb_w0 p) = []"
  shows "\<exists>x w'. rollback (rb_agent p) (rb_session p) c0 anc (rb_scrub p) (rb_origin p) (rb_rid p) (rb_defer p)
      (rb_token p) (rb_w0 p) = (Inr x, w') \<and> rolled_back p w'"
proof -
  let ?m = "rollback (rb_agent p) (rb_session p) c0 anc (rb_scrub p) (rb_origin p) (rb_rid p) (rb_defer p) (rb_token p)"
  have "wp ?m (\<lambda>_ w'. fm False w' \<and> rolled_back p w') (\<lambda>_ _. False) (rb_w0 p)"
    using hoare_rollback [OF assms(1-5), of False] fr sc by (simp add: hoare_def fm_def fresh_start_def)
  then show ?thesis by (cases "?m (rb_w0 p)") (auto simp: wp_def split: sum.splits)
qed

theorem rollback_succeeds_witness:
  "\<exists>x w'. rollback ''x'' ''y'' (Some ''a'') None True ''cli'' (Some ''r'') True ''0'' demo_store = (Inr x, w') \<and>
     rolled_back (demo True) w'"
  using rollback_succeeds [OF demo_ok demo_fresh demo_request, of True] by (simp add: demo_store_def)

text \<open>
  Recovery itself is not restartable: a crash in the rollback between the two renames followed
  by a crash of the recovery pass right after its own rename leaves phase \<open>prepared\<close> with the
  restored tree in \<open>current\<close>; the next recovery pass takes this for an aborted rollback, deletes
  the old workspace and leaves the head at the old checkpoint, while \<open>current\<close> is the checkpoint
  tree.
\<close>

theorem interrupted_recovery_loses_old_workspace:
  "demo_obs (demo_recover [] (snd (demo_recover [Ok, Crash] (snd (demo_rollback [Ok, Ok, Ok, Ok, Ok, Crash]))))) =
     (False, Some (Subvol [(''f'', RegFile ''saved'')]), None, True, Some ''b'')"
  by code_simp

end
