(* ===== verification/Turn_Lifecycle.thy ===== *)
theory Turn_Lifecycle
  imports Identifiers
begin

text \<open>
  \<^verbatim>\<open>TurnCheckpointLifecycle\<close> of
  \<^verbatim>\<open>src/src/allox/workspace/lifecycle.py\<close>: the hooks an Agent runtime calls at
  session start, on user messages and at turn ends. The workspace client (the protocol
  \<^verbatim>\<open>WorkspaceRPC\<close>) is a parameter \<open>rpc\<close> acting on an arbitrary world; identifiers and
  time stamps drawn by the factories are arguments. Every hook runs under the object's lock.
\<close>

section \<open>State and hooks\<close>

definition MESSAGE_LIMIT :: nat where
  "MESSAGE_LIMIT = 80"

record lifecycle =
  lc_agent_id :: string
  lc_session_id :: string
  enabled :: bool
  turn_count :: int
  last_user_message :: string
  session_started :: bool
  skip_next_auto_checkpoint :: bool
  seen_turn_ids :: "string set"

type_synonym 'w rpc = "string \<Rightarrow> jdict \<Rightarrow> ('w, json) op"
type_synonym ('w, 'a) lop = "(lifecycle \<times> 'w, 'a) op"

definition new_lifecycle :: "string \<Rightarrow> string \<Rightarrow> bool \<Rightarrow> lifecycle" where
  "new_lifecycle a s e = \<lparr>lc_agent_id = a, lc_session_id = s, enabled = e, turn_count = 0,
     last_user_message = [], session_started = False, skip_next_auto_checkpoint = False, seen_turn_ids = {}\<rparr>"

definition from_resolved_config :: "string \<Rightarrow> string \<Rightarrow> jdict \<Rightarrow> lifecycle" where
  "from_resolved_config a s cfg =
     new_lifecycle a s (truthy (dict_get cfg ''workspace_auto_checkpoint_turns'' (JBool False)))"

definition lc_get :: "(lifecycle \<Rightarrow> 'a) \<Rightarrow> ('w, 'a) lop" where
  "lc_get f = gets (\<lambda>(l, _). f l)"

definition lc_modify :: "(lifecycle \<Rightarrow> lifecycle) \<Rightarrow> ('w, unit) lop" where
  "lc_modify f = modify (\<lambda>(l, w). (f l, w))"

definition call_rpc :: "'w rpc \<Rightarrow> string \<Rightarrow> jdict \<Rightarrow> ('w, json) lop" where
  "call_rpc rpc action params = (\<lambda>(l, w). case rpc action params w of (r, w') \<Rightarrow> (r, (l, w')))"

definition set_enabled :: "bool \<Rightarrow> ('w, unit) lop" where
  "set_enabled b = lc_modify (\<lambda>l. l\<lparr>enabled := b\<rparr>)"

definition lc_status :: "('w, json) lop" where
  "lc_status = lc_get (\<lambda>l. JObj [(''enabled'', JBool (enabled l)), (''agent_id'', JStr (lc_agent_id l)),
     (''session_id'', JStr (lc_session_id l)), (''turn_count'', JInt (turn_count l)),
     (''session_started'', JBool (session_started l)),
     (''skip_next_auto_checkpoint'', JBool (skip_next_auto_checkpoint l))])"

definition disabled_result :: "string \<Rightarrow> json" where
  "disabled_result event = JObj [(''enabled'', JBool False), (''event'', JStr event), (''created'', JBool False),
     (''skipped'', JStr ''disabled'')]"

definition create_failed :: "string \<Rightarrow> string \<Rightarrow> error \<Rightarrow> json" where
  "create_failed event cid e = JObj [(''enabled'', JBool True), (''event'', JStr event), (''created'', JBool False),
     (''checkpoint_id'', JStr cid), (''error'', JStr (exc_text e)), (''non_blocking'', JBool True)]"

definition checkpoint_params :: "lifecycle \<Rightarrow> string \<Rightarrow> string \<Rightarrow> jdict \<Rightarrow> jdict" where
  "checkpoint_params l cid message md =
     [(''agent_id'', JStr (lc_agent_id l)), (''session_id'', JStr (lc_session_id l)), (''checkpoint_id'', JStr cid),
      (''origin'', JStr ''turn-lifecycle''), (''message'', JStr (take MESSAGE_LIMIT message)),
      (''pinned'', JBool False), (''metadata'', JObj md)]"

text \<open>
  \<open>_create_checkpoint\<close>: an exception of the RPC becomes a result; \<open>checkpoint.get\<close> on a reply that
  is no object raises outside the \<open>try\<close>.
\<close>

definition lc_create_checkpoint ::
  "'w rpc \<Rightarrow> string \<Rightarrow> int \<Rightarrow> string \<Rightarrow> jdict \<Rightarrow> string \<Rightarrow> string \<Rightarrow> ('w, json) lop" where
  "lc_create_checkpoint rpc event turn message md cid ts =
     bind (lc_get id) (\<lambda>l.
     let complete = dict_merge [(''auto'', JBool True), (''event'', JStr event), (''turn'', JInt turn),
           (''timestamp'', JStr ts)] md in
     bind (catch (\<lambda>_. True)
        (bind (call_rpc rpc ''checkpoint.create'' (checkpoint_params l cid message complete)) (\<lambda>c. ret (Inr c)))
        (\<lambda>e. ret (Inl (create_failed event cid e)))) (\<lambda>x. (case x of
        Inl failed \<Rightarrow> ret failed
      | Inr (JObj c) \<Rightarrow> ret (JObj [(''enabled'', JBool True), (''event'', JStr event), (''created'', JBool True),
           (''checkpoint_id'', dict_get c ''checkpoint_id'' (JStr cid)), (''checkpoint'', JObj c)])
      | Inr _ \<Rightarrow> raise AttributeError)))"

definition on_session_start :: "'w rpc \<Rightarrow> string option \<Rightarrow> string \<Rightarrow> string \<Rightarrow> ('w, json) lop" where
  "on_session_start rpc rsid cid ts =
     bind (lc_get id) (\<lambda>l.
     if \<not> enabled l then ret (disabled_result ''session_start'')
     else if session_started l then
       ret (JObj [(''enabled'', JBool True), (''event'', JStr ''session_start''), (''created'', JBool False),
                  (''skipped'', JStr ''duplicate'')])
     else andthen (lc_modify (\<lambda>l. l\<lparr>session_started := True\<rparr>))
       (lc_create_checkpoint rpc ''session_start'' 0 ''session-start''
          (case rsid of Some (c # r) \<Rightarrow> [(''runtime_session_id'', JStr (c # r))] | _ \<Rightarrow> []) cid ts))"

text \<open>A message that is no string is remembered as the empty string.\<close>

definition on_user_message :: "json \<Rightarrow> ('w, json) lop" where
  "on_user_message m =
     (let kept = (case m of JStr s \<Rightarrow> take MESSAGE_LIMIT s | _ \<Rightarrow> []) in
      andthen (lc_modify (\<lambda>l. l\<lparr>last_user_message := kept\<rparr>))
      (lc_get (\<lambda>l. JObj [(''enabled'', JBool (enabled l)), (''event'', JStr ''message_received''),
                         (''captured'', JBool (kept \<noteq> []))])))"

definition turn_skipped :: "string \<Rightarrow> string option \<Rightarrow> json" where
  "turn_skipped why tid = JObj [(''enabled'', JBool True), (''event'', JStr ''turn_end''), (''created'', JBool False),
     (''skipped'', JStr why), (''turn_id'', dict_of_opt tid)]"

definition given :: "string option \<Rightarrow> bool" where
  "given tid = (case tid of Some (c # r) \<Rightarrow> True | _ \<Rightarrow> False)"

definition on_turn_end ::
  "'w rpc \<Rightarrow> string option \<Rightarrow> bool \<Rightarrow> bool \<Rightarrow> string \<Rightarrow> string \<Rightarrow> ('w, json) lop" where
  "on_turn_end rpc tid completed interrupted cid ts =
     bind (lc_get id) (\<lambda>l.
     if \<not> enabled l then ret (disabled_result ''turn_end'')
     else if given tid \<and> the tid \<in> seen_turn_ids l then ret (turn_skipped ''duplicate'' tid)
     else andthen (whenM (given tid) (lc_modify (\<lambda>l. l\<lparr>seen_turn_ids := insert (the tid) (seen_turn_ids l)\<rparr>)))
       (if skip_next_auto_checkpoint l
        then andthen (lc_modify (\<lambda>l. l\<lparr>skip_next_auto_checkpoint := False\<rparr>)) (ret (turn_skipped ''rollback'' tid))
        else andthen (lc_modify (\<lambda>l. l\<lparr>turn_count := turn_count l + 1\<rparr>))
          (lc_create_checkpoint rpc ''turn_end'' (turn_count l + 1)
             (if last_user_message l = [] then ''agent turn'' else last_user_message l)
             ([(''success'', JBool completed), (''interrupted'', JBool interrupted)] @
              (if given tid then [(''turn_id'', JStr (the tid))] else [])) cid ts)))"

definition mark_rollback :: "('w, unit) lop" where
  "mark_rollback = lc_modify (\<lambda>l. l\<lparr>skip_next_auto_checkpoint := True\<rparr>)"

definition opt_int :: "int option \<Rightarrow> json" where
  "opt_int n = (case n of None \<Rightarrow> JNull | Some i \<Rightarrow> JInt i)"

definition lc_rollback :: "'w rpc \<Rightarrow> string option \<Rightarrow> int option \<Rightarrow> bool \<Rightarrow> ('w, json) lop" where
  "lc_rollback rpc c anc scrub =
     bind (lc_get id) (\<lambda>l.
     bind (call_rpc rpc ''session.rollback''
        [(''agent_id'', JStr (lc_agent_id l)), (''session_id'', JStr (lc_session_id l)),
         (''checkpoint_id'', dict_of_opt c), (''num_ancestors'', opt_int anc), (''scrub_runtime'', JBool scrub),
         (''origin'', JStr ''turn-lifecycle'')]) (\<lambda>x.
     andthen mark_rollback (ret x)))"

text \<open>
  The context manager \<open>turn\<close> around one Agent invocation; \<open>interrupt\<close> tells which exceptions of the
  body are \<open>KeyboardInterrupt\<close> or \<open>SystemExit\<close>.
\<close>

definition turn ::
  "'w rpc \<Rightarrow> (error \<Rightarrow> bool) \<Rightarrow> json \<Rightarrow> string option \<Rightarrow> string \<Rightarrow> string \<Rightarrow> ('w, 'a) lop \<Rightarrow> ('w, 'a) lop" where
  "turn rpc interrupt message tid cid ts body =
     andthen (on_user_message message)
     (bind (catch (\<lambda>_. True) body
        (\<lambda>e. andthen (on_turn_end rpc tid False (interrupt e) cid ts) (raise e))) (\<lambda>x.
      andthen (on_turn_end rpc tid True False cid ts) (ret x)))"

section \<open>Histories\<close>

text \<open>The client with a log of its calls, and the events a runtime adapter can deliver.\<close>

definition logged :: "'w rpc \<Rightarrow> ('w \<times> (string \<times> jdict) list) rpc" where
  "logged rpc action params = (\<lambda>(w, lg). case rpc action params w of (r, w') \<Rightarrow> (r, (w', lg @ [(action, params)])))"

datatype levent =
    EStart "string option" string string
  | EMessage json
  | ETurnEnd "string option" bool bool string string
  | ERollback "string option" "int option" bool
  | EMark
  | EEnable bool

fun run_event :: "'w rpc \<Rightarrow> levent \<Rightarrow> ('w, unit) lop" where
  "run_event rpc (EStart r cid ts) = bind (on_session_start rpc r cid ts) (\<lambda>_. ret ())"
| "run_event rpc (EMessage m) = bind (on_user_message m) (\<lambda>_. ret ())"
| "run_event rpc (ETurnEnd t c i cid ts) = bind (on_turn_end rpc t c i cid ts) (\<lambda>_. ret ())"
| "run_event rpc (ERollback c n s) = bind (lc_rollback rpc c n s) (\<lambda>_. ret ())"
| "run_event rpc EMark = mark_rollback"
| "run_event rpc (EEnable b) = set_enabled b"

fun run_events :: "'w rpc \<Rightarrow> levent list \<Rightarrow> lifecycle \<times> 'w \<Rightarrow> lifecycle \<times> 'w" where
  "run_events rpc [] st = st"
| "run_events rpc (e # es) st = run_events rpc es (snd (run_event rpc e st))"

definition md_field :: "string \<Rightarrow> string \<times> jdict \<Rightarrow> json" where
  "md_field f c = (case jget (snd c) ''metadata'' of JObj m \<Rightarrow> jget m f | _ \<Rightarrow> JNull)"

lemma md_field_params [simp]: "md_field f (a, checkpoint_params l cid msg md) = jget md f"
  by (simp add: md_field_def checkpoint_params_def dict_get_def)

definition turn_calls :: "(string \<times> jdict) list \<Rightarrow> (string \<times> jdict) list" where
  "turn_calls lg = filter (\<lambda>c. fst c = ''checkpoint.create'' \<and> md_field ''event'' c = JStr ''turn_end'') lg"

definition start_calls :: "(string \<times> jdict) list \<Rightarrow> (string \<times> jdict) list" where
  "start_calls lg = filter (\<lambda>c. fst c = ''checkpoint.create'' \<and> md_field ''event'' c = JStr ''session_start'') lg"

definition turn_ids :: "(string \<times> jdict) list \<Rightarrow> string list" where
  "turn_ids lg = concat (map (\<lambda>c. case md_field ''turn_id'' c of JStr t \<Rightarrow> [t] | _ \<Rightarrow> []) (turn_calls lg))"

definition history_ok :: "lifecycle \<Rightarrow> (string \<times> jdict) list \<Rightarrow> bool" where
  "history_ok l lg \<longleftrightarrow> 0 \<le> turn_count l \<and>
     map (md_field ''turn'') (turn_calls lg) = map JInt [1..turn_count l] \<and>
     distinct (turn_ids lg) \<and> set (turn_ids lg) \<subseteq> seen_turn_ids l \<and>
     length (start_calls lg) \<le> (if session_started l then 1 else 0)"

lemma wp_lc_get [wp_simps]: "wp (lc_get f) Q E st = Q (f (fst st)) st"
  by (cases st) (simp add: lc_get_def wp_gets)

lemma wp_lc_modify [wp_simps]: "wp (lc_modify f) Q E st = Q () (f (fst st), snd st)"
  by (cases st) (simp add: lc_modify_def wp_modify)

lemma wp_call_rpc:
  "wp (call_rpc rpc a p) Q E st = (case rpc a p (snd st) of
     (Inl e, w') \<Rightarrow> E e (fst st, w') | (Inr x, w') \<Rightarrow> Q x (fst st, w'))"
  by (cases st) (auto simp: wp_def call_rpc_def split: prod.splits sum.splits)

text \<open>A checkpoint attempt logs one call, whatever the service answers.\<close>

lemma wp_lc_create:
  assumes "\<And>w'. I (l, (w', lg @ [(''checkpoint.create'', checkpoint_params l cid message
      (dict_merge [(''auto'', JBool True), (''event'', JStr event), (''turn'', JInt n), (''timestamp'', JStr ts)] md))]))"
  shows "wp (lc_create_checkpoint (logged rpc) event n message md cid ts) (\<lambda>_. I) (\<lambda>_. I) (l, (w, lg))"
  using assms unfolding lc_create_checkpoint_def Let_def
  by (auto simp: wp_simps wp_call_rpc logged_def split: prod.splits sum.splits json.splits)

definition hist :: "lifecycle \<times> ('w \<times> (string \<times> jdict) list) \<Rightarrow> bool" where
  "hist st = history_ok (fst st) (snd (snd st))"

lemma filter_calls_append:
  "turn_calls (lg @ [c]) = turn_calls lg @ (if fst c = ''checkpoint.create'' \<and> md_field ''event'' c = JStr ''turn_end'' then [c] else [])"
  "start_calls (lg @ [c]) = start_calls lg @ (if fst c = ''checkpoint.create'' \<and> md_field ''event'' c = JStr ''session_start'' then [c] else [])"
  by (simp_all add: turn_calls_def start_calls_def)

lemma turn_ids_append:
  "turn_ids (lg @ [c]) = turn_ids lg @ (if fst c = ''checkpoint.create'' \<and> md_field ''event'' c = JStr ''turn_end''
     then (case md_field ''turn_id'' c of JStr t \<Rightarrow> [t] | _ \<Rightarrow> []) else [])"
  by (auto simp: turn_ids_def filter_calls_append)

lemma start_keeps:
  fixes rpc :: "'w rpc"
  assumes "hist st"
  shows "wp (on_session_start (logged rpc) r cid ts) (\<lambda>_. hist) (\<lambda>_. hist) st"
proof -
  obtain l w lg where st: "st = (l, (w, lg))" by (cases st) auto
  show ?thesis
  proof (cases "enabled l \<and> \<not> session_started l")
    case True
    define m where "m = (case r of Some (c # r) \<Rightarrow> [(''runtime_session_id'', JStr (c # r))] | _ \<Rightarrow> [])"
    have m: "m = [] \<or> (\<exists>x. m = [(''runtime_session_id'', x)])"
      unfolding m_def by (simp split: option.split list.split)
    have "hist (l\<lparr>session_started := True\<rparr>, (w', lg @ [(''checkpoint.create'',
        checkpoint_params (l\<lparr>session_started := True\<rparr>) cid ''session-start''
          (dict_merge [(''auto'', JBool True), (''event'', JStr ''session_start''), (''turn'', JInt 0), (''timestamp'', JStr ts)]
            m))]))" for w' :: 'w
      using assms True m
      by (elim disjE exE) (simp_all add: st hist_def history_ok_def filter_calls_append turn_ids_append dict_get_def)
    then show ?thesis
      using True unfolding on_session_start_def st m_def [symmetric] by (auto simp: wp_simps intro!: wp_lc_create)
  next
    case False
    then show ?thesis using assms unfolding on_session_start_def st by (auto simp: wp_simps)
  qed
qed

lemma turn_end_keeps:
  fixes rpc :: "'w rpc"
  assumes "hist st"
  shows "wp (on_turn_end (logged rpc) tid c i cid ts) (\<lambda>_. hist) (\<lambda>_. hist) st"
proof -
  obtain l w lg where st: "st = (l, (w, lg))" by (cases st) auto
  define seen where "seen = (if given tid then insert (the tid) (seen_turn_ids l) else seen_turn_ids l)"
  define l' where "l' = l\<lparr>seen_turn_ids := seen, turn_count := turn_count l + 1\<rparr>"
  have up: "[1..turn_count l + 1] = [1..turn_count l] @ [turn_count l + 1]" if "0 \<le> turn_count l"
    using that by (simp add: upto_rec2)
  have step: "hist (l', (w', lg @ [(''checkpoint.create'', checkpoint_params l' cid message
      (dict_merge [(''auto'', JBool True), (''event'', JStr ''turn_end''), (''turn'', JInt (turn_count l + 1)), (''timestamp'', JStr ts)]
        ([(''success'', JBool c), (''interrupted'', JBool i)] @ (if given tid then [(''turn_id'', JStr (the tid))] else []))))]))"
    if "\<not> (given tid \<and> the tid \<in> seen_turn_ids l)" for w' :: 'w and message
    using assms that up
    by (auto simp: st hist_def history_ok_def filter_calls_append turn_ids_append l'_def seen_def dict_get_def)
  have other: "hist (l\<lparr>seen_turn_ids := seen, skip_next_auto_checkpoint := False\<rparr>, w, lg)"
    using assms by (auto simp: st hist_def history_ok_def seen_def)
  show ?thesis
    using assms step other unfolding on_turn_end_def st
    by (auto simp: wp_simps seen_def l'_def intro!: wp_lc_create)
qed

lemma wp_drop: "wp (bind m (\<lambda>_. ret ())) (\<lambda>_. P) E s = wp m (\<lambda>_. P) E s"
  by (auto simp: wp_def bind_def ret_def split: prod.splits sum.splits)

lemma event_keeps: "hist st \<Longrightarrow> wp (run_event (logged rpc) e) (\<lambda>_. hist) (\<lambda>_. hist) st"
proof (cases e)
  case (EStart r cid ts)
  then show "hist st \<Longrightarrow> ?thesis" using start_keeps [of st rpc r cid ts] by (simp add: wp_drop)
next
  case (ETurnEnd t c i cid ts)
  then show "hist st \<Longrightarrow> ?thesis" using turn_end_keeps [of st rpc t c i cid ts] by (simp add: wp_drop)
next
  case (ERollback c n s)
  then show "hist st \<Longrightarrow> ?thesis"
    by (cases st) (auto simp: wp_simps lc_rollback_def mark_rollback_def wp_call_rpc logged_def hist_def history_ok_def
        filter_calls_append turn_ids_append split: prod.splits sum.splits)
qed (simp_all add: wp_simps on_user_message_def Let_def mark_rollback_def set_enabled_def hist_def history_ok_def)

lemma snd_wp: "wp m (\<lambda>_. P) (\<lambda>_. P) s \<Longrightarrow> P (snd (m s))"
  by (auto simp: wp_def split: prod.splits sum.splits)

lemma events_keep: "hist st \<Longrightarrow> hist (run_events (logged rpc) es st)"
proof (induction es arbitrary: st)
  case (Cons e es)
  then show ?case using snd_wp [OF event_keeps [OF Cons.prems]] by simp
qed simp

section \<open>Properties\<close>

text \<open>
  C13. The checkpoint calls of a Session over its whole life: for every sequence of runtime events
  and whatever the workspace service answers or raises, the turn checkpoints are numbered
  \<open>1, 2, 3, ...\<close> without gap in the order of the calls, no turn identifier is checkpointed twice,
  and there is at most one baseline checkpoint.
\<close>

theorem turn_checkpoints_once:
  "let (l, w, lg) = run_events (logged rpc) es (new_lifecycle a s e, w0, []) in
     map (md_field ''turn'') (turn_calls lg) = map JInt [1..turn_count l] \<and>
     distinct (turn_ids lg) \<and> length (start_calls lg) \<le> 1"
proof -
  have "hist (new_lifecycle a s e, w0, [])"
    by (simp add: hist_def history_ok_def new_lifecycle_def turn_calls_def start_calls_def turn_ids_def)
  from events_keep [OF this, of rpc es] show ?thesis
    by (auto simp: hist_def history_ok_def split: prod.splits if_splits)
qed

text \<open>
  A failing checkpoint never fails the Agent turn: if the client answers with objects (an
  exception is allowed), both hooks return normally in every state.
\<close>

theorem hooks_do_not_block:
  assumes "\<And>act ps w x w'. rpc act ps w = (Inr x, w') \<Longrightarrow> is_obj x"
    and "\<And>act ps w w'. rpc act ps w \<noteq> (Inl Crashed, w')"
  shows "(\<exists>x. fst (on_turn_end rpc tid c i cid ts st) = Inr x) \<and>
    (\<exists>x. fst (on_session_start rpc r cid ts st) = Inr x)"
proof -
  have create: "wp (lc_create_checkpoint rpc ev n msg md cid ts) (\<lambda>_ _. True) (\<lambda>_ _. False) st" for ev n msg md st
    using assms unfolding lc_create_checkpoint_def Let_def
    by (auto simp: wp_simps wp_call_rpc split: prod.splits sum.splits json.splits) fastforce+
  have "wp (on_turn_end rpc tid c i cid ts) (\<lambda>_ _. True) (\<lambda>_ _. False) st"
    unfolding on_turn_end_def using create by (auto simp: wp_simps)
  moreover have "wp (on_session_start rpc r cid ts) (\<lambda>_ _. True) (\<lambda>_ _. False) st"
    unfolding on_session_start_def using create by (auto simp: wp_simps)
  ultimately show ?thesis by (auto simp: wp_def split: prod.splits sum.splits)
qed

theorem hooks_do_not_block_witness:
  "(\<exists>x. fst (on_turn_end (\<lambda>_ _. raise (WorkspaceError ''busy'')) (Some ''t'') True False ''c'' ''now''
       (new_lifecycle ''x'' ''y'' True, ())) = Inr x) \<and>
   (\<exists>x. fst (on_session_start (\<lambda>_ _. raise (WorkspaceError ''busy'')) None ''c'' ''now''
       (new_lifecycle ''x'' ''y'' True, ())) = Inr x)"
  by (rule hooks_do_not_block) (simp_all add: raise_def)

text \<open>
  C14. A rollback through the lifecycle suppresses exactly one automatic checkpoint: the next new
  turn end calls nothing and leaves the turn count, and the flag is cleared for the turn after it.
\<close>

theorem rollback_suppresses_one_checkpoint:
  assumes "enabled l" and "given tid \<longrightarrow> the tid \<notin> seen_turn_ids l"
    and "lc_rollback rpc c n s (l, w) = (Inr x, (l', w'))"
  shows "\<exists>l''. on_turn_end rpc tid ok i cid ts (l', w') = (Inr (turn_skipped ''rollback'' tid), (l'', w')) \<and>
    turn_count l'' = turn_count l \<and> \<not> skip_next_auto_checkpoint l''"
proof -
  have "l' = l\<lparr>skip_next_auto_checkpoint := True\<rparr>"
    using assms(3) by (auto simp: lc_rollback_def call_rpc_def mark_rollback_def lc_get_def lc_modify_def io_defs
        split: prod.splits sum.splits)
  then show ?thesis
    using assms(1,2) by (auto simp: on_turn_end_def lc_get_def lc_modify_def io_defs)
qed

theorem rollback_suppresses_one_checkpoint_witness:
  "\<exists>l''. on_turn_end (\<lambda>_ _. ret (JObj [])) (Some ''t'') True False ''c'' ''now''
      ((new_lifecycle ''x'' ''y'' True)\<lparr>skip_next_auto_checkpoint := True\<rparr>, ()) =
      (Inr (turn_skipped ''rollback'' (Some ''t'')), (l'', ())) \<and> turn_count l'' = 0 \<and> \<not> skip_next_auto_checkpoint l''"
proof -
  have "lc_rollback (\<lambda>_ _. ret (JObj [])) None (Some 1) True (new_lifecycle ''x'' ''y'' True, ()) =
      (Inr (JObj []), ((new_lifecycle ''x'' ''y'' True)\<lparr>skip_next_auto_checkpoint := True\<rparr>, ()))"
    by (simp add: lc_rollback_def call_rpc_def mark_rollback_def lc_get_def lc_modify_def io_defs)
  from rollback_suppresses_one_checkpoint [OF _ _ this, of "Some ''t''"] show ?thesis
    by (simp add: new_lifecycle_def)
qed

end
