(* ===== verification/Execution_Registry.thy ===== *)
theory Execution_Registry
  imports Identifiers
begin

text \<open>
  \<^verbatim>\<open>ExecutionRegistry\<close> of \<^verbatim>\<open>src/src/allox/workspace/daemon.py\<close>: the
  in-memory fence between command execution, checkpoint and rollback, runtime resets and share
  readers of a Session. Every method body runs under the registry lock, so one method call (or the
  entry and the exit of a context manager) is one atomic step. Tokens drawn from \<open>uuid4\<close> are
  arguments.
\<close>

section \<open>State and operations\<close>

type_synonym session_key = "string \<times> string"

record registry =
  leases :: "(string, session_key) dict"
  recovery_leases :: "string set"
  mutating :: "session_key set"
  background :: "(session_key, (string, string \<times> string) dict) dict"
  resets :: "(string, session_key) dict"
  share_readers :: "(session_key, int) dict"

definition empty_registry :: registry where
  "empty_registry = \<lparr>leases = [], recovery_leases = {}, mutating = {}, background = [], resets = [],
     share_readers = []\<rparr>"

type_synonym 'a rop = "(registry, 'a) op"

definition reg_key :: "string \<Rightarrow> string \<Rightarrow> session_key res" where
  "reg_key a s = bindR (validate_id ''agent'' a) (\<lambda>a. bindR (validate_id ''session'' s) (\<lambda>s. Inr (a, s)))"

definition ref_text :: "string \<Rightarrow> string \<Rightarrow> string" where
  "ref_text a s = a @ ''/'' @ s"

definition has_lease :: "registry \<Rightarrow> session_key \<Rightarrow> bool" where
  "has_lease r k = (k \<in> snd ` set (leases r))"

definition has_recovery_lease :: "registry \<Rightarrow> session_key \<Rightarrow> bool" where
  "has_recovery_lease r k = (\<exists>(t, k') \<in> set (leases r). t \<in> recovery_leases r \<and> k' = k)"

definition has_readers :: "registry \<Rightarrow> session_key \<Rightarrow> bool" where
  "has_readers r k = (dict_get (share_readers r) k 0 \<noteq> 0)"

definition has_background :: "registry \<Rightarrow> session_key \<Rightarrow> bool" where
  "has_background r k = (dict_get (background r) k [] \<noteq> [])"

definition acquire :: "string \<Rightarrow> string \<Rightarrow> bool \<Rightarrow> string \<Rightarrow> json rop" where
  "acquire a s recovery token =
     bind (lift_res (reg_key a s)) (\<lambda>k.
     bind (gets id) (\<lambda>r.
     andthen (require (k \<notin> mutating r)
       (WorkspaceError (''session is being checkpointed or restored: '' @ ref_text a s)))
     (andthen (require (\<not> has_lease r k)
       (WorkspaceError (''session already has an active execution: '' @ ref_text a s)))
     (andthen (require (\<not> (recovery \<and> has_readers r k))
       (WorkspaceError ''recovery execution cannot start with active share reads''))
     (andthen (require (\<not> (recovery \<and> has_background r k))
       (WorkspaceError ''recovery execution requires no persistent runtime executions''))
     (andthen (modify (\<lambda>r. r\<lparr>leases := dict_set token k (leases r),
         recovery_leases := (if recovery then insert token (recovery_leases r) else recovery_leases r)\<rparr>))
     (ret (JObj ([(''lease_token'', JStr token)] @
         (if recovery then [(''recovery_reserved'', JBool True)] else []))))))))))"

definition release :: "string \<Rightarrow> json rop" where
  "release token =
     bind (gets (\<lambda>r. token \<in> fst ` set (leases r))) (\<lambda>released.
     andthen (modify (\<lambda>r. r\<lparr>leases := dict_del token (leases r),
        recovery_leases := recovery_leases r - {token}\<rparr>))
     (ret (JObj [(''released'', JBool released)])))"

definition register_background :: "string \<Rightarrow> string \<Rightarrow> string \<Rightarrow> string \<Rightarrow> json rop" where
  "register_background a s sandbox exec_id =
     bind (lift_res (reg_key a s)) (\<lambda>k.
     andthen (require (sandbox \<noteq> [] \<and> exec_id \<noteq> [])
       (WorkspaceError ''background execution requires sandbox_id and execution_id''))
     (bind (gets id) (\<lambda>r.
      andthen (require (k \<notin> mutating r) (WorkspaceError (''session is being restored: '' @ ref_text a s)))
      (andthen (require (\<not> has_recovery_lease r k)
        (WorkspaceError ''session has an active recovery execution reservation''))
      (andthen (modify (\<lambda>r. r\<lparr>background := dict_set k
          (dict_set exec_id (sandbox, exec_id) (dict_get (background r) k [])) (background r)\<rparr>))
      (ret (JObj [(''registered'', JBool True), (''execution_id'', JStr exec_id)])))))))"

definition execution_json :: "string \<times> string \<Rightarrow> json" where
  "execution_json x = JObj [(''sandbox_id'', JStr (fst x)), (''execution_id'', JStr (snd x))]"

definition begin_runtime_reset :: "string \<Rightarrow> string \<Rightarrow> string \<Rightarrow> jdict rop" where
  "begin_runtime_reset a s token =
     bind (lift_res (reg_key a s)) (\<lambda>k.
     bind (gets id) (\<lambda>r.
     andthen (require (\<not> has_readers r k) (WorkspaceError ''session has active share reads''))
     (andthen (require (k \<notin> mutating r)
       (WorkspaceError (''session mutation already in progress: '' @ ref_text a s)))
     (andthen (require (\<not> has_lease r k)
       (WorkspaceError (''session has active executions: '' @ ref_text a s)))
     (andthen (modify (\<lambda>r. r\<lparr>mutating := insert k (mutating r), resets := dict_set token k (resets r)\<rparr>))
     (ret [(''reset_token'', JStr token),
        (''executions'', JList (map (\<lambda>(_, x). execution_json x) (dict_get (background r) k [])))]))))))"

definition complete_runtime_reset :: "string \<Rightarrow> bool \<Rightarrow> json rop" where
  "complete_runtime_reset token success =
     bind (gets (\<lambda>r. map_of (resets r) token)) (\<lambda>x. (case x of
        None \<Rightarrow> raise (WorkspaceError ''unknown runtime reset token'')
      | Some k \<Rightarrow>
          andthen (modify (\<lambda>r. r\<lparr>resets := dict_del token (resets r),
             background := (if success then dict_del k (background r) else background r),
             mutating := mutating r - {k}\<rparr>))
          (ret (JObj [(''completed'', JBool True), (''success'', JBool success)]))))"

text \<open>Entering \<open>reset_mutation\<close> only checks the token; leaving it does nothing.\<close>

definition reset_mutation :: "string \<Rightarrow> string \<Rightarrow> string \<Rightarrow> unit rop" where
  "reset_mutation token a s =
     bind (lift_res (reg_key a s)) (\<lambda>k.
     bind (gets id) (\<lambda>r.
     require (map_of (resets r) token = Some k \<and> k \<in> mutating r)
       (WorkspaceError ''invalid runtime reset token for session'')))"

definition mutation_enter :: "string \<Rightarrow> string \<Rightarrow> session_key rop" where
  "mutation_enter a s =
     bind (lift_res (reg_key a s)) (\<lambda>k.
     bind (gets id) (\<lambda>r.
     andthen (require (\<not> has_readers r k) (WorkspaceError ''session has active share reads''))
     (andthen (require (k \<notin> mutating r)
       (WorkspaceError (''session mutation already in progress: '' @ ref_text a s)))
     (andthen (require (\<not> has_lease r k)
       (WorkspaceError (''session has active executions: '' @ ref_text a s)))
     (andthen (require (\<not> has_background r k)
       (WorkspaceError (''session has persistent runtime executions: '' @ ref_text a s @
          ''; use runtime reset before rollback'')))
     (andthen (modify (\<lambda>r. r\<lparr>mutating := insert k (mutating r)\<rparr>)) (ret k)))))))"

definition mutation_exit :: "session_key \<Rightarrow> unit rop" where
  "mutation_exit k = modify (\<lambda>r. r\<lparr>mutating := mutating r - {k}\<rparr>)"

definition share_read_enter :: "string \<Rightarrow> string \<Rightarrow> session_key rop" where
  "share_read_enter a s =
     bind (lift_res (reg_key a s)) (\<lambda>k.
     bind (gets id) (\<lambda>r.
     andthen (require (k \<notin> mutating r) (WorkspaceError ''session is being checkpointed or restored''))
     (andthen (require (\<not> has_recovery_lease r k)
       (WorkspaceError ''session has an active recovery execution reservation''))
     (andthen (modify (\<lambda>r. r\<lparr>share_readers := dict_set k (dict_get (share_readers r) k 0 + 1) (share_readers r)\<rparr>))
     (ret k)))))"

definition share_read_exit :: "session_key \<Rightarrow> unit rop" where
  "share_read_exit k =
     bind (gets (\<lambda>r. map_of (share_readers r) k)) (\<lambda>n. (case n of
        None \<Rightarrow> raise KeyError
      | Some n \<Rightarrow> modify (\<lambda>r. r\<lparr>share_readers :=
           (if n - 1 = 0 then dict_del k (share_readers r) else dict_set k (n - 1) (share_readers r))\<rparr>)))"

text \<open>The context managers around a body that works on a larger state.\<close>

definition share_access :: "string \<Rightarrow> string \<Rightarrow> bool \<Rightarrow> 'a rop \<Rightarrow> 'a rop" where
  "share_access a s write body =
     (if write then bind (mutation_enter a s) (\<lambda>k. finally_do body (mutation_exit k))
      else bind (share_read_enter a s) (\<lambda>k. finally_do body (share_read_exit k)))"

section \<open>Abstract fence\<close>

text \<open>
  What the registry promises, without its representation: leases and reset tokens as maps, the
  sessions inside \<open>mutation\<close>, the number of share readers and the background executions.
\<close>

record 'k fence =
  f_leases :: "string \<rightharpoonup> 'k"
  f_recovery :: "string set"
  f_resets :: "string \<rightharpoonup> 'k"
  f_mutators :: "'k set"
  f_readers :: "'k \<Rightarrow> nat"
  f_background :: "'k \<Rightarrow> string set"

definition f_leased :: "'k fence \<Rightarrow> 'k \<Rightarrow> bool" where
  "f_leased F k = (\<exists>t. f_leases F t = Some k)"

definition f_reserved :: "'k fence \<Rightarrow> 'k \<Rightarrow> bool" where
  "f_reserved F k = (\<exists>t \<in> f_recovery F. f_leases F t = Some k)"

definition f_fenced :: "'k fence \<Rightarrow> 'k \<Rightarrow> bool" where
  "f_fenced F k = (k \<in> f_mutators F \<or> (\<exists>t. f_resets F t = Some k))"

datatype 'k fcmd =
    FAcquire 'k bool string
  | FRelease string
  | FBackground 'k string string
  | FBeginReset 'k string
  | FEndReset string bool
  | FEnter 'k
  | FExit 'k
  | FRead 'k
  | FDone 'k

text \<open>
  Which calls can arise at all: a new token is unused, which is what \<open>uuid4\<close> is relied on for, and a
  context manager is only left by a thread that is inside it.
\<close>

fun f_may :: "'k fence \<Rightarrow> 'k fcmd \<Rightarrow> bool" where
  "f_may F (FAcquire k b t) = (f_leases F t = None)"
| "f_may F (FBeginReset k t) = (f_resets F t = None)"
| "f_may F (FExit k) = (k \<in> f_mutators F)"
| "f_may F (FDone k) = (0 < f_readers F k)"
| "f_may F c = True"

text \<open>Which of them the fence permits; \<open>ok\<close> is the validity of session identifiers.\<close>

fun f_guard :: "('k \<Rightarrow> bool) \<Rightarrow> 'k fence \<Rightarrow> 'k fcmd \<Rightarrow> bool" where
  "f_guard ok F (FAcquire k b t) = (ok k \<and> \<not> f_fenced F k \<and> \<not> f_leased F k \<and>
     (b \<longrightarrow> f_readers F k = 0 \<and> f_background F k = {}))"
| "f_guard ok F (FRelease t) = True"
| "f_guard ok F (FBackground k sb e) = (ok k \<and> sb \<noteq> [] \<and> e \<noteq> [] \<and> \<not> f_fenced F k \<and> \<not> f_reserved F k)"
| "f_guard ok F (FBeginReset k t) = (ok k \<and> \<not> f_fenced F k \<and> \<not> f_leased F k \<and> f_readers F k = 0)"
| "f_guard ok F (FEndReset t b) = (f_resets F t \<noteq> None)"
| "f_guard ok F (FEnter k) = (ok k \<and> \<not> f_fenced F k \<and> \<not> f_leased F k \<and> f_readers F k = 0 \<and> f_background F k = {})"
| "f_guard ok F (FExit k) = True"
| "f_guard ok F (FRead k) = (ok k \<and> \<not> f_fenced F k \<and> \<not> f_reserved F k)"
| "f_guard ok F (FDone k) = True"

fun f_exec :: "'k fence \<Rightarrow> 'k fcmd \<Rightarrow> 'k fence" where
  "f_exec F (FAcquire k b t) = F\<lparr>f_leases := (f_leases F)(t \<mapsto> k),
     f_recovery := (if b then insert t (f_recovery F) else f_recovery F)\<rparr>"
| "f_exec F (FRelease t) = F\<lparr>f_leases := (f_leases F)(t := None), f_recovery := f_recovery F - {t}\<rparr>"
| "f_exec F (FBackground k sb e) = F\<lparr>f_background := (f_background F)(k := insert e (f_background F k))\<rparr>"
| "f_exec F (FBeginReset k t) = F\<lparr>f_resets := (f_resets F)(t \<mapsto> k)\<rparr>"
| "f_exec F (FEndReset t b) = F\<lparr>f_resets := (f_resets F)(t := None),
     f_background := (if b then (f_background F)(the (f_resets F t) := {}) else f_background F)\<rparr>"
| "f_exec F (FEnter k) = F\<lparr>f_mutators := insert k (f_mutators F)\<rparr>"
| "f_exec F (FExit k) = F\<lparr>f_mutators := f_mutators F - {k}\<rparr>"
| "f_exec F (FRead k) = F\<lparr>f_readers := (f_readers F)(k := f_readers F k + 1)\<rparr>"
| "f_exec F (FDone k) = F\<lparr>f_readers := (f_readers F)(k := f_readers F k - 1)\<rparr>"

text \<open>Mutual exclusion: what the fence is for.\<close>

definition exclusive :: "'k fence \<Rightarrow> bool" where
  "exclusive F \<longleftrightarrow> (\<forall>k.
     (f_fenced F k \<longrightarrow> \<not> f_leased F k \<and> f_readers F k = 0) \<and>
     (k \<in> f_mutators F \<longrightarrow> (\<forall>t. f_resets F t \<noteq> Some k)) \<and>
     (f_reserved F k \<longrightarrow> f_readers F k = 0 \<and> f_background F k = {}) \<and>
     (\<forall>t t'. f_leases F t = Some k \<and> f_leases F t' = Some k \<longrightarrow> t = t') \<and>
     (\<forall>t t'. f_resets F t = Some k \<and> f_resets F t' = Some k \<longrightarrow> t = t'))
   \<and> f_recovery F \<subseteq> dom (f_leases F)"

lemmas fence_unfold = exclusive_def f_fenced_def f_leased_def f_reserved_def

lemma f_exec_exclusive:
  assumes E: "exclusive F" and m: "f_may F c" and g: "f_guard ok F c"
  shows "exclusive (f_exec F c)"
proof (cases c)
  case (FAcquire k b t)
  with E m g show ?thesis unfolding FAcquire f_exec.simps f_guard.simps f_may.simps fence_unfold by (auto split: if_splits)
next
  case (FRelease t)
  with E m g show ?thesis unfolding FRelease f_exec.simps f_guard.simps f_may.simps fence_unfold by (auto split: if_splits)
next
  case (FBackground k sb e)
  with E m g show ?thesis unfolding FBackground f_exec.simps f_guard.simps f_may.simps fence_unfold by (auto split: if_splits)
next
  case (FBeginReset k t)
  with E m g show ?thesis unfolding FBeginReset f_exec.simps f_guard.simps f_may.simps fence_unfold by (auto split: if_splits)
next
  case (FEndReset t b)
  with E m g show ?thesis unfolding FEndReset f_exec.simps f_guard.simps f_may.simps fence_unfold by (auto split: if_splits)
next
  case (FEnter k)
  with E m g show ?thesis unfolding FEnter f_exec.simps f_guard.simps f_may.simps fence_unfold by (auto split: if_splits)
next
  case (FExit k)
  with E m g show ?thesis unfolding FExit f_exec.simps f_guard.simps f_may.simps fence_unfold by (auto split: if_splits)
next
  case (FRead k)
  with E m g show ?thesis unfolding FRead f_exec.simps f_guard.simps f_may.simps fence_unfold by (auto split: if_splits)
next
  case (FDone k)
  with E m g show ?thesis unfolding FDone f_exec.simps f_guard.simps f_may.simps fence_unfold by (auto split: if_splits)
qed

section \<open>The interface of a fence\<close>

text \<open>
  The contract the daemon relies on: among the calls that can arise, an operation succeeds exactly
  under its guard and acts as the abstract command. What follows for whole schedules of operations is
  proved once here; \<open>may\<close> says on the representation which calls can arise, and a schedule passes
  over the others.
\<close>

fun run_fence :: "('r \<Rightarrow> 'k fcmd \<Rightarrow> bool) \<Rightarrow> ('r \<Rightarrow> 'k fcmd \<Rightarrow> 'r res) \<Rightarrow> 'r \<Rightarrow> 'k fcmd list \<Rightarrow> 'r" where
  "run_fence may ex r [] = r"
| "run_fence may ex r (c # cs) =
     run_fence may ex (if may r c then (case ex r c of Inl _ \<Rightarrow> r | Inr r' \<Rightarrow> r') else r) cs"

locale session_fence =
  fixes inv :: "'r \<Rightarrow> bool" and vw :: "'r \<Rightarrow> 'k fence" and ok :: "'k \<Rightarrow> bool"
    and may :: "'r \<Rightarrow> 'k fcmd \<Rightarrow> bool" and ex :: "'r \<Rightarrow> 'k fcmd \<Rightarrow> 'r res"
  assumes may_view: "inv r \<Longrightarrow> may r c \<Longrightarrow> f_may (vw r) c"
    and ex_ok: "inv r \<Longrightarrow> may r c \<Longrightarrow> f_guard ok (vw r) c \<Longrightarrow> \<exists>r'. ex r c = Inr r' \<and> inv r' \<and> vw r' = f_exec (vw r) c"
    and ex_refused: "inv r \<Longrightarrow> \<not> f_guard ok (vw r) c \<Longrightarrow> \<exists>e. ex r c = Inl e"
begin

lemma step_inv:
  "inv r \<Longrightarrow> may r c \<Longrightarrow> ex r c = Inr r' \<Longrightarrow> f_guard ok (vw r) c \<and> inv r' \<and> vw r' = f_exec (vw r) c"
  using ex_ok [of r c] ex_refused [of r c] by (cases "f_guard ok (vw r) c") auto

lemma run_exclusive:
  "inv r \<Longrightarrow> exclusive (vw r) \<Longrightarrow> inv (run_fence may ex r cs) \<and> exclusive (vw (run_fence may ex r cs))"
proof (induction cs arbitrary: r)
  case (Cons c cs)
  define q where "q = (if may r c then (case ex r c of Inl _ \<Rightarrow> r | Inr r' \<Rightarrow> r') else r)"
  have "inv q \<and> exclusive (vw q)"
  proof (cases "may r c \<and> (\<exists>r'. ex r c = Inr r')")
    case True
    then obtain r' where r': "may r c" "ex r c = Inr r'" by blast
    then have "inv r'" "exclusive (vw r')"
      using step_inv [OF Cons.prems(1) r'] f_exec_exclusive [OF Cons.prems(2) may_view [OF Cons.prems(1) r'(1)]] by auto
    then show ?thesis by (simp add: q_def r')
  next
    case False
    then show ?thesis using Cons.prems by (auto simp: q_def split: sum.splits)
  qed
  then show ?case using Cons.IH [of q] by (simp add: q_def)
qed simp

lemma fenced_blocks:
  assumes "inv r" and "f_fenced (vw r) k"
  shows "\<exists>e. ex r (FAcquire k b t) = Inl e" and "\<exists>e. ex r (FRead k) = Inl e"
    and "\<exists>e. ex r (FEnter k) = Inl e" and "\<exists>e. ex r (FBeginReset k t) = Inl e"
  using assms by (auto intro!: ex_refused)

end

section \<open>The registry provides it\<close>

definition valid_key :: "session_key \<Rightarrow> bool" where
  "valid_key k = (ID_RE_fullmatch (fst k) \<and> ID_RE_fullmatch (snd k))"

definition reg_view :: "registry \<Rightarrow> session_key fence" where
  "reg_view r = \<lparr>f_leases = map_of (leases r), f_recovery = recovery_leases r, f_resets = map_of (resets r),
     f_mutators = mutating r - snd ` set (resets r),
     f_readers = (\<lambda>k. nat (dict_get (share_readers r) k 0)),
     f_background = (\<lambda>k. fst ` set (dict_get (background r) k []))\<rparr>"

definition wf_registry :: "registry \<Rightarrow> bool" where
  "wf_registry r \<longleftrightarrow> distinct (dict_keys (leases r)) \<and> distinct (dict_keys (resets r)) \<and>
     recovery_leases r \<subseteq> fst ` set (leases r) \<and> snd ` set (resets r) \<subseteq> mutating r \<and>
     distinct (map snd (resets r)) \<and> (\<forall>n \<in> snd ` set (share_readers r). 0 < n)"

text \<open>Commands as the calls of the registry, nothing added; and which of them can arise.\<close>

definition run_op :: "'a rop \<Rightarrow> registry \<Rightarrow> registry res" where
  "run_op m r = (case m r of (Inl e, _) \<Rightarrow> Inl e | (Inr _, r') \<Rightarrow> Inr r')"

fun reg_exec :: "registry \<Rightarrow> session_key fcmd \<Rightarrow> registry res" where
  "reg_exec r (FAcquire k b t) = run_op (acquire (fst k) (snd k) b t) r"
| "reg_exec r (FRelease t) = run_op (release t) r"
| "reg_exec r (FBackground k sb e) = run_op (register_background (fst k) (snd k) sb e) r"
| "reg_exec r (FBeginReset k t) = run_op (begin_runtime_reset (fst k) (snd k) t) r"
| "reg_exec r (FEndReset t b) = run_op (complete_runtime_reset t b) r"
| "reg_exec r (FEnter k) = run_op (mutation_enter (fst k) (snd k)) r"
| "reg_exec r (FExit k) = run_op (mutation_exit k) r"
| "reg_exec r (FRead k) = run_op (share_read_enter (fst k) (snd k)) r"
| "reg_exec r (FDone k) = run_op (share_read_exit k) r"

fun reg_may :: "registry \<Rightarrow> session_key fcmd \<Rightarrow> bool" where
  "reg_may r (FAcquire k b t) = (t \<notin> fst ` set (leases r))"
| "reg_may r (FBeginReset k t) = (t \<notin> fst ` set (resets r))"
| "reg_may r (FExit k) = (k \<in> mutating r - snd ` set (resets r))"
| "reg_may r (FDone k) = has_readers r k"
| "reg_may r c = True"

lemma reg_key_cases: "reg_key (fst k) (snd k) = (if valid_key k then Inr k else (if ID_RE_fullmatch (fst k) then Inl (invalid_id ''session'' (snd k)) else Inl (invalid_id ''agent'' (fst k))))"
  by (auto simp: reg_key_def valid_key_def validate_id_def)

lemma view_predicates:
  assumes "wf_registry r"
  shows "f_leased (reg_view r) k = has_lease r k"
    and "f_reserved (reg_view r) k = has_recovery_lease r k"
    and "f_fenced (reg_view r) k = (k \<in> mutating r)"
    and "(f_readers (reg_view r) k = 0) = (\<not> has_readers r k)"
    and "(f_background (reg_view r) k = {}) = (\<not> has_background r k)"
proof -
  have d: "distinct (dict_keys (leases r))" "distinct (dict_keys (resets r))" using assms by (simp_all add: wf_registry_def)
  show "f_leased (reg_view r) k = has_lease r k"
    using d(1) by (force simp: f_leased_def reg_view_def has_lease_def image_iff)
  show "f_reserved (reg_view r) k = has_recovery_lease r k"
    using d(1) by (auto simp: f_reserved_def reg_view_def has_recovery_lease_def)
  show "f_fenced (reg_view r) k = (k \<in> mutating r)"
    using d(2) assms by (force simp: f_fenced_def reg_view_def wf_registry_def image_iff)
  show "(f_readers (reg_view r) k = 0) = (\<not> has_readers r k)"
  proof (cases "map_of (share_readers r) k")
    case (Some n)
    then have "0 < n" using assms map_of_SomeD [OF Some] by (force simp: wf_registry_def)
    then show ?thesis using Some by (simp add: reg_view_def has_readers_def)
  qed (simp add: reg_view_def has_readers_def)
  show "(f_background (reg_view r) k = {}) = (\<not> has_background r k)"
    by (simp add: reg_view_def has_background_def)
qed

lemmas reg_defs = acquire_def release_def register_background_def begin_runtime_reset_def
  complete_runtime_reset_def mutation_enter_def mutation_exit_def share_read_enter_def share_read_exit_def

lemma fence_eqI:
  "f_leases F = f_leases G \<Longrightarrow> f_recovery F = f_recovery G \<Longrightarrow> f_resets F = f_resets G \<Longrightarrow>
   f_mutators F = f_mutators G \<Longrightarrow> f_readers F = f_readers G \<Longrightarrow> f_background F = f_background G \<Longrightarrow> F = G"
  for F G :: "'k fence"
  by (rule fence.equality) simp_all

text \<open>The guards and the state changes of the calls, read off the code.\<close>

fun reg_guard :: "registry \<Rightarrow> session_key fcmd \<Rightarrow> bool" where
  "reg_guard r (FAcquire k b t) = (valid_key k \<and> k \<notin> mutating r \<and> \<not> has_lease r k \<and>
     (b \<longrightarrow> \<not> has_readers r k \<and> \<not> has_background r k))"
| "reg_guard r (FRelease t) = True"
| "reg_guard r (FBackground k sb e) = (valid_key k \<and> sb \<noteq> [] \<and> e \<noteq> [] \<and> k \<notin> mutating r \<and> \<not> has_recovery_lease r k)"
| "reg_guard r (FBeginReset k t) = (valid_key k \<and> k \<notin> mutating r \<and> \<not> has_lease r k \<and> \<not> has_readers r k)"
| "reg_guard r (FEndReset t b) = (t \<in> fst ` set (resets r))"
| "reg_guard r (FEnter k) = (valid_key k \<and> k \<notin> mutating r \<and> \<not> has_lease r k \<and> \<not> has_readers r k \<and> \<not> has_background r k)"
| "reg_guard r (FExit k) = True"
| "reg_guard r (FRead k) = (valid_key k \<and> k \<notin> mutating r \<and> \<not> has_recovery_lease r k)"
| "reg_guard r (FDone k) = True"

fun reg_next :: "registry \<Rightarrow> session_key fcmd \<Rightarrow> registry" where
  "reg_next r (FAcquire k b t) = r\<lparr>leases := dict_set t k (leases r),
     recovery_leases := (if b then insert t (recovery_leases r) else recovery_leases r)\<rparr>"
| "reg_next r (FRelease t) = r\<lparr>leases := dict_del t (leases r), recovery_leases := recovery_leases r - {t}\<rparr>"
| "reg_next r (FBackground k sb e) =
     r\<lparr>background := dict_set k (dict_set e (sb, e) (dict_get (background r) k [])) (background r)\<rparr>"
| "reg_next r (FBeginReset k t) = r\<lparr>mutating := insert k (mutating r), resets := dict_set t k (resets r)\<rparr>"
| "reg_next r (FEndReset t b) = (let k = the (map_of (resets r) t) in
     r\<lparr>resets := dict_del t (resets r), background := (if b then dict_del k (background r) else background r),
       mutating := mutating r - {k}\<rparr>)"
| "reg_next r (FEnter k) = r\<lparr>mutating := insert k (mutating r)\<rparr>"
| "reg_next r (FExit k) = r\<lparr>mutating := mutating r - {k}\<rparr>"
| "reg_next r (FRead k) = r\<lparr>share_readers := dict_set k (dict_get (share_readers r) k 0 + 1) (share_readers r)\<rparr>"
| "reg_next r (FDone k) = (let n = dict_get (share_readers r) k 0 in r\<lparr>share_readers :=
     (if n - 1 = 0 then dict_del k (share_readers r) else dict_set k (n - 1) (share_readers r))\<rparr>)"

lemma reg_exec_next: "wf_registry r \<Longrightarrow> reg_may r c \<Longrightarrow> reg_guard r c \<Longrightarrow> reg_exec r c = Inr (reg_next r c)"
proof (cases c)
  case (FEndReset t b)
  then show "wf_registry r \<Longrightarrow> reg_may r c \<Longrightarrow> reg_guard r c \<Longrightarrow> reg_exec r c = Inr (reg_next r c)"
    by (auto simp: run_op_def reg_defs io_defs Let_def map_of_eq_None_iff split: option.splits)
next
  case (FDone k)
  then show "wf_registry r \<Longrightarrow> reg_may r c \<Longrightarrow> reg_guard r c \<Longrightarrow> reg_exec r c = Inr (reg_next r c)"
    by (cases "map_of (share_readers r) k") (auto simp: run_op_def reg_defs io_defs has_readers_def Let_def)
qed (auto simp: run_op_def reg_defs io_defs reg_key_cases)

lemma reg_exec_refused: "wf_registry r \<Longrightarrow> \<not> reg_guard r c \<Longrightarrow> \<exists>e. reg_exec r c = Inl e"
proof (cases c)
  case (FEndReset t b)
  then show "wf_registry r \<Longrightarrow> \<not> reg_guard r c \<Longrightarrow> \<exists>e. reg_exec r c = Inl e"
    by (cases "map_of (resets r) t") (force simp: run_op_def reg_defs io_defs dest: map_of_SomeD)+
qed (auto simp: run_op_def reg_defs io_defs reg_key_cases)

lemma reg_view_sel [simp]:
  "f_leases (reg_view r) = map_of (leases r)" "f_recovery (reg_view r) = recovery_leases r"
  "f_resets (reg_view r) = map_of (resets r)" "f_mutators (reg_view r) = mutating r - snd ` set (resets r)"
  "f_readers (reg_view r) k = nat (dict_get (share_readers r) k 0)"
  "f_background (reg_view r) k = fst ` set (dict_get (background r) k [])"
  by (simp_all add: reg_view_def)

lemma guard_view:
  assumes "wf_registry r"
  shows "f_guard valid_key (reg_view r) c = reg_guard r c"
  by (cases c) (use view_predicates [OF assms] in \<open>auto simp: map_of_eq_None_iff simp del: reg_view_sel(5,6)\<close>)

lemma may_view:
  assumes "wf_registry r"
  shows "f_may (reg_view r) c = reg_may r c"
proof (cases c)
  case (FDone k)
  then show ?thesis using view_predicates(4) [OF assms, of k] by (simp add: not_le [symmetric])
qed (auto simp: map_of_eq_None_iff)

lemma dict_get_del: "dict_get (dict_del k d) x v = (if x = k then v else dict_get d x v)"
  by (simp add: dict_get_def)

lemma snd_dict_set_new: "k \<notin> fst ` set d \<Longrightarrow> snd ` set (dict_set k v d) = insert v (snd ` set d)"
  by (induction d) auto

lemma dict_set_new: "k \<notin> fst ` set d \<Longrightarrow> dict_set k v d = d @ [(k, v)]"
  by (induction d) auto

lemma distinct_values_del: "distinct (map snd d) \<Longrightarrow> distinct (map snd (dict_del k d))"
  by (simp add: AList.delete_eq distinct_map_filter)

lemma values_del_other:
  assumes k: "distinct (dict_keys d)" and v: "distinct (map snd d)" and m: "map_of d t = Some y"
  shows "snd ` set (dict_del t d) = snd ` set d - {y}"
proof -
  have ty: "(t, y) \<in> set d" by (rule map_of_SomeD [OF m])
  have one: "a = t" if "(a, y) \<in> set d" for a
    using v inj_onD [of snd "set d" "(a, y)" "(t, y)"] that ty by (simp add: distinct_map)
  have two: "x = y" if "(t, x) \<in> set d" for x
    using k that m by (simp add: map_of_is_SomeI)
  show ?thesis
  proof (intro set_eqI iffI)
    fix x assume "x \<in> snd ` set (dict_del t d)"
    then obtain a where a: "(a, x) \<in> set d" "a \<noteq> t" by (auto simp: AList.delete_eq)
    then show "x \<in> snd ` set d - {y}" using one by force
  next
    fix x assume "x \<in> snd ` set d - {y}"
    then obtain a where a: "(a, x) \<in> set d" "x \<noteq> y" by auto
    then have "(a, x) \<in> set (dict_del t d)" using two by (auto simp: AList.delete_eq)
    then show "x \<in> snd ` set (dict_del t d)" by force
  qed
qed

lemma positive_set: "\<forall>x \<in> set d. 0 < snd x \<Longrightarrow> (0::int) < v \<Longrightarrow> \<forall>x \<in> set (dict_set k v d). 0 < snd x"
  by (induction d) auto

lemma wf_reg_next:
  assumes wf: "wf_registry r" and m: "reg_may r c" and g: "reg_guard r c"
  shows "wf_registry (reg_next r c)"
proof (cases c)
  case (FBeginReset k t)
  then show ?thesis using wf m g by (auto simp: wf_registry_def dict_set_new)
next
  case (FEndReset t b)
  then obtain k where k: "map_of (resets r) t = Some k" using g map_of_dom by (metis reg_guard.simps(5))
  show ?thesis
    using wf values_del_other [OF _ _ k]
    by (auto simp: FEndReset wf_registry_def Let_def k distinct_values_del simp del: map_of_eq_Some_iff)
next
  case (FRead k)
  have "0 < dict_get (share_readers r) k 0 + 1"
    using wf by (cases "map_of (share_readers r) k") (force simp: wf_registry_def dest: map_of_SomeD)+
  then show ?thesis
    using wf positive_set [of "share_readers r" "dict_get (share_readers r) k 0 + 1" k]
    by (auto simp: FRead wf_registry_def)
next
  case (FDone k)
  have "0 < dict_get (share_readers r) k 0"
    using wf m g FDone by (cases "map_of (share_readers r) k") (force simp: wf_registry_def has_readers_def dest: map_of_SomeD)+
  then show ?thesis
    using wf positive_set [of "share_readers r" "dict_get (share_readers r) k 0 - 1" k]
    by (auto simp: FDone wf_registry_def Let_def AList.delete_eq)
qed (use wf m g in \<open>auto simp: wf_registry_def\<close>)

lemma view_reg_next:
  assumes wf: "wf_registry r" and m: "reg_may r c" and g: "reg_guard r c"
  shows "reg_view (reg_next r c) = f_exec (reg_view r) c"
proof (cases c)
  case (FBeginReset k t)
  then show ?thesis using wf m g
    by (intro fence_eqI) (auto simp: snd_dict_set_new wf_registry_def fun_eq_iff)
next
  case (FEndReset t b)
  then obtain k where k: "map_of (resets r) t = Some k" using g map_of_dom by (metis reg_guard.simps(5))
  show ?thesis
    using wf values_del_other [OF _ _ k] imageI [OF map_of_SomeD [OF k], of snd]
    by (intro fence_eqI)
       (auto simp: FEndReset wf_registry_def Let_def k fun_eq_iff dict_get_del simp del: map_of_eq_Some_iff)
next
  case (FRead k)
  have "0 \<le> dict_get (share_readers r) k 0"
    using wf by (cases "map_of (share_readers r) k") (force simp: wf_registry_def dest: map_of_SomeD)+
  then show ?thesis by (intro fence_eqI) (auto simp: FRead fun_eq_iff)
next
  case (FDone k)
  then show ?thesis by (intro fence_eqI) (auto simp: Let_def fun_eq_iff dict_get_del)
next
  case (FEnter k)
  then show ?thesis using wf m g by (intro fence_eqI) (auto simp: wf_registry_def fun_eq_iff)
next
  case (FExit k)
  then show ?thesis using wf m g by (intro fence_eqI) (auto simp: wf_registry_def fun_eq_iff)
qed (use wf m g in \<open>intro fence_eqI, auto simp: fun_eq_iff\<close>)

interpretation reg: session_fence wf_registry reg_view valid_key reg_may reg_exec
proof
  fix r c
  assume wf: "wf_registry r"
  show "reg_may r c \<Longrightarrow> f_may (reg_view r) c" using may_view [OF wf] by simp
  show "reg_may r c \<Longrightarrow> f_guard valid_key (reg_view r) c \<Longrightarrow>
      \<exists>r'. reg_exec r c = Inr r' \<and> wf_registry r' \<and> reg_view r' = f_exec (reg_view r) c"
    using guard_view [OF wf] reg_exec_next [OF wf] wf_reg_next [OF wf] view_reg_next [OF wf] by auto
  show "\<not> f_guard valid_key (reg_view r) c \<Longrightarrow> \<exists>e. reg_exec r c = Inl e"
    using guard_view [OF wf] reg_exec_refused [OF wf] by auto
qed

lemma wf_empty_registry: "wf_registry empty_registry"
  by (simp add: wf_registry_def empty_registry_def)

lemma exclusive_empty: "exclusive (reg_view empty_registry)"
  by (simp add: exclusive_def reg_view_def empty_registry_def f_fenced_def f_leased_def f_reserved_def)

section \<open>Properties\<close>

text \<open>
  C6. Mutual exclusion in every interleaving: after any sequence of registry calls, whatever their
  order and arguments, no Session is at the same time being mutated (or reset) and leased to an
  execution or read by a share; each Session has at most one lease, at most one reset and never a
  reset together with a mutation; a recovery reservation excludes share readers and background
  executions. Calls that cannot arise, a token drawn twice and an exit without an entry, are passed over.
\<close>

theorem registry_mutual_exclusion: "exclusive (reg_view (run_fence reg_may reg_exec empty_registry cs))"
  using reg.run_exclusive [OF wf_empty_registry exclusive_empty] by blast

lemma release_answer:
  "fst (release t r) = Inr (JObj [(''released'', JBool (f_leases (reg_view r) t \<noteq> None))])"
  by (cases "map_of (leases r) t") (auto simp: release_def io_defs map_of_eq_None_iff dest: map_of_SomeD intro: rev_image_eqI)

text \<open>
  C7. Refinement: on every well-formed registry, a call whose new token is unused, and which leaves a
  context manager only if some thread is inside it, returns exactly when the abstract fence permits it;
  then its effect on the view is the abstract one and the registry stays well formed, and otherwise it is
  an exception. A release is always permitted and answers whether the token was a lease.
\<close>

theorem registry_refines_fence:
  assumes "wf_registry r" and "f_may (reg_view r) c"
  shows "(case reg_exec r c of
      Inl e \<Rightarrow> \<not> f_guard valid_key (reg_view r) c
    | Inr r' \<Rightarrow> f_guard valid_key (reg_view r) c \<and> wf_registry r' \<and> reg_view r' = f_exec (reg_view r) c) \<and>
    fst (release t r) = Inr (JObj [(''released'', JBool (f_leases (reg_view r) t \<noteq> None))])"
proof -
  have may: "reg_may r c" using assms may_view by blast
  show ?thesis
    using reg.ex_ok [OF assms(1) may] reg.step_inv [OF assms(1) may] release_answer [of t r] by (auto split: sum.splits)
qed

theorem registry_refines_fence_witness:
  "case reg_exec empty_registry (FEnter (''x'', ''y'')) of
      Inl e \<Rightarrow> \<not> f_guard valid_key (reg_view empty_registry) (FEnter (''x'', ''y''))
    | Inr r' \<Rightarrow> f_guard valid_key (reg_view empty_registry) (FEnter (''x'', ''y'')) \<and> wf_registry r' \<and>
        reg_view r' = f_exec (reg_view empty_registry) (FEnter (''x'', ''y''))"
  using registry_refines_fence [OF wf_empty_registry, of "FEnter (''x'', ''y'')" "''T''"] by simp

text \<open>
  The token of a runtime reset protects the rollback that uses it only as long as nobody
  completes the reset: \<open>reset_mutation\<close> checks the token and then holds nothing, so another thread
  may complete the reset and lease the Session to an execution while the rollback body runs.
\<close>

theorem reset_rollback_unprotected:
  "\<exists>r1 r2 r3. run_op (begin_runtime_reset ''x'' ''y'' ''T'') empty_registry = Inr r1 \<and>
     reset_mutation ''T'' ''x'' ''y'' r1 = (Inr (), r1) \<and>
     run_op (complete_runtime_reset ''T'' True) r1 = Inr r2 \<and>
     run_op (acquire ''x'' ''y'' False ''L'') r2 = Inr r3 \<and> has_lease r3 (''x'', ''y'')"
  by (simp add: run_op_def reg_defs io_defs reset_mutation_def reg_key_def validate_id_def empty_registry_def
      ID_RE_fullmatch_def id_start_char_def is_alpha_def has_readers_def has_lease_def)

end
