(* ===== verification/Feature_Manager.thy ===== *)
theory Feature_Manager
  imports Identifiers
begin

text \<open>
  The extension surface of \<^verbatim>\<open>src/src/allox/runtime/extensions.py\<close>: activation of
  feature plugins, composition of what they contribute to an execution, RPC routing, and the
  lifecycle handles of one managed execution. A plugin is a record of its callbacks over an
  arbitrary world, so every statement holds for all plugins, those of the repository included;
  an attribute that may be missing or not callable is an option.
\<close>

section \<open>Plugins\<close>

definition PLUGIN_ABI :: int where
  "PLUGIN_ABI = 1"

definition supported_lifecycle_abi :: "json \<Rightarrow> bool" where
  "supported_lifecycle_abi v = (py_eq_int v 1 \<or> py_eq_int v 2)"

record execution_recovery_plan =
  plan_checkpoint_id :: string
  plan_recovery_id :: string
  plan_scrub_runtime :: bool
  plan_require_consistent :: bool
  plan_baseline_created :: bool

record execution_start_context =
  ctx_agent_id :: string
  ctx_session_id :: string
  ctx_run_id :: string
  ctx_run_epoch :: int
  ctx_root_pid :: int
  ctx_cgroup_path :: string
  ctx_cgroup_relative_path :: string
  ctx_cgroup_id :: int
  ctx_mount_namespace_id :: int
  ctx_network_namespace_id :: int
  ctx_audit_directory :: string
  ctx_boot_id :: string
  ctx_execution_metadata :: jdict
  ctx_recovery :: "execution_recovery_plan option"

record execution_quiescence =
  q_cgroup_path :: string
  q_cgroup_id :: int
  q_status :: string
  q_basis :: string

definition quiescence_dict :: "execution_quiescence \<Rightarrow> jdict" where
  "quiescence_dict q = [(''status'', JStr (q_status q)), (''basis'', JStr (q_basis q)),
     (''cgroup_path'', JStr (q_cgroup_path q)), (''cgroup_id'', JInt (q_cgroup_id q))]"

subsection \<open>Mounts\<close>

record sandbox_mount =
  m_source :: string
  m_target :: string
  m_read_only :: bool

text \<open>
  \<open>PurePosixPath\<close>: the root is \<open>//\<close> for exactly two leading slashes and \<open>/\<close> for any other
  absolute path; the parts are the components other than the empty one and \<open>.\<close>.
\<close>

definition posix_root :: "string \<Rightarrow> string" where
  "posix_root p = (if startswith p ''//'' \<and> \<not> startswith p ''///'' then ''//''
     else if startswith p ''/'' then ''/'' else [])"

definition posix_parts :: "string \<Rightarrow> string list" where
  "posix_parts p = filter (\<lambda>c. c \<noteq> [] \<and> c \<noteq> ''.'') (split_on CHR ''/'' p)"

definition check_mount :: "string \<Rightarrow> string \<Rightarrow> bool \<Rightarrow> sandbox_mount res" where
  "check_mount src tgt ro =
     (if posix_root src = [] then Inl (WorkspaceError ''plugin mount source must be absolute'')
      else if posix_root tgt = [] \<or> ''..'' \<in> set (posix_parts tgt) \<or>
          (posix_root tgt = ''/'' \<and> posix_parts tgt = [])
      then Inl (WorkspaceError ''plugin mount target must be a confined absolute path'')
      else Inr \<lparr>m_source = src, m_target = tgt, m_read_only = ro\<rparr>)"

record contribution =
  c_argv_prefix :: "string list"
  c_environment :: "(string \<times> string) list"
  c_mounts :: "sandbox_mount list"
  c_metadata :: jdict

record 'w handle =
  h_status :: "('w, json) op option"
  h_assert_healthy :: "('w, unit) op option"
  h_agent_started :: "('w, unit) op option"
  h_finish :: "(string \<Rightarrow> execution_quiescence \<Rightarrow> ('w, json) op) option"
  h_close_unverified :: "('w, unit) op option"

datatype 'a attr = Absent | NotCallable | Callable 'a

fun present :: "'a attr \<Rightarrow> bool" where
  "present Absent = False"
| "present _ = True"

fun callable :: "'a attr \<Rightarrow> bool" where
  "callable (Callable g) = True"
| "callable _ = False"

record 'w feature =
  feat_name :: string
  feat_abi :: json
  feat_rpc_prefixes :: "string list"
  feat_lifecycle_abi :: json
  feat_supports_recovery :: json
  feat_start :: "(execution_start_context \<Rightarrow> ('w, 'w handle option) op) attr"
  feat_prepare :: "string \<Rightarrow> string \<Rightarrow> ('w, contribution) op"
  feat_run_env :: "(string \<Rightarrow> string \<Rightarrow> string \<Rightarrow> json \<Rightarrow> ('w, (json \<times> json) list) op) option"
  feat_dispatch :: "string \<Rightarrow> jdict \<Rightarrow> ('w, json) op"
  feat_started :: "(jdict \<Rightarrow> ('w, unit) op) option"
  feat_finished :: "(jdict \<Rightarrow> ('w, unit) op) option"
  feat_close :: "('w, unit) op"

text \<open>\<open>with suppress(Exception)\<close>\<close>

definition suppress :: "('w, unit) op \<Rightarrow> ('w, unit) op" where
  "suppress m = catch (\<lambda>_. True) m (\<lambda>_. ret ())"

text \<open>Calling an attribute: \<open>None\<close> is not callable.\<close>

definition call0 :: "('w, 'a) op option \<Rightarrow> ('w, 'a) op" where
  "call0 f = (case f of None \<Rightarrow> raise TypeError | Some m \<Rightarrow> m)"

section \<open>The lifecycle handles of one execution\<close>

datatype ae_phase = AE_active | AE_finalizing | AE_closed

record 'w active =
  ae_entries :: "(string \<times> int \<times> 'w handle) list"
  ae_state :: ae_phase

type_synonym ('w, 'a) aop = "('w active \<times> 'w, 'a) op"

text \<open>Run an operation of the world beside the object's own state.\<close>

definition on_world :: "('w, 'a) op \<Rightarrow> ('s \<times> 'w, 'a) op" where
  "on_world m = (\<lambda>(s, w). case m w of (r, w') \<Rightarrow> (r, (s, w')))"

definition own :: "('s \<Rightarrow> 'a) \<Rightarrow> ('s \<times> 'w, 'a) op" where
  "own f = gets (\<lambda>(s, _). f s)"

definition own_modify :: "('s \<Rightarrow> 's) \<Rightarrow> ('s \<times> 'w, unit) op" where
  "own_modify f = modify (\<lambda>(s, w). (f s, w))"

definition ae_enabled :: "'w active \<Rightarrow> bool" where
  "ae_enabled a = (ae_entries a \<noteq> [])"

definition quoted_name :: "string \<Rightarrow> string" where
  "quoted_name n = [char_of (34 :: nat)] @ n @ [char_of (34 :: nat)]"

fun collect_status :: "(string \<times> int \<times> 'w handle) list \<Rightarrow> (string, json) dict \<Rightarrow> ('w, (string, json) dict) op" where
  "collect_status [] acc = ret acc"
| "collect_status ((name, _, h) # es) acc =
     bind (call0 (h_status h)) (\<lambda>v.
     andthen (require (is_obj v)
       (WorkspaceError (''feature plugin '' @ quoted_name name @ '' returned invalid execution status'')))
     (collect_status es (dict_set name v acc)))"

definition ae_status :: "('w, (string, json) dict) aop" where
  "ae_status = bind (own ae_entries) (\<lambda>es. on_world (collect_status es []))"

definition not_active :: error where
  "not_active = WorkspaceError ''feature execution lifecycle is not active''"

definition ae_assert_healthy :: "('w, unit) aop" where
  "ae_assert_healthy =
     bind (own id) (\<lambda>a.
     andthen (require (ae_state a = AE_active) not_active)
     (on_world (forM (ae_entries a) (\<lambda>(_, _, h). call0 (h_assert_healthy h)))))"

definition ae_agent_started :: "('w, unit) aop" where
  "ae_agent_started =
     bind (own id) (\<lambda>a.
     andthen (require (ae_state a = AE_active) not_active)
     (on_world (forM (ae_entries a) (\<lambda>(_, abi, h). whenM (abi = 2) (call0 (h_agent_started h))))))"

fun collect_finish ::
  "string \<Rightarrow> execution_quiescence \<Rightarrow> (string \<times> int \<times> 'w handle) list \<Rightarrow> (string, json) dict \<Rightarrow> ('w, (string, json) dict) op" where
  "collect_finish oc q [] acc = ret acc"
| "collect_finish oc q ((name, _, h) # es) acc =
     bind (case h_finish h of None \<Rightarrow> raise TypeError | Some f \<Rightarrow> f oc q) (\<lambda>v.
     andthen (require (is_obj v)
       (WorkspaceError (''feature plugin '' @ quoted_name name @ '' returned an invalid final result'')))
     (collect_finish oc q es (dict_set name v acc)))"

definition close_handles :: "(string \<times> int \<times> 'w handle) list \<Rightarrow> ('w, unit) op" where
  "close_handles es = forM (rev es) (\<lambda>(_, _, h). suppress (call0 (h_close_unverified h)))"

definition ae_finish :: "string \<Rightarrow> execution_quiescence \<Rightarrow> ('w, (string, json) dict) aop" where
  "ae_finish oc q =
     bind (own id) (\<lambda>a.
     andthen (require (ae_state a = AE_active) not_active)
     (andthen (own_modify (\<lambda>a. a\<lparr>ae_state := AE_finalizing\<rparr>))
     (bind (catch (\<lambda>_. True) (on_world (collect_finish oc q (rev (ae_entries a)) []))
        (\<lambda>e. andthen (on_world (close_handles (ae_entries a)))
             (andthen (own_modify (\<lambda>a. a\<lparr>ae_state := AE_closed\<rparr>)) (raise e)))) (\<lambda>res.
      andthen (own_modify (\<lambda>a. a\<lparr>ae_state := AE_closed\<rparr>)) (ret res)))))"

definition ae_close_unverified :: "('w, unit) aop" where
  "ae_close_unverified =
     bind (own id) (\<lambda>a.
     if ae_state a = AE_closed then ret ()
     else andthen (own_modify (\<lambda>a. a\<lparr>ae_state := AE_closed\<rparr>)) (on_world (close_handles (ae_entries a))))"

section \<open>The feature manager\<close>

record 'w manager =
  fm_features :: "'w feature list"
  fm_routes :: "(string, 'w feature) dict"

type_synonym ('w, 'a) fop = "('w manager \<times> 'w, 'a) op"
type_synonym 'w factory = "jdict \<Rightarrow> ('w, 'w feature) op"

definition installed_feature_factory :: "(string \<times> 'w factory) list \<Rightarrow> string \<Rightarrow> 'w factory res" where
  "installed_feature_factory points name =
     (case filter (\<lambda>(n, _). n = name) points of
        [] \<Rightarrow> Inl (WorkspaceError (''Allox feature plugin '' @ quoted_name name @ '' is enabled but not installed''))
      | [(_, f)] \<Rightarrow> Inr f
      | _ \<Rightarrow> Inl (WorkspaceError (''multiple Allox feature plugins provide '' @ quoted_name name)))"

definition fm_close :: "('w, unit) fop" where
  "fm_close =
     bind (own fm_features) (\<lambda>fs.
     andthen (on_world (forM (rev fs) (\<lambda>f. suppress (feat_close f))))
     (own_modify (\<lambda>m. m\<lparr>fm_features := [], fm_routes := []\<rparr>)))"

definition check_feature :: "string \<Rightarrow> 'w feature \<Rightarrow> unit res" where
  "check_feature name f =
     bindR (checkR (feat_name f = name) (WorkspaceError (''feature plugin '' @ quoted_name name @
        '' returned mismatched name '' @ quoted_name (feat_name f)))) (\<lambda>_.
     bindR (checkR (py_eq_int (feat_abi f) PLUGIN_ABI) (WorkspaceError (''feature plugin '' @ quoted_name name @
        '' ABI '' @ (case feat_abi f of JStr v \<Rightarrow> v | v \<Rightarrow> repr_json v) @ '' != required ABI 1''))) (\<lambda>_.
     bindR (if (feat_lifecycle_abi f \<noteq> JNull \<or> present (feat_start f)) \<and> \<not> hashable (feat_lifecycle_abi f)
        then Inl TypeError else Inr ()) (\<lambda>_.
     checkR (\<not> ((feat_lifecycle_abi f \<noteq> JNull \<or> present (feat_start f)) \<and>
          (\<not> supported_lifecycle_abi (feat_lifecycle_abi f) \<or> \<not> callable (feat_start f))))
        (WorkspaceError (''feature plugin '' @ quoted_name name @ '' has an incompatible execution lifecycle ABI'')))))"

fun add_routes :: "string \<Rightarrow> 'w feature \<Rightarrow> string list \<Rightarrow> (string, 'w feature) dict \<Rightarrow> (string, 'w feature) dict res" where
  "add_routes name f [] rs = Inr rs"
| "add_routes name f (p # ps) rs =
     (if p = [] \<or> \<not> endswith p ''.''
      then Inl (WorkspaceError (''feature plugin '' @ quoted_name name @ '' has an invalid RPC prefix''))
      else if p \<in> fst ` set rs then Inl (WorkspaceError (''duplicate feature RPC prefix: '' @ p))
      else add_routes name f ps (dict_set p f rs))"

definition activate :: "(string, 'w factory) dict \<Rightarrow> (string \<times> 'w factory) list \<Rightarrow> string \<Rightarrow> jdict \<Rightarrow> ('w, unit) fop" where
  "activate factories points name cfg =
     bind (lift_res (case map_of factories name of Some f \<Rightarrow> Inr f | None \<Rightarrow> installed_feature_factory points name)) (\<lambda>fac.
     bind (on_world (fac cfg)) (\<lambda>f.
     andthen (own_modify (\<lambda>m. m\<lparr>fm_features := fm_features m @ [f]\<rparr>))
     (andthen (lift_res (check_feature name f))
     (bind (own fm_routes) (\<lambda>rs.
      bind (lift_res (add_routes name f (feat_rpc_prefixes f) rs)) (\<lambda>rs'.
      own_modify (\<lambda>m. m\<lparr>fm_routes := rs'\<rparr>)))))))"

definition fm_init ::
  "(string, 'w factory) dict \<Rightarrow> (string \<times> 'w factory) list \<Rightarrow> (string \<times> jdict) list \<Rightarrow> ('w, unit) fop" where
  "fm_init factories points specs =
     catch (\<lambda>_. True) (forM specs (\<lambda>(n, cfg). activate factories points n cfg))
       (\<lambda>e. andthen fm_close (raise e))"

definition fm_names :: "'w manager \<Rightarrow> string list" where
  "fm_names m = map feat_name (fm_features m)"

definition execution_lifecycle_enabled :: "'w manager \<Rightarrow> bool" where
  "execution_lifecycle_enabled m = (\<exists>f \<in> set (fm_features m). supported_lifecycle_abi (feat_lifecycle_abi f))"

definition recovery_lifecycle_enabled :: "'w manager \<Rightarrow> bool" where
  "recovery_lifecycle_enabled m =
     (\<exists>f \<in> set (fm_features m). py_eq_int (feat_lifecycle_abi f) 2 \<and> feat_supports_recovery f = JBool True)"

fun merge_pairs :: "(string \<Rightarrow> error) \<Rightarrow> (string, 'v) dict \<Rightarrow> (string \<times> 'v) list \<Rightarrow> (string, 'v) dict res" where
  "merge_pairs err acc [] = Inr acc"
| "merge_pairs err acc ((k, v) # xs) =
     (case map_of acc k of
        Some v' \<Rightarrow> if v' \<noteq> v then Inl (err k) else merge_pairs err (dict_set k v acc) xs
      | None \<Rightarrow> merge_pairs err (dict_set k v acc) xs)"

fun merge_mounts :: "sandbox_mount list \<Rightarrow> sandbox_mount list \<Rightarrow> sandbox_mount list res" where
  "merge_mounts acc [] = Inr acc"
| "merge_mounts acc (m # ms) =
     (if m_target m \<in> set (map m_target acc)
      then Inl (WorkspaceError (''feature plugins conflict on mount target '' @ m_target m))
      else merge_mounts (acc @ [m]) ms)"

definition env_conflict :: "string \<Rightarrow> error" where
  "env_conflict k = WorkspaceError (''feature plugins conflict on environment variable '' @ k)"

definition metadata_conflict :: "string \<Rightarrow> error" where
  "metadata_conflict k = WorkspaceError (''feature plugins conflict on run metadata '' @ k)"

definition add_contribution :: "contribution \<Rightarrow> contribution \<Rightarrow> contribution res" where
  "add_contribution acc c =
     bindR (merge_pairs env_conflict (c_environment acc) (c_environment c)) (\<lambda>env.
     bindR (merge_mounts (c_mounts acc) (c_mounts c)) (\<lambda>ms.
     bindR (merge_pairs metadata_conflict (c_metadata acc) (c_metadata c)) (\<lambda>md.
     Inr \<lparr>c_argv_prefix = c_argv_prefix acc @ c_argv_prefix c, c_environment = env, c_mounts = ms, c_metadata = md\<rparr>)))"

fun prepare_all :: "string \<Rightarrow> string \<Rightarrow> 'w feature list \<Rightarrow> contribution \<Rightarrow> ('w, contribution) op" where
  "prepare_all a s [] acc = ret acc"
| "prepare_all a s (f # fs) acc =
     bind (feat_prepare f a s) (\<lambda>c. bind (lift_res (add_contribution acc c)) (\<lambda>acc'. prepare_all a s fs acc'))"

definition no_contribution :: contribution where
  "no_contribution = \<lparr>c_argv_prefix = [], c_environment = [], c_mounts = [], c_metadata = []\<rparr>"

definition prepare_execution :: "string \<Rightarrow> string \<Rightarrow> ('w, contribution) fop" where
  "prepare_execution a s = bind (own fm_features) (\<lambda>fs. on_world (prepare_all a s fs no_contribution))"

fun merge_env :: "(string, string) dict \<Rightarrow> (json \<times> json) list \<Rightarrow> (string, string) dict res" where
  "merge_env acc [] = Inr acc"
| "merge_env acc ((JStr k, JStr v) # xs) =
     (case map_of acc k of
        Some v' \<Rightarrow> if v' \<noteq> v then Inl (WorkspaceError ''feature run environment conflict'') else merge_env acc xs
      | None \<Rightarrow> merge_env (dict_set k v acc) xs)"
| "merge_env acc (_ # xs) = Inl (WorkspaceError ''invalid feature run environment'')"

fun run_env_all ::
  "string \<Rightarrow> string \<Rightarrow> string \<Rightarrow> json \<Rightarrow> 'w feature list \<Rightarrow> (string, string) dict \<Rightarrow> ('w, (string, string) dict) op" where
  "run_env_all a s r tc [] acc = ret acc"
| "run_env_all a s r tc (f # fs) acc = (case feat_run_env f of
      None \<Rightarrow> run_env_all a s r tc fs acc
    | Some cb \<Rightarrow> bind (cb a s r tc) (\<lambda>xs. bind (lift_res (merge_env acc xs)) (\<lambda>acc'. run_env_all a s r tc fs acc')))"

definition prepare_run_environment :: "string \<Rightarrow> string \<Rightarrow> string \<Rightarrow> json \<Rightarrow> ('w, (string, string) dict) fop" where
  "prepare_run_environment a s r tc = bind (own fm_features) (\<lambda>fs. on_world (run_env_all a s r tc fs []))"

definition valid_handle :: "int \<Rightarrow> 'w handle \<Rightarrow> bool" where
  "valid_handle abi h = (h_status h \<noteq> None \<and> h_assert_healthy h \<noteq> None \<and> h_finish h \<noteq> None \<and>
     h_close_unverified h \<noteq> None \<and> (abi = 2 \<longrightarrow> h_agent_started h \<noteq> None))"

text \<open>
  The loop of \<open>start_execution\<close> over the features. The entries started so far are kept in the state,
  since the handler closes them.
\<close>

fun start_all ::
  "execution_start_context \<Rightarrow> 'w feature list \<Rightarrow> ((string \<times> int \<times> 'w handle) list \<times> 'w, unit) op" where
  "start_all ctx [] = ret ()"
| "start_all ctx (f # fs) = (case feat_start f of
      Absent \<Rightarrow> start_all ctx fs
    | st \<Rightarrow> (case feat_lifecycle_abi f of
        JInt abi \<Rightarrow>
          if abi = 1 \<or> abi = 2 then
            (case st of Callable start \<Rightarrow>
              bind (on_world (start ctx)) (\<lambda>h.
              bind (case h of
                  Some hx \<Rightarrow> if valid_handle abi hx then ret hx
                    else andthen (on_world (case h_close_unverified hx of None \<Rightarrow> ret () | Some c \<Rightarrow> suppress c))
                      (raise (WorkspaceError (''feature plugin '' @ quoted_name (feat_name f) @
                         '' returned an invalid lifecycle handle'')))
                | None \<Rightarrow> raise (WorkspaceError (''feature plugin '' @ quoted_name (feat_name f) @
                         '' returned an invalid lifecycle handle''))) (\<lambda>hx.
              andthen (own_modify (\<lambda>es. es @ [(feat_name f, abi, hx)])) (start_all ctx fs)))
            | _ \<Rightarrow> raise TypeError)
          else raise (WorkspaceError (''feature plugin '' @ quoted_name (feat_name f) @ '' has an invalid lifecycle ABI''))
      | _ \<Rightarrow> raise (WorkspaceError (''feature plugin '' @ quoted_name (feat_name f) @ '' has an invalid lifecycle ABI''))))"

definition start_execution :: "execution_start_context \<Rightarrow> 'w feature list \<Rightarrow> ('w, 'w active) op" where
  "start_execution ctx fs = (\<lambda>w.
     (case bind (start_all ctx fs) (\<lambda>_. bind (own id) (\<lambda>es.
          andthen (on_world (forM es (\<lambda>(_, _, h). call0 (h_assert_healthy h))))
          (ret \<lparr>ae_entries = es, ae_state = AE_active\<rparr>))) ([], w) of
        (Inr a, (_, w')) \<Rightarrow> (Inr a, w')
      | (Inl e, (es, w')) \<Rightarrow> if e = Crashed then (Inl e, w') else (Inl e, snd (close_handles es w'))))"

fun route :: "(string, 'w feature) dict \<Rightarrow> string \<Rightarrow> 'w feature option" where
  "route [] act = None"
| "route ((p, f) # rs) act = (if startswith act p then Some f else route rs act)"

definition fm_dispatch :: "string \<Rightarrow> jdict \<Rightarrow> ('w, json) fop" where
  "fm_dispatch act params = bind (own fm_routes) (\<lambda>rs. (case route rs act of
      Some f \<Rightarrow> on_world (feat_dispatch f act params)
    | None \<Rightarrow> raise (WorkspaceError (''unknown action: '' @ act))))"

definition handles :: "'w manager \<Rightarrow> string \<Rightarrow> bool" where
  "handles m act = (\<exists>p \<in> fst ` set (fm_routes m). startswith act p)"

definition execution_started :: "jdict \<Rightarrow> ('w, unit) fop" where
  "execution_started row = bind (own fm_features) (\<lambda>fs.
     on_world (forM fs (\<lambda>f. case feat_started f of None \<Rightarrow> ret () | Some cb \<Rightarrow> cb row)))"

definition execution_finished :: "jdict \<Rightarrow> ('w, unit) fop" where
  "execution_finished row = bind (own fm_features) (\<lambda>fs.
     on_world (forM (rev fs) (\<lambda>f. case feat_finished f of None \<Rightarrow> ret () | Some cb \<Rightarrow> cb row)))"

section \<open>Composition of contributions\<close>

text \<open>Two lists of pairs agree when they never bind a key to two values.\<close>

definition agree :: "(string \<times> 'v) list \<Rightarrow> bool" where
  "agree xs \<longleftrightarrow> (\<forall>k v v'. (k, v) \<in> set xs \<and> (k, v') \<in> set xs \<longrightarrow> v = v')"

lemma agree_subset: "agree ys \<Longrightarrow> set xs \<subseteq> set ys \<Longrightarrow> agree xs"
  unfolding agree_def by blast

lemma merge_pairs_ok:
  assumes "agree (acc @ xs)"
  shows "\<exists>r. merge_pairs err acc xs = Inr r \<and> set r = set acc \<union> set xs"
  using assms
proof (induction xs arbitrary: acc)
  case Nil
  then show ?case by simp
next
  case (Cons kv xs)
  obtain k v where kv: "kv = (k, v)" by (cases kv)
  have same: "v' = v" if "map_of acc k = Some v'" for v'
    using Cons.prems map_of_SomeD [OF that] by (auto simp: agree_def kv)
  have "set (dict_set k v acc) = insert (k, v) (set acc)"
  proof (cases "map_of acc k")
    case None
    then have "dict_set k v acc = acc @ [(k, v)]"
      by (induction acc) (auto split: if_splits)
    then show ?thesis by simp
  next
    case (Some v')
    then have "map_of acc k = Some v" using same by simp
    then have "dict_set k v acc = acc" by (induction acc) (auto split: if_splits)
    then show ?thesis using map_of_SomeD [OF Some] same [OF Some] by auto
  qed
  moreover from this have "agree (dict_set k v acc @ xs)"
    using Cons.prems by (auto simp: kv intro: agree_subset)
  ultimately show ?case
    using Cons.IH [of "dict_set k v acc"] same by (auto simp: kv split: option.split)
qed

lemma merge_pairs_agree:
  "merge_pairs err acc xs = Inr r \<Longrightarrow> agree acc \<Longrightarrow> distinct (dict_keys acc) \<Longrightarrow>
     agree (acc @ xs) \<and> distinct (dict_keys r)"
proof (induction xs arbitrary: acc)
  case (Cons kv xs)
  obtain k v where kv: "kv = (k, v)" by (cases kv)
  have m: "merge_pairs err (dict_set k v acc) xs = Inr r" and same: "\<And>v'. map_of acc k = Some v' \<Longrightarrow> v' = v"
    using Cons.prems(1) by (auto simp: kv split: option.splits if_splits)
  have mem: "(k, v') \<in> set acc \<Longrightarrow> v' = v" for v'
    using same Cons.prems(3) by (simp add: map_of_is_SomeI)
  have "set (dict_set k v acc) \<subseteq> insert (k, v) (set acc)" "(k, v) \<in> set (dict_set k v acc)"
    "set acc - {(k, v)} \<subseteq> set (dict_set k v acc)"
    using mem by (induction acc) (auto split: if_splits)
  then have s: "set (dict_set k v acc) = insert (k, v) (set acc)" by auto
  have "agree (dict_set k v acc)"
    using Cons.prems(2) mem unfolding agree_def s by blast
  from Cons.IH [OF m this] Cons.prems(3) have "agree (dict_set k v acc @ xs)" "distinct (dict_keys r)"
    by simp_all
  then show ?case by (auto simp: kv s intro: agree_subset)
qed simp

lemma merge_mounts_iff:
  "merge_mounts acc ms = Inr r \<longleftrightarrow> r = acc @ ms \<and> distinct (map m_target ms) \<and>
     set (map m_target acc) \<inter> set (map m_target ms) = {}"
  by (induction ms arbitrary: acc) (auto split: if_splits)

fun merge_all :: "contribution \<Rightarrow> contribution list \<Rightarrow> contribution res" where
  "merge_all acc [] = Inr acc"
| "merge_all acc (c # cs) = bindR (add_contribution acc c) (\<lambda>acc'. merge_all acc' cs)"

abbreviation "all_env cs \<equiv> concat (map c_environment cs)"
abbreviation "all_metadata cs \<equiv> concat (map c_metadata cs)"
abbreviation "all_mounts cs \<equiv> concat (map c_mounts cs)"

text \<open>The composition the manager promises: everything of everybody, and nothing bound twice.\<close>

definition merged :: "contribution list \<Rightarrow> contribution \<Rightarrow> bool" where
  "merged cs r \<longleftrightarrow> c_argv_prefix r = concat (map c_argv_prefix cs) \<and>
     set (c_environment r) = set (all_env cs) \<and> distinct (dict_keys (c_environment r)) \<and>
     c_mounts r = all_mounts cs \<and> distinct (map m_target (c_mounts r)) \<and>
     set (c_metadata r) = set (all_metadata cs) \<and> distinct (dict_keys (c_metadata r))"

definition compatible :: "contribution list \<Rightarrow> bool" where
  "compatible cs \<longleftrightarrow> agree (all_env cs) \<and> agree (all_metadata cs) \<and> distinct (map m_target (all_mounts cs))"

lemma distinct_agree: "distinct (dict_keys d) \<Longrightarrow> agree d"
  unfolding agree_def by (meson eq_key_imp_eq_value)

lemma merged_compatible: "merged cs r \<Longrightarrow> compatible cs"
  using distinct_agree [of "c_environment r"] distinct_agree [of "c_metadata r"]
  by (auto simp: merged_def compatible_def agree_def)

lemma merge_pairs_set:
  assumes "merge_pairs err acc xs = Inr r" and "distinct (dict_keys acc)"
  shows "set r = set acc \<union> set xs \<and> distinct (dict_keys r)"
  using merge_pairs_agree [OF assms(1) distinct_agree [OF assms(2)] assms(2)]
    merge_pairs_ok [of acc xs err] assms(1) by auto

lemma add_contribution_merged:
  assumes m: "merged cs acc" and r: "add_contribution acc c = Inr r"
  shows "merged (cs @ [c]) r"
proof -
  obtain env ms md where e: "merge_pairs env_conflict (c_environment acc) (c_environment c) = Inr env"
    and ms: "merge_mounts (c_mounts acc) (c_mounts c) = Inr ms"
    and md: "merge_pairs metadata_conflict (c_metadata acc) (c_metadata c) = Inr md"
    and r: "r = \<lparr>c_argv_prefix = c_argv_prefix acc @ c_argv_prefix c, c_environment = env, c_mounts = ms, c_metadata = md\<rparr>"
    using r by (auto simp: add_contribution_def bindR_eq_Inr)
  have d: "distinct (dict_keys (c_environment acc))" "distinct (dict_keys (c_metadata acc))"
    using m by (simp_all add: merged_def)
  from merge_pairs_set [OF e d(1)] merge_pairs_set [OF md d(2)] ms m show ?thesis
    by (auto simp: r merged_def merge_mounts_iff)
qed

lemma add_contribution_ok:
  assumes m: "merged cs acc" and c: "compatible (cs @ [c])"
  shows "\<exists>r. add_contribution acc c = Inr r"
proof -
  have "agree (c_environment acc @ c_environment c)" "agree (c_metadata acc @ c_metadata c)"
    using m c by (auto simp: merged_def compatible_def intro: agree_subset)
  then obtain env md where e: "merge_pairs env_conflict (c_environment acc) (c_environment c) = Inr env"
    and md: "merge_pairs metadata_conflict (c_metadata acc) (c_metadata c) = Inr md"
    using merge_pairs_ok by metis
  have "merge_mounts (c_mounts acc) (c_mounts c) = Inr (c_mounts acc @ c_mounts c)"
    using m c by (auto simp: merge_mounts_iff merged_def compatible_def)
  with e md show ?thesis by (simp add: add_contribution_def)
qed

lemma compatible_prefix: "compatible (cs @ ds) \<Longrightarrow> compatible cs"
  by (auto simp: compatible_def intro: agree_subset)

lemma merge_all_spec:
  "merged ds acc \<Longrightarrow>
     (\<forall>r. merge_all acc cs = Inr r \<longrightarrow> merged (ds @ cs) r) \<and>
     (compatible (ds @ cs) \<longrightarrow> (\<exists>r. merge_all acc cs = Inr r))"
proof (induction cs arbitrary: ds acc)
  case (Cons c cs)
  show ?case
  proof (intro conjI allI impI)
    fix r assume "merge_all acc (c # cs) = Inr r"
    then obtain acc' where "add_contribution acc c = Inr acc'" "merge_all acc' cs = Inr r"
      by (auto simp: bindR_eq_Inr)
    then show "merged (ds @ c # cs) r"
      using Cons.IH [OF add_contribution_merged [OF Cons.prems]] by simp
  next
    assume comp: "compatible (ds @ c # cs)"
    then have "compatible (ds @ [c])" using compatible_prefix [of "ds @ [c]" cs] by simp
    then obtain acc' where a: "add_contribution acc c = Inr acc'" using add_contribution_ok [OF Cons.prems] by blast
    then show "\<exists>r. merge_all acc (c # cs) = Inr r"
      using Cons.IH [OF add_contribution_merged [OF Cons.prems a]] comp by simp
  qed
qed simp

lemma merged_none: "merged [] no_contribution"
  by (simp add: merged_def no_contribution_def)

lemma merge_all_iff:
  "(\<exists>r. merge_all no_contribution cs = Inr r) \<longleftrightarrow> compatible cs"
  "merge_all no_contribution cs = Inr r \<Longrightarrow> merged cs r"
  using merge_all_spec [OF merged_none, of cs] merged_compatible by auto

lemma prepare_all_merge:
  "(\<And>f w. f \<in> set fs \<Longrightarrow> feat_prepare f a s w = (Inr (con f), w)) \<Longrightarrow>
     prepare_all a s fs acc w = (merge_all acc (map con fs), w)"
proof (induction fs arbitrary: acc w)
  case (Cons f fs)
  then show ?case by (cases "add_contribution acc (con f)") (auto simp: io_defs)
qed (simp add: ret_def)

section \<open>Activation\<close>

text \<open>
  A world that records what is opened and closed, to state that activation unwinds: every factory
  either raises without opening anything or opens one named resource, which the close hook of the
  feature it returns closes (with or without an exception).
\<close>

definition tracked :: "(bool \<times> string) list factory \<Rightarrow> bool" where
  "tracked fac \<longleftrightarrow> (\<forall>cfg w. (\<exists>e. e \<noteq> Crashed \<and> fac cfg w = (Inl e, w)) \<or>
     (\<exists>f n. fac cfg w = (Inr f, w @ [(True, n)]) \<and>
        (\<forall>w'. \<exists>r. r \<noteq> Inl Crashed \<and> feat_close f w' = (r, w' @ [(False, n)]))))"

definition closes :: "(bool \<times> string) list feature \<Rightarrow> string \<Rightarrow> bool" where
  "closes f n \<longleftrightarrow> (\<forall>w. \<exists>r. r \<noteq> Inl Crashed \<and> feat_close f w = (r, w @ [(False, n)]))"

lemma suppress_close: "closes f n \<Longrightarrow> suppress (feat_close f) w = (Inr (), w @ [(False, n)])"
  unfolding closes_def suppress_def catch_def ret_def
  by (drule spec [of _ w]) (auto split: sum.splits)

lemma close_loop:
  "list_all2 closes fs ns \<Longrightarrow>
     forM fs (\<lambda>f. suppress (feat_close f)) w = (Inr (), w @ map (Pair False) ns)"
proof (induction fs ns arbitrary: w rule: list_all2_induct)
  case Nil
  then show ?case by (simp add: ret_def)
next
  case (Cons f fs n ns)
  then show ?case by (simp add: andthen_def bind_def suppress_close)
qed

text \<open>The invariant of the activation loop.\<close>

definition opened :: "(bool \<times> string) list \<Rightarrow> (bool \<times> string) list manager \<times> (bool \<times> string) list \<Rightarrow> bool" where
  "opened w0 st \<longleftrightarrow> (\<exists>ns. list_all2 closes (fm_features (fst st)) ns \<and> snd st = w0 @ map (Pair True) ns)"

lemma wp_on_world [wp_simps]:
  "wp (on_world m) Q E st = wp m (\<lambda>x w. Q x (fst st, w)) (\<lambda>e w. E e (fst st, w)) (snd st)"
  by (cases st) (auto simp: wp_def on_world_def split: prod.splits sum.splits)

lemma wp_own [wp_simps]: "wp (own f) Q E st = Q (f (fst st)) st"
  by (cases st) (simp add: own_def wp_gets)

lemma wp_own_modify [wp_simps]: "wp (own_modify f) Q E st = Q () (f (fst st), snd st)"
  by (cases st) (simp add: own_modify_def wp_modify)

lemma activate_opened:
  assumes t: "\<forall>fac \<in> snd ` set factories \<union> snd ` set points. tracked fac" and o: "opened w0 st"
  shows "wp (activate factories points n cfg) (\<lambda>_. opened w0) (\<lambda>e st'. e \<noteq> Crashed \<longrightarrow> opened w0 st') st"
proof -
  have fac: "tracked fac" if "(case map_of factories n of Some f \<Rightarrow> Inr f
      | None \<Rightarrow> installed_feature_factory points n) = Inr fac" for fac
    using that t map_of_SomeD [of factories n]
    by (force simp: installed_feature_factory_def filter_eq_Cons_iff split: option.splits list.splits)
  have "wp (fac cfg) (\<lambda>f w. opened w0 ((fst st)\<lparr>fm_features := fm_features (fst st) @ [f]\<rparr>, w))
      (\<lambda>e w. opened w0 (fst st, w)) (snd st)" if "tracked fac" for fac
  proof -
    obtain ns where ns: "list_all2 closes (fm_features (fst st)) ns" "snd st = w0 @ map (Pair True) ns"
      using o by (auto simp: opened_def)
    from that [unfolded tracked_def, rule_format, of cfg "snd st"] show ?thesis
    proof
      assume "\<exists>e. e \<noteq> Crashed \<and> fac cfg (snd st) = (Inl e, snd st)"
      then show ?thesis using o by (auto simp: wp_def opened_def)
    next
      assume "\<exists>f n. fac cfg (snd st) = (Inr f, snd st @ [(True, n)]) \<and>
         (\<forall>w'. \<exists>r. r \<noteq> Inl Crashed \<and> feat_close f w' = (r, w' @ [(False, n)]))"
      then obtain f m where f: "fac cfg (snd st) = (Inr f, snd st @ [(True, m)])" "closes f m"
        by (auto simp: closes_def)
      have "list_all2 closes (fm_features (fst st) @ [f]) (ns @ [m])"
        using ns f(2) by (auto intro: list_all2_appendI)
      then show ?thesis using f(1) ns(2) by (auto simp: wp_def opened_def intro!: exI [of _ "ns @ [m]"])
    qed
  qed
  note fw = this
  have keep: "opened w0 (m, w) \<Longrightarrow> opened w0 (m\<lparr>fm_routes := rs\<rparr>, w)" for m w rs
    by (simp add: opened_def)
  show ?thesis
    unfolding activate_def
    by (auto simp: wp_simps o split: sum.splits intro!: wp_mono [OF fw [OF fac]] keep)
qed

lemma activate_all_opened:
  assumes t: "\<forall>fac \<in> snd ` set factories \<union> snd ` set points. tracked fac" and o: "opened w0 st"
  shows "wp (forM specs (\<lambda>(n, cfg). activate factories points n cfg)) (\<lambda>_. opened w0)
           (\<lambda>e st'. e \<noteq> Crashed \<longrightarrow> opened w0 st') st"
  using o
proof (induction specs arbitrary: st)
  case (Cons x specs)
  show ?case
    unfolding forM.simps wp_andthen
    by (cases x) (auto intro!: wp_mono [OF activate_opened [OF t Cons.prems]] Cons.IH)
qed (simp add: wp_ret)

text \<open>Routes: distinct prefixes that end in a dot, to features of the manager.\<close>

definition wf_manager :: "'w manager \<Rightarrow> bool" where
  "wf_manager m \<longleftrightarrow> distinct (dict_keys (fm_routes m)) \<and>
     (\<forall>(p, f) \<in> set (fm_routes m). endswith p ''.'' \<and> f \<in> set (fm_features m)) \<and>
     (\<forall>f \<in> set (fm_features m). py_eq_int (feat_abi f) PLUGIN_ABI)"

lemma add_routes_wf:
  "add_routes n f ps rs = Inr rs' \<Longrightarrow> distinct (dict_keys rs) \<Longrightarrow>
     (\<forall>(p, g) \<in> set rs. endswith p ''.'' \<and> g \<in> S) \<Longrightarrow> f \<in> S \<Longrightarrow>
     distinct (dict_keys rs') \<and> (\<forall>(p, g) \<in> set rs'. endswith p ''.'' \<and> g \<in> S)"
proof (induction ps arbitrary: rs)
  case (Cons p ps)
  have new: "p \<notin> fst ` set rs" "endswith p ''.''" "add_routes n f ps (dict_set p f rs) = Inr rs'"
    using Cons.prems(1) by (auto split: if_splits)
  have "dict_set p f rs = rs @ [(p, f)]" using new(1) by (induction rs) auto
  then show ?case using Cons.IH [OF new(3)] Cons.prems new by auto
qed simp

lemma activate_wf:
  assumes wf: "wf_manager (fst st)" and nm: "fm_names (fst st) = ns"
  shows "wp (activate factories points n cfg) (\<lambda>_ st'. wf_manager (fst st') \<and> fm_names (fst st') = ns @ [n])
           (\<lambda>_ _. True) st"
proof -
  have step: "wf_manager (fst st\<lparr>fm_features := fm_features (fst st) @ [f], fm_routes := rs'\<rparr>) \<and>
      fm_names (fst st\<lparr>fm_features := fm_features (fst st) @ [f], fm_routes := rs'\<rparr>) = ns @ [n]"
    if "check_feature n f = Inr u" "add_routes n f (feat_rpc_prefixes f) (fm_routes (fst st)) = Inr rs'" for f u rs'
  proof -
    have "feat_name f = n" "py_eq_int (feat_abi f) PLUGIN_ABI"
      using that(1) by (auto simp: check_feature_def bindR_eq_Inr)
    moreover have "distinct (dict_keys rs') \<and> (\<forall>(p, g) \<in> set rs'. endswith p ''.'' \<and> g \<in> set (fm_features (fst st) @ [f]))"
      by (rule add_routes_wf [OF that(2)]) (use wf in \<open>auto simp: wf_manager_def\<close>)
    ultimately show ?thesis using wf nm by (auto simp: wf_manager_def fm_names_def)
  qed
  have always: "wp m (\<lambda>x w. R x w) (\<lambda>_ _. True) s" if "\<And>x w. R x w" for m :: "('w, 'x) op" and R s
    using that by (auto simp: wp_def split: prod.splits sum.splits)
  show ?thesis
    unfolding activate_def by (auto simp: wp_simps split: sum.splits intro!: always step)
qed

lemma activate_all_wf:
  "wf_manager (fst st) \<Longrightarrow>
     wp (forM specs (\<lambda>(n, cfg). activate factories points n cfg))
       (\<lambda>_ st'. wf_manager (fst st') \<and> fm_names (fst st') = fm_names (fst st) @ map fst specs) (\<lambda>_ _. True) st"
proof (induction specs arbitrary: st)
  case (Cons x specs)
  show ?case
    unfolding forM.simps wp_andthen
    by (cases x, simp, rule wp_mono [OF activate_wf [OF Cons.prems refl]])
       (auto intro!: wp_mono [OF Cons.IH])
qed (simp add: wp_ret)

section \<open>Properties\<close>

text \<open>
  C15. Activation is all or nothing: when any plugin cannot be found, raises, or is rejected (name,
  ABI, lifecycle or route), every plugin activated before is closed exactly once, in the reverse
  order of activation, and the manager is left without features and routes.
\<close>

theorem failed_activation_unwinds:
  assumes t: "\<forall>fac \<in> snd ` set factories \<union> snd ` set points. tracked fac"
    and run: "fm_init factories points specs (\<lparr>fm_features = [], fm_routes = []\<rparr>, w0) = (Inl e, (m, w))"
    and e: "e \<noteq> Crashed"
  shows "fm_features m = [] \<and> fm_routes m = [] \<and> (\<exists>ns. w = w0 @ map (Pair True) ns @ map (Pair False) (rev ns))"
proof -
  let ?st = "(\<lparr>fm_features = [], fm_routes = []\<rparr>, w0)" and ?loop = "forM specs (\<lambda>(n, cfg). activate factories points n cfg)"
  have "opened w0 ?st" by (simp add: opened_def)
  note inv = activate_all_opened [OF t this, of specs]
  obtain r m1 w1 where l: "?loop ?st = (r, (m1, w1))" by (cases "?loop ?st") auto
  obtain e1 where r: "r = Inl e1" "e1 \<noteq> Crashed"
    using run e by (auto simp: fm_init_def catch_def l split: sum.splits if_splits)
  then obtain ns where ns: "list_all2 closes (fm_features m1) ns" "w1 = w0 @ map (Pair True) ns"
    using inv by (auto simp: wp_def l opened_def)
  have "list_all2 closes (rev (fm_features m1)) (rev ns)" using ns(1) by (simp add: list_all2_rev)
  note c = close_loop [OF this]
  show ?thesis
    using run ns(2) r unfolding fm_init_def catch_def l
    by (auto simp: fm_close_def own_def own_modify_def on_world_def io_defs c)
qed

definition demo_factory :: "(bool \<times> string) list factory" where
  "demo_factory cfg = (\<lambda>w. (Inr \<lparr>feat_name = ''demo'', feat_abi = JInt 7, feat_rpc_prefixes = [],
     feat_lifecycle_abi = JNull, feat_supports_recovery = JNull, feat_start = Absent,
     feat_prepare = (\<lambda>_ _. ret no_contribution), feat_run_env = None, feat_dispatch = (\<lambda>_ _. ret JNull),
     feat_started = None, feat_finished = None, feat_close = modify (\<lambda>w. w @ [(False, ''demo'')])\<rparr>,
     w @ [(True, ''demo'')]))"

theorem failed_activation_unwinds_witness:
  "\<exists>e m w. fm_init [] [(''demo'', demo_factory)] [(''demo'', [])] (\<lparr>fm_features = [], fm_routes = []\<rparr>, []) =
       (Inl e, (m, w)) \<and> fm_features m = [] \<and> fm_routes m = [] \<and>
       (\<exists>ns. w = map (Pair True) ns @ map (Pair False) (rev ns))"
proof -
  have t: "\<forall>fac \<in> snd ` set ([] :: (string, (bool \<times> string) list factory) dict) \<union> snd ` set [(''demo'', demo_factory)]. tracked fac"
    by (auto simp: tracked_def demo_factory_def modify_def)
  have "\<exists>e m w. e \<noteq> Crashed \<and>
      fm_init [] [(''demo'', demo_factory)] [(''demo'', [])] (\<lparr>fm_features = [], fm_routes = []\<rparr>, []) = (Inl e, (m, w))"
    by (simp add: fm_init_def activate_def installed_feature_factory_def demo_factory_def check_feature_def PLUGIN_ABI_def
        fm_close_def suppress_def own_def own_modify_def on_world_def io_defs)
  then obtain e m w where e: "e \<noteq> Crashed"
    and run: "fm_init [] [(''demo'', demo_factory)] [(''demo'', [])] (\<lparr>fm_features = [], fm_routes = []\<rparr>, []) = (Inl e, (m, w))"
    by blast
  from failed_activation_unwinds [OF t run e] run show ?thesis by auto
qed

text \<open>
  A manager that starts has exactly the requested plugins, in order, all with the supported
  ABI, and its routing table has distinct dotted prefixes that lead to its own plugins.
\<close>

theorem activation_wellformed:
  assumes "fm_init factories points specs (\<lparr>fm_features = [], fm_routes = []\<rparr>, w0) = (Inr (), (m, w))"
  shows "wf_manager m \<and> fm_names m = map fst specs"
proof -
  let ?st = "(\<lparr>fm_features = [], fm_routes = []\<rparr>, w0)"
  have "wf_manager (fst ?st)" by (simp add: wf_manager_def)
  from activate_all_wf [OF this, of specs factories points]
  show ?thesis
    using assms by (auto simp: fm_init_def catch_def wp_def fm_names_def andthen_def bind_def raise_def
        split: prod.splits sum.splits if_splits)
qed

theorem activation_wellformed_witness:
  "wf_manager (\<lparr>fm_features = [], fm_routes = []\<rparr> :: unit manager) \<and>
   fm_names (\<lparr>fm_features = [], fm_routes = []\<rparr> :: unit manager) = map fst ([] :: (string \<times> jdict) list)"
  by (rule activation_wellformed [of "[]" "[]" "[]" "()" _ "()"]) (simp add: fm_init_def catch_def ret_def)

text \<open>
  Composition of contributions: for plugins whose contributions do not depend on hidden state,
  preparing an execution succeeds exactly when no two plugins bind an environment variable or a
  metadata key differently and no mount target occurs twice; the result is the argument prefixes
  and mounts in plugin order and the union of the environments and of the metadata.
\<close>

theorem prepare_execution_composes:
  assumes con: "\<And>f w. f \<in> set (fm_features m) \<Longrightarrow> feat_prepare f a s w = (Inr (con f), w)"
  shows "(case prepare_execution a s (m, w) of
      (Inr r, st) \<Rightarrow> st = (m, w) \<and> compatible (map con (fm_features m)) \<and> merged (map con (fm_features m)) r
    | (Inl e, st) \<Rightarrow> st = (m, w) \<and> \<not> compatible (map con (fm_features m)))"
proof -
  have "prepare_execution a s (m, w) = (merge_all no_contribution (map con (fm_features m)), (m, w))"
    using prepare_all_merge [OF con] by (simp add: prepare_execution_def own_def on_world_def io_defs)
  moreover have "compatible cs \<longleftrightarrow> (\<exists>r. merge_all no_contribution cs = Inr r)" for cs
    by (simp add: merge_all_iff(1))
  ultimately show ?thesis
    using merge_all_iff(2) [of "map con (fm_features m)"]
    by (cases "merge_all no_contribution (map con (fm_features m))") auto
qed

definition demo_feature :: "string \<Rightarrow> contribution \<Rightarrow> unit feature" where
  "demo_feature n c = \<lparr>feat_name = n, feat_abi = JInt 1, feat_rpc_prefixes = [n @ ''.''],
     feat_lifecycle_abi = JNull, feat_supports_recovery = JNull, feat_start = Absent,
     feat_prepare = (\<lambda>_ _. ret c), feat_run_env = None, feat_dispatch = (\<lambda>_ _. ret JNull),
     feat_started = None, feat_finished = None, feat_close = ret ()\<rparr>"

definition demo_manager :: "unit manager" where
  "demo_manager = \<lparr>fm_features =
      [demo_feature ''share'' \<lparr>c_argv_prefix = [], c_environment = [(''A'', ''1'')],
         c_mounts = [\<lparr>m_source = ''/run/a'', m_target = ''/a'', m_read_only = True\<rparr>], c_metadata = []\<rparr>,
       demo_feature ''net'' \<lparr>c_argv_prefix = [''nsenter''], c_environment = [(''A'', ''1''), (''B'', ''2'')],
         c_mounts = [], c_metadata = [(''network'', JBool True)]\<rparr>],
     fm_routes = []\<rparr>"

definition demo_con :: "unit feature \<Rightarrow> contribution" where
  "demo_con f = (case feat_prepare f ''x'' ''y'' () of (Inr c, _) \<Rightarrow> c | _ \<Rightarrow> no_contribution)"

theorem prepare_execution_composes_witness:
  "case prepare_execution ''x'' ''y'' (demo_manager, ()) of
      (Inr r, st) \<Rightarrow> st = (demo_manager, ()) \<and> compatible (map demo_con (fm_features demo_manager)) \<and>
        merged (map demo_con (fm_features demo_manager)) r
    | (Inl e, st) \<Rightarrow> st = (demo_manager, ()) \<and> \<not> compatible (map demo_con (fm_features demo_manager))"
proof (rule prepare_execution_composes)
  show "feat_prepare f ''x'' ''y'' w = (Inr (demo_con f), w)" if "f \<in> set (fm_features demo_manager)" for f w
    using that by (auto simp: demo_manager_def demo_con_def demo_feature_def ret_def)
qed

section \<open>One execution\<close>

lemma own_id_run: "own f (s, w) = (Inr (f s), (s, w))"
  by (simp add: own_def gets_def)

text \<open>
  C16. The handles of an execution are finished or closed, and only once: from the active state
  \<open>finish\<close> always ends in the closed state; if a plugin fails or answers nonsense, every handle is
  closed unverified in reverse order before the exception leaves; and after that every further
  \<open>finish\<close>, health check or start notification is refused, and closing does nothing.
\<close>

theorem finish_is_final:
  assumes act: "ae_state a = AE_active" and run: "ae_finish oc q (a, w) = (r, (a', w'))" and nc: "r \<noteq> Inl Crashed"
  shows "ae_state a' = AE_closed \<and> ae_entries a' = ae_entries a \<and>
    (\<forall>e. r = Inl e \<longrightarrow> (\<exists>w1. w' = snd (close_handles (ae_entries a) w1))) \<and>
    (\<forall>oc' q' v. ae_finish oc' q' (a', v) = (Inl not_active, (a', v))) \<and>
    (\<forall>v. ae_assert_healthy (a', v) = (Inl not_active, (a', v)) \<and> ae_agent_started (a', v) = (Inl not_active, (a', v)) \<and>
         ae_close_unverified (a', v) = (Inr (), (a', v)))"
proof -
  have close: "\<exists>w2. close_handles es w1 = (Inr (), w2) \<or> close_handles es w1 = (Inl Crashed, w2)" for es and w1 :: 'a
  proof -
    have "wp (forM hs (\<lambda>(_, _, h). suppress (call0 (h_close_unverified h)))) (\<lambda>_ _. True) (\<lambda>e _. e = Crashed) w1"
      for hs :: "(string \<times> int \<times> 'a handle) list" and w1
    proof (induction hs arbitrary: w1)
      case (Cons h hs)
      have s: "wp (suppress m) (\<lambda>_ _. True) (\<lambda>e _. e = Crashed) w1" for m :: "('a, unit) op"
        by (auto simp: suppress_def catch_def ret_def wp_def split: prod.splits sum.splits if_splits)
      show ?case
        using Cons.IH by (cases h) (simp add: wp_andthen, rule wp_mono [OF s], simp_all)
    qed (simp add: wp_ret)
    from this [of "rev es" w1] show ?thesis
      by (auto simp: close_handles_def wp_def split: prod.splits sum.splits)
  qed
  obtain x w1 where c: "collect_finish oc q (rev (ae_entries a)) [] w = (x, w1)" by (cases "collect_finish oc q (rev (ae_entries a)) [] w")
  have st: "ae_state a' = AE_closed \<and> ae_entries a' = ae_entries a \<and>
      (\<forall>e. r = Inl e \<longrightarrow> w' = snd (close_handles (ae_entries a) w1))"
    using run act nc close [of "ae_entries a" w1]
    by (cases x) (auto simp: ae_finish_def own_def own_modify_def on_world_def io_defs c split: if_splits)
  then have "\<forall>e. r = Inl e \<longrightarrow> (\<exists>w1. w' = snd (close_handles (ae_entries a) w1))" by blast
  with st show ?thesis
    by (simp add: ae_finish_def ae_assert_healthy_def ae_agent_started_def ae_close_unverified_def own_def io_defs)
qed

theorem finish_is_final_witness:
  "\<exists>a'. ae_finish ''done'' \<lparr>q_cgroup_path = [], q_cgroup_id = 0, q_status = [], q_basis = []\<rparr>
      (\<lparr>ae_entries = [], ae_state = AE_active\<rparr>, ()) = (Inr [], (a', ())) \<and> ae_state a' = AE_closed"
proof -
  let ?q = "\<lparr>q_cgroup_path = [], q_cgroup_id = 0, q_status = [], q_basis = []\<rparr>"
  let ?a = "\<lparr>ae_entries = [], ae_state = AE_active\<rparr> :: unit active"
  have run: "ae_finish ''done'' ?q (?a, ()) = (Inr [], (\<lparr>ae_entries = [], ae_state = AE_closed\<rparr>, ()))"
    by (simp add: ae_finish_def own_def own_modify_def on_world_def io_defs)
  from finish_is_final [OF _ run] run show ?thesis by auto
qed

text \<open>
  Mount targets: an accepted mount has an absolute source and an absolute target without
  \<open>..\<close>; the guard against mounting over the root compares with \<open>/\<close> only, and lets the target
  \<open>//\<close>, which names the same directory, pass.
\<close>

theorem mount_target_double_slash:
  "check_mount ''/opt/x'' ''/'' False = Inl (WorkspaceError ''plugin mount target must be a confined absolute path'') \<and>
   check_mount ''/opt/x'' ''//'' False = Inr \<lparr>m_source = ''/opt/x'', m_target = ''//'', m_read_only = False\<rparr>"
  by (simp add: check_mount_def posix_root_def posix_parts_def startswith_def)

end
