(* ===== verification/Workspace_Daemon.thy ===== *)
theory Workspace_Daemon
  imports Workspace_Operations Execution_Registry Feature_Manager
begin

text \<open>
  The daemon of \<^verbatim>\<open>src/src/allox/workspace/daemon.py\<close> around the store, the execution
  registry and the feature manager: construction of the service from its configuration, the
  dispatch of RPC actions, the HTTP handler and the admission rules of the command line. The
  process service appears as a record of its operations; the rest of the world it and the plugins
  act on is a parameter.
\<close>

section \<open>Service\<close>

record 'x daemon =
  d_store :: store
  d_reg :: registry
  d_ext :: 'x

type_synonym ('x, 'a) dop = "('x daemon, 'a) op"

definition on_store :: "'a sop \<Rightarrow> ('x, 'a) dop" where
  "on_store m = (\<lambda>w. case m (d_store w) of (r, s) \<Rightarrow> (r, w\<lparr>d_store := s\<rparr>))"

definition on_reg :: "'a rop \<Rightarrow> ('x, 'a) dop" where
  "on_reg m = (\<lambda>w. case m (d_reg w) of (r, g) \<Rightarrow> (r, w\<lparr>d_reg := g\<rparr>))"

text \<open>
  The process service as the daemon calls it; \<open>ps_fence\<close> enters \<open>session_launch_fence\<close> with
  termination and returns the stopped runs, \<open>ps_unfence\<close> leaves it.
\<close>

record 'x process_service =
  ps_status :: "('x, json) dop"
  ps_start :: "string \<Rightarrow> string \<Rightarrow> json list \<Rightarrow> json \<Rightarrow> json \<Rightarrow> json option \<Rightarrow> json option \<Rightarrow> ('x, json) dop"
  ps_list_runs :: "string \<Rightarrow> string \<Rightarrow> ('x, json) dop"
  ps_get :: "string \<Rightarrow> string \<Rightarrow> string \<Rightarrow> ('x, json) dop"
  ps_events :: "string \<Rightarrow> string \<Rightarrow> string \<Rightarrow> json \<Rightarrow> json \<Rightarrow> ('x, json) dop"
  ps_stop :: "string \<Rightarrow> string \<Rightarrow> string \<Rightarrow> ('x, json) dop"
  ps_fence :: "string \<Rightarrow> string \<Rightarrow> string \<Rightarrow> ('x, string list) dop"
  ps_unfence :: "('x, unit) dop"
  ps_close :: "('x, unit) dop"

record 'x service =
  svc_features :: "'x daemon manager option"
  svc_processes :: "'x process_service option"
  svc_kill :: bool

record options =
  o_process_tracking :: string
  o_audit_root :: "string option"
  o_kill :: json
  o_share_tools :: bool
  o_share_socket_root :: string
  o_session_network :: string
  o_network_root :: string
  o_network_socket_root :: string
  o_monitor_root :: "string option"
  o_monitor_socket_root :: string
  o_system_effects :: "json option"

definition normalized :: "string \<Rightarrow> string" where
  "normalized t = map to_lower (strip t)"

definition feature_specs :: "options \<Rightarrow> (string \<times> jdict) list res" where
  "feature_specs opt =
     (let net = normalized (o_session_network opt) in
      bindR (checkR (net \<in> {''disabled'', ''inherit'', ''isolated'', ''proxy''})
        (WorkspaceError ''session_network must be disabled, inherit, isolated, or proxy'')) (\<lambda>_.
      bindR (checkR (is_bool (o_kill opt)) (WorkspaceError ''kill_session_processes_on_rollback must be a boolean'')) (\<lambda>_.
      bindR (case o_system_effects opt of
          None \<Rightarrow> Inr []
        | Some (JObj cfg) \<Rightarrow>
            if normalized (o_process_tracking opt) \<noteq> ''disabled''
            then Inl (WorkspaceError (''system-effects already records process lifecycle; disable the separate '' @
                   ''process tracker to avoid duplicate kernel hooks''))
            else Inr [(''system-effects'', cfg)]
        | Some _ \<Rightarrow> Inl (WorkspaceError ''system effects configuration must be an object'')) (\<lambda>eff.
      Inr ((case o_monitor_root opt of
              None \<Rightarrow> []
            | Some r \<Rightarrow> [(''agent-monitor'', [(''root'', JStr r), (''socket_root'', JStr (o_monitor_socket_root opt))])])
           @ (if o_share_tools opt then [(''session-share'', [(''socket_root'', JStr (o_share_socket_root opt))])] else [])
           @ (if net \<noteq> ''disabled''
              then [(''session-network'', [(''root'', JStr (o_network_root opt)),
                      (''socket_root'', JStr (o_network_socket_root opt)), (''default_mode'', JStr net)])]
              else [])
           @ eff)))))"

text \<open>
  \<open>WorkspaceService.__init__\<close>. \<open>make_processes\<close> is the process service factory, \<open>factories\<close> and
  \<open>points\<close> are the plugin factories given and installed.
\<close>

definition service_init ::
  "(string \<Rightarrow> string \<Rightarrow> ('x, 'x process_service) dop) \<Rightarrow> (string, 'x daemon factory) dict
   \<Rightarrow> (string \<times> 'x daemon factory) list \<Rightarrow> options \<Rightarrow> ('x, 'x service) dop" where
  "service_init make_processes factories points opt =
     bind (lift_res (feature_specs opt)) (\<lambda>specs.
     let tracking = normalized (o_process_tracking opt);
         kill = (o_kill opt = JBool True)
     in if tracking \<noteq> ''disabled'' \<or> specs \<noteq> [] \<or> kill
        then (case o_audit_root opt of
            None \<Rightarrow> raise (WorkspaceError ''process audit root is required when Session execution features are enabled'')
          | Some audit \<Rightarrow>
              bind (make_processes audit tracking) (\<lambda>ps.
              if specs = [] then ret \<lparr>svc_features = None, svc_processes = Some ps, svc_kill = kill\<rparr>
              else (\<lambda>w. case fm_init factories points specs (\<lparr>fm_features = [], fm_routes = []\<rparr>, w) of
                  (Inr _, (m, w')) \<Rightarrow> (Inr \<lparr>svc_features = Some m, svc_processes = Some ps, svc_kill = kill\<rparr>, w')
                | (Inl e, (m, w')) \<Rightarrow> if e = Crashed then (Inl e, w') else andthen (ps_close ps) (raise e) w')))
        else ret \<lparr>svc_features = None, svc_processes = None, svc_kill = kill\<rparr>)"

definition feature_names :: "'x service \<Rightarrow> string list" where
  "feature_names svc = (case svc_features svc of None \<Rightarrow> [] | Some m \<Rightarrow> fm_names m)"

definition service_close :: "'x service \<Rightarrow> ('x, unit) dop" where
  "service_close svc =
     andthen (case svc_processes svc of None \<Rightarrow> ret () | Some ps \<Rightarrow> ps_close ps)
     (case svc_features svc of None \<Rightarrow> ret ()
      | Some m \<Rightarrow> (\<lambda>w. case fm_close (m, w) of (r, (_, w')) \<Rightarrow> (r, w')))"

section \<open>Dispatch\<close>

definition required :: "jdict \<Rightarrow> string \<Rightarrow> string res" where
  "required params key = (case map_of params key of
      Some (JStr (c # r)) \<Rightarrow> Inr (c # r)
    | _ \<Rightarrow> Inl (WorkspaceError (''missing string parameter: '' @ key)))"

definition boolean :: "jdict \<Rightarrow> string \<Rightarrow> bool \<Rightarrow> bool res" where
  "boolean params key dflt = (case dict_get params key (JBool dflt) of
      JBool b \<Rightarrow> Inr b
    | _ \<Rightarrow> Inl (WorkspaceError (key @ '' must be a boolean'')))"

text \<open>\<open>str(params.get("origin", ...))\<close>; \<open>text_of\<close> is \<open>str\<close> on values that are no strings.\<close>

definition origin_of :: "(json \<Rightarrow> string) \<Rightarrow> jdict \<Rightarrow> string" where
  "origin_of text_of params = (case dict_get params ''origin'' (JStr ''allox-control-plane'') of
      JStr t \<Rightarrow> t | v \<Rightarrow> text_of v)"

definition unknown_action :: "string \<Rightarrow> error" where
  "unknown_action act = WorkspaceError (''unknown action: '' @ act)"

definition opt_str_param :: "jdict \<Rightarrow> string \<Rightarrow> error \<Rightarrow> string option res" where
  "opt_str_param params key e = (case jget params key of JNull \<Rightarrow> Inr None | JStr t \<Rightarrow> Inr (Some t) | _ \<Rightarrow> Inl e)"

definition dispatch_process :: "'x service \<Rightarrow> string \<Rightarrow> jdict \<Rightarrow> ('x, json) dop" where
  "dispatch_process svc act params =
     (case svc_processes svc of
        None \<Rightarrow> if act = ''process.status''
          then ret (JObj [(''enabled'', JBool False), (''backend'', JStr ''disabled'')])
          else raise (WorkspaceError ''process tracking is not enabled on this daemon'')
      | Some ps \<Rightarrow>
          if act = ''process.status'' then ps_status ps
          else bind (lift_res (required params ''agent_id'')) (\<lambda>a.
               bind (lift_res (required params ''session_id'')) (\<lambda>s.
               if act = ''process.start'' then
                 (case jget params ''argv'' of
                    JList argv \<Rightarrow> ps_start ps a s argv (jget params ''env'') (dict_get params ''timeout'' (JInt 300))
                      (map_of params ''recovery'') (map_of params ''trace_context'')
                  | _ \<Rightarrow> raise (WorkspaceError ''argv must be a nonempty array of nonempty strings''))
               else if act = ''process.list'' then ps_list_runs ps a s
               else bind (lift_res (required params ''run_id'')) (\<lambda>rid.
                 if act = ''process.get'' then ps_get ps a s rid
                 else if act = ''process.events'' then
                   ps_events ps a s rid (dict_get params ''after'' (JInt 0)) (dict_get params ''limit'' (JInt 100))
                 else if act = ''process.stop'' then ps_stop ps a s rid
                 else raise (unknown_action act)))))"

text \<open>\<open>with launch_fence as stopped: ...\<close>\<close>

definition with_fence :: "'x service \<Rightarrow> bool \<Rightarrow> string \<Rightarrow> string \<Rightarrow> (string list \<Rightarrow> ('x, 'a) dop) \<Rightarrow> ('x, 'a) dop" where
  "with_fence svc terminate a s body =
     (if terminate
      then (case svc_processes svc of
          None \<Rightarrow> raise (WorkspaceError ''kill_processes requires process tracking'')
        | Some ps \<Rightarrow> bind (ps_fence ps a s ''rollback'') (\<lambda>stopped. finally_do (body stopped) (ps_unfence ps)))
      else body [])"

definition with_stopped :: "bool \<Rightarrow> string list \<Rightarrow> json \<Rightarrow> json res" where
  "with_stopped terminate stopped result =
     (if terminate
      then (case result of
          JObj d \<Rightarrow> Inr (JObj (dict_set ''terminated_process_runs'' (JList (map JStr stopped)) d))
        | _ \<Rightarrow> Inl TypeError)
      else Inr result)"

definition begin_reset :: "'x service \<Rightarrow> jdict \<Rightarrow> string \<Rightarrow> ('x, json) dop" where
  "begin_reset svc params token =
     bind (lift_res (required params ''agent_id'')) (\<lambda>a.
     bind (lift_res (required params ''session_id'')) (\<lambda>s.
     bind (lift_res (boolean params ''kill_processes'' (svc_kill svc))) (\<lambda>terminate.
     with_fence svc terminate a s (\<lambda>stopped.
       bind (on_reg (begin_runtime_reset a s token)) (\<lambda>d.
       lift_res (with_stopped terminate stopped (JObj d)))))))"

definition do_create :: "string \<Rightarrow> jdict \<Rightarrow> string \<Rightarrow> string \<Rightarrow> ('x, json) dop" where
  "do_create origin params a s =
     bind (lift_res (opt_str_param params ''checkpoint_id'' (WorkspaceError ''checkpoint_id must be a string''))) (\<lambda>c.
     bind (lift_res (opt_str_param params ''message'' (WorkspaceError ''message must be a string''))) (\<lambda>msg.
     bind (lift_res (case jget params ''metadata'' of JNull \<Rightarrow> Inr JNull | JObj d \<Rightarrow> Inr (JObj d)
        | _ \<Rightarrow> Inl (WorkspaceError ''metadata must be an object''))) (\<lambda>md.
     bind (lift_res (boolean params ''pinned'' False)) (\<lambda>pin.
     on_store (create_checkpoint a s c origin msg pin md)))))"

definition do_delete :: "string \<Rightarrow> jdict \<Rightarrow> string \<Rightarrow> string \<Rightarrow> ('x, json) dop" where
  "do_delete origin params a s =
     bind (lift_res (required params ''checkpoint_id'')) (\<lambda>c.
     bind (lift_res (boolean params ''force'' False)) (\<lambda>force.
     on_store (delete_checkpoint a s c origin force)))"

definition do_rollback :: "string \<Rightarrow> jdict \<Rightarrow> string \<Rightarrow> string \<Rightarrow> string \<Rightarrow> ('x, json) dop" where
  "do_rollback origin params token a s =
     bind (lift_res (opt_str_param params ''checkpoint_id'' (WorkspaceError ''checkpoint_id must be a string''))) (\<lambda>c.
     bind (lift_res (case jget params ''num_ancestors'' of JNull \<Rightarrow> Inr None | JInt n \<Rightarrow> Inr (Some n)
        | _ \<Rightarrow> Inl (WorkspaceError ''num_ancestors must be an integer''))) (\<lambda>anc.
     bind (lift_res (boolean params ''scrub_runtime'' True)) (\<lambda>scrub.
     on_store (rollback a s c anc scrub origin None False token))))"

definition mutating_actions :: "string list" where
  "mutating_actions = [''checkpoint.create'', ''checkpoint.delete'', ''session.rollback'', ''session.rollback_after_runtime_reset'']"

text \<open>The registry's part of \<open>with launch_fence, mutation\<close>: the plain mutation or the reset token.\<close>

definition with_mutation :: "string option \<Rightarrow> string \<Rightarrow> string \<Rightarrow> ('x, 'a) dop \<Rightarrow> ('x, 'a) dop" where
  "with_mutation reset_token a s body =
     (case reset_token of
        Some t \<Rightarrow> andthen (on_reg (reset_mutation t a s)) body
      | None \<Rightarrow> bind (on_reg (mutation_enter a s)) (\<lambda>key. finally_do body (on_reg (mutation_exit key))))"

definition dispatch_mutation :: "(json \<Rightarrow> string) \<Rightarrow> 'x service \<Rightarrow> string \<Rightarrow> jdict \<Rightarrow> string \<Rightarrow> ('x, json) dop" where
  "dispatch_mutation text_of svc act params token =
     bind (lift_res (required params ''agent_id'')) (\<lambda>a.
     bind (lift_res (required params ''session_id'')) (\<lambda>s.
     bind (lift_res (if act = ''session.rollback_after_runtime_reset''
        then (case jget params ''reset_token'' of JStr t \<Rightarrow> Inr (Some t)
              | _ \<Rightarrow> Inl (WorkspaceError ''rollback after runtime reset requires reset_token''))
        else Inr None)) (\<lambda>rt.
     bind (lift_res (if startswith act ''session.rollback''
        then boolean params ''kill_processes'' (svc_kill svc) else Inr False)) (\<lambda>terminate.
     with_fence svc terminate a s (\<lambda>stopped. with_mutation rt a s (
       let origin = origin_of text_of params in
       if act = ''checkpoint.create'' then do_create origin params a s
       else if act = ''checkpoint.delete'' then do_delete origin params a s
       else bind (do_rollback origin params token a s) (\<lambda>result.
            lift_res (with_stopped terminate stopped result))))))))"

definition dispatch_core :: "(json \<Rightarrow> string) \<Rightarrow> 'x service \<Rightarrow> string \<Rightarrow> string \<Rightarrow> jdict \<Rightarrow> ('x, json) dop" where
  "dispatch_core text_of svc token act params =
     (let origin = origin_of text_of params;
          arg = (\<lambda>key f. bind (lift_res (required params key)) f)
      in
      if startswith act ''process.'' then dispatch_process svc act params
      else if act = ''store.initialize'' then on_store initialize
      else if act = ''agent.create'' then arg ''agent_id'' (\<lambda>a. on_store (create_agent a origin))
      else if act = ''session.create'' then
        arg ''agent_id'' (\<lambda>a. arg ''session_id'' (\<lambda>s. on_store (create_session a s origin)))
      else if act = ''session.describe'' then
        arg ''agent_id'' (\<lambda>a. arg ''session_id'' (\<lambda>s. on_store (describe a s)))
      else if act = ''checkpoint.list'' then
        arg ''agent_id'' (\<lambda>a. arg ''session_id'' (\<lambda>s. on_store (checkpoint_status a s)))
      else if act = ''execution.acquire'' then
        arg ''agent_id'' (\<lambda>a. arg ''session_id'' (\<lambda>s. on_reg (acquire a s False token)))
      else if act = ''execution.release'' then arg ''lease_token'' (\<lambda>t. on_reg (release t))
      else if act = ''runtime.register_background'' then
        arg ''agent_id'' (\<lambda>a. arg ''session_id'' (\<lambda>s. arg ''sandbox_id'' (\<lambda>b. arg ''execution_id'' (\<lambda>e.
          on_reg (register_background a s b e)))))
      else if act = ''runtime.begin_reset'' then begin_reset svc params token
      else if act = ''runtime.complete_reset'' then
        arg ''reset_token'' (\<lambda>t. bind (lift_res (boolean params ''success'' False)) (\<lambda>ok.
          on_reg (complete_runtime_reset t ok)))
      else if act \<in> set mutating_actions then dispatch_mutation text_of svc act params token
      else raise (unknown_action act))"

text \<open>
  \<open>dispatch\<close>; \<open>token\<close> is the identifier a call may draw (lease, reset or rollback token).
\<close>

definition dispatch :: "(json \<Rightarrow> string) \<Rightarrow> 'x service \<Rightarrow> string \<Rightarrow> string \<Rightarrow> jdict \<Rightarrow> ('x, json) dop" where
  "dispatch text_of svc token act params =
     (case svc_features svc of
        Some m \<Rightarrow> if handles m act then (\<lambda>w. case fm_dispatch act params (m, w) of (r, (_, w')) \<Rightarrow> (r, w'))
                   else dispatch_core text_of svc token act params
      | None \<Rightarrow> dispatch_core text_of svc token act params)"

section \<open>HTTP\<close>

record 'x server =
  srv_service :: "'x service"
  srv_token :: string

definition server_init :: "'x service \<Rightarrow> string \<Rightarrow> 'x server res" where
  "server_init svc token =
     (if (\<exists>n \<in> set (feature_names svc). n \<in> {''session-share'', ''agent-monitor''}) \<and> token = []
      then Inl (WorkspaceError ''share/monitor tools require an authenticated management endpoint'')
      else Inr \<lparr>srv_service = svc, srv_token = token\<rparr>)"

text \<open>
  A request as the handler sees it; \<open>rq_body n\<close> is the document parsed from the first \<open>n\<close> bytes of
  the body, or the exception of the parser.
\<close>

record request =
  rq_path :: string
  rq_authorization :: "string option"
  rq_length :: "string option"
  rq_body :: "int \<Rightarrow> json res"

text \<open>\<open>secrets.compare_digest\<close> on strings raises for characters outside ASCII.\<close>

definition is_ascii :: "string \<Rightarrow> bool" where
  "is_ascii t = list_all (\<lambda>c. (of_char c :: nat) < 128) t"

definition compare_digest :: "string \<Rightarrow> string \<Rightarrow> bool res" where
  "compare_digest a b = (if is_ascii a \<and> is_ascii b then Inr (a = b) else Inl TypeError)"

definition authorized :: "string \<Rightarrow> request \<Rightarrow> bool res" where
  "authorized token rq =
     (if token = [] then Inr True
      else let supplied = (case rq_authorization rq of None \<Rightarrow> [] | Some t \<Rightarrow> t) in
        if startswith supplied ''Bearer '' then compare_digest (drop 7 supplied) token else Inr False)"

definition not_found :: "int \<times> jdict" where
  "not_found = (404, [(''error'', JStr ''not found'')])"

definition do_GET :: "request \<Rightarrow> int \<times> jdict" where
  "do_GET rq = (if rq_path rq \<noteq> ''/health'' then not_found else (200, [(''status'', JStr ''healthy'')]))"

fun is_client_error :: "error \<Rightarrow> bool" where
  "is_client_error (WorkspaceError m) = True"
| "is_client_error (ValueError m) = True"
| "is_client_error _ = False"

definition parse_request :: "request \<Rightarrow> (string \<times> jdict) res" where
  "parse_request rq =
     bindR (py_int (JStr (case rq_length rq of None \<Rightarrow> ''0'' | Some t \<Rightarrow> t))) (\<lambda>n.
     bindR (checkR (0 < n \<and> n \<le> 1024 * 1024) (WorkspaceError ''invalid request size'')) (\<lambda>_.
     bindR (rq_body rq n) (\<lambda>doc. (case doc of
        JObj d \<Rightarrow> (case (jget d ''action'', dict_get d ''params'' (JObj [])) of
            (JStr act, JObj params) \<Rightarrow> Inr (act, params)
          | _ \<Rightarrow> Inl (WorkspaceError ''request requires string action and object params''))
      | _ \<Rightarrow> Inl AttributeError))))"

definition do_POST :: "(json \<Rightarrow> string) \<Rightarrow> 'x server \<Rightarrow> string \<Rightarrow> request \<Rightarrow> ('x, int \<times> jdict) dop" where
  "do_POST text_of srv token rq =
     (if rq_path rq \<noteq> ''/v1/rpc'' then ret not_found
      else bind (lift_res (authorized (srv_token srv) rq)) (\<lambda>ok.
        if \<not> ok then ret (401, [(''error'', JStr ''unauthorized'')])
        else catch (\<lambda>_. True)
          (bind (lift_res (parse_request rq)) (\<lambda>(act, params).
           bind (dispatch text_of (srv_service srv) token act params) (\<lambda>result.
           ret (200, [(''ok'', JBool True), (''result'', result)]))))
          (\<lambda>e. ret (if is_client_error e then (400, [(''ok'', JBool False), (''error'', JStr (exc_text e))])
                     else (500, [(''ok'', JBool False), (''error'', JStr ''internal workspace daemon error'')])))))"

section \<open>Mutations under the registry\<close>

definition blocked :: "registry \<Rightarrow> session_key \<Rightarrow> bool" where
  "blocked g k = (has_readers g k \<or> k \<in> mutating g \<or> has_lease g k \<or> has_background g k)"

lemma mutation_enter_free:
  "ID_RE_fullmatch a \<Longrightarrow> ID_RE_fullmatch s \<Longrightarrow> \<not> blocked g (a, s) \<Longrightarrow>
     mutation_enter a s g = (Inr (a, s), g\<lparr>mutating := insert (a, s) (mutating g)\<rparr>)"
  by (simp add: mutation_enter_def blocked_def reg_key_def io_defs)

lemma mutation_enter_refused:
  "\<not> (ID_RE_fullmatch a \<and> ID_RE_fullmatch s \<and> \<not> blocked g (a, s)) \<Longrightarrow>
     \<exists>m. mutation_enter a s g = (Inl (WorkspaceError m), g)"
  by (auto simp: mutation_enter_def blocked_def reg_key_def io_defs validate_id_def invalid_id_def)

text \<open>Operations that leave the registry alone, whatever happens.\<close>

definition keeps_reg :: "('x, 'a) dop \<Rightarrow> bool" where
  "keeps_reg m = (\<forall>w. d_reg (snd (m w)) = d_reg w)"

lemma keeps_reg_lift [simp]: "keeps_reg (lift_res r)" "keeps_reg (ret x)" "keeps_reg (raise e)"
  by (simp_all add: keeps_reg_def io_defs)

lemma keeps_reg_store [simp]: "keeps_reg (on_store m)"
  by (simp add: keeps_reg_def on_store_def split: prod.splits)

lemma keeps_reg_bind [intro]: "keeps_reg m \<Longrightarrow> (\<And>x. keeps_reg (f x)) \<Longrightarrow> keeps_reg (bind m f)"
  by (simp add: keeps_reg_def bind_def split: prod.splits sum.splits) (metis snd_conv)

lemma keeps_reg_bodies:
  "keeps_reg (do_create origin params a s)" "keeps_reg (do_delete origin params a s)"
  "keeps_reg (do_rollback origin params token a s)"
  by (auto simp: do_create_def do_delete_def do_rollback_def intro!: keeps_reg_bind)

lemma with_mutation_outcome:
  assumes "keeps_reg body" and "with_mutation None a s body w = (r, w')"
  shows "(r = Inl Crashed \<or> d_reg w' = d_reg w) \<and> (blocked (d_reg w) (a, s) \<longrightarrow> w' = w \<and> (\<exists>m. r = Inl (WorkspaceError m)))"
proof (cases "ID_RE_fullmatch a \<and> ID_RE_fullmatch s \<and> \<not> blocked (d_reg w) (a, s)")
  case True
  let ?w1 = "w\<lparr>d_reg := (d_reg w)\<lparr>mutating := insert (a, s) (mutating (d_reg w))\<rparr>\<rparr>"
  obtain r2 w2 where b: "body ?w1 = (r2, w2)" by (cases "body ?w1")
  then have "d_reg w2 = d_reg ?w1" using assms(1) by (metis keeps_reg_def snd_conv)
  moreover have "(a, s) \<notin> mutating (d_reg w)" using True by (simp add: blocked_def)
  ultimately have "d_reg (snd (on_reg (mutation_exit (a, s)) w2)) = d_reg w"
    by (simp add: on_reg_def mutation_exit_def modify_def)
  then show ?thesis
    using True assms(2) b mutation_enter_free [of a s "d_reg w"]
    by (auto simp: with_mutation_def bind_def on_reg_def finally_do_def mutation_exit_def modify_def split: if_splits)
next
  case False
  then obtain m where "mutation_enter a s (d_reg w) = (Inl (WorkspaceError m), d_reg w)"
    using mutation_enter_refused by blast
  then show ?thesis using assms(2) by (auto simp: with_mutation_def bind_def on_reg_def)
qed

lemma required_cases: "(\<exists>t. required params key = Inr t) \<or> (\<exists>m. required params key = Inl (WorkspaceError m))"
  by (auto simp: required_def split: option.splits json.splits list.splits)

lemma dispatch_core_mutation:
  "act \<in> set mutating_actions \<Longrightarrow> dispatch_core text_of svc token act params = dispatch_mutation text_of svc act params token"
proof -
  assume "act \<in> set mutating_actions"
  then consider "act = ''checkpoint.create''" | "act = ''checkpoint.delete''" | "act = ''session.rollback''"
    | "act = ''session.rollback_after_runtime_reset''"
    by (auto simp: mutating_actions_def)
  then show ?thesis
    by cases (simp_all add: dispatch_core_def mutating_actions_def startswith_def)
qed

section \<open>Properties\<close>

text \<open>Whether a request asks for the running processes of the Session to be killed first.\<close>

definition asks_termination :: "'x service \<Rightarrow> string \<Rightarrow> jdict \<Rightarrow> bool res" where
  "asks_termination svc act params =
     (if act = ''session.rollback'' then boolean params ''kill_processes'' (svc_kill svc) else Inr False)"

lemma asks_termination_cases: "asks_termination svc act params = Inr b \<or> (\<exists>m. asks_termination svc act params = Inl (WorkspaceError m))
   \<or> asks_termination svc act params = Inr (\<not> b)"
  by (auto simp: asks_termination_def boolean_def split: json.splits)

definition mutation_body :: "(json \<Rightarrow> string) \<Rightarrow> string \<Rightarrow> jdict \<Rightarrow> string \<Rightarrow> bool \<Rightarrow> string list \<Rightarrow> string \<Rightarrow> string \<Rightarrow> ('x, json) dop" where
  "mutation_body text_of act params token terminate stopped a s = (let origin = origin_of text_of params in
     if act = ''checkpoint.create'' then do_create origin params a s
     else if act = ''checkpoint.delete'' then do_delete origin params a s
     else bind (do_rollback origin params token a s) (\<lambda>result. lift_res (with_stopped terminate stopped result)))"

lemma keeps_reg_body: "keeps_reg (mutation_body text_of act params token terminate stopped a s)"
  unfolding mutation_body_def Let_def using keeps_reg_bodies by (auto intro!: keeps_reg_bind)

lemma dispatch_mutation_plain:
  assumes "act \<in> {''checkpoint.create'', ''checkpoint.delete'', ''session.rollback''}"
  shows "dispatch_mutation text_of svc act params token =
    bind (lift_res (required params ''agent_id'')) (\<lambda>a.
    bind (lift_res (required params ''session_id'')) (\<lambda>s.
    bind (lift_res (asks_termination svc act params)) (\<lambda>terminate.
    with_fence svc terminate a s (\<lambda>stopped. with_mutation None a s (mutation_body text_of act params token terminate stopped a s)))))"
proof -
  have lift: "bind (lift_res (Inr x)) f = f x" for x and f :: "'p \<Rightarrow> ('x, json) dop" by (simp add: bind_def lift_res_def fun_eq_iff)
  from assms consider "act = ''checkpoint.create''" | "act = ''checkpoint.delete''" | "act = ''session.rollback''" by auto
  then show ?thesis
    by cases (simp_all add: dispatch_mutation_def asks_termination_def mutation_body_def [abs_def] startswith_def lift Let_def)
qed

text \<open>What a mutation of a Session may do to the daemon, given the registry it finds.\<close>

definition guarded_outcome :: "session_key \<Rightarrow> ('x daemon) \<Rightarrow> 'a res \<times> 'x daemon \<Rightarrow> bool" where
  "guarded_outcome k w o_w = ((fst o_w = Inl Crashed \<or> d_reg (snd o_w) = d_reg w) \<and>
     (blocked (d_reg w) k \<longrightarrow> snd o_w = w \<and> (\<exists>m. fst o_w = Inl (WorkspaceError m))))"

lemma with_mutation_guarded: "keeps_reg body \<Longrightarrow> guarded_outcome (a, s) w (with_mutation None a s body w)"
  using with_mutation_outcome [of body a s w "fst (with_mutation None a s body w)" "snd (with_mutation None a s body w)"]
  by (simp add: guarded_outcome_def)

text \<open>
  C20. Checkpoints, deletions and rollbacks through the daemon respect the registry. A request that does
  not ask for termination leaves the registry as it found it on every path, success or exception, and
  while the Session is leased, read by a share, used by background executions or already being mutated it
  is refused without touching the store. A rollback that asks for termination, by its parameter or by the
  daemon's default, is refused on a daemon without process tracking; otherwise the launch fence, which
  kills the running work, comes first, an exception of the fence ends the request, and the same guard is
  then decided on the registry as the fence left it, before the fence is lifted again.
\<close>

theorem mutation_dispatch_guarded:
  assumes act: "act \<in> {''checkpoint.create'', ''checkpoint.delete'', ''session.rollback''}"
    and nf: "case svc_features svc of None \<Rightarrow> True | Some m \<Rightarrow> \<not> handles m act"
    and run: "dispatch text_of svc token act params w = (r, w')"
  shows "(asks_termination svc act params \<noteq> Inr True \<longrightarrow> (r = Inl Crashed \<or> d_reg w' = d_reg w) \<and>
      (\<forall>a s. required params ''agent_id'' = Inr a \<and> required params ''session_id'' = Inr s \<and> blocked (d_reg w) (a, s)
         \<longrightarrow> w' = w \<and> (\<exists>m. r = Inl (WorkspaceError m)))) \<and>
    (\<forall>a s. asks_termination svc act params = Inr True \<and> required params ''agent_id'' = Inr a \<and> required params ''session_id'' = Inr s \<longrightarrow>
      (case svc_processes svc of
         None \<Rightarrow> w' = w \<and> (\<exists>m. r = Inl (WorkspaceError m))
       | Some ps \<Rightarrow> (case ps_fence ps a s ''rollback'' w of
           (Inl e, w1) \<Rightarrow> r = Inl e \<and> w' = w1
         | (Inr stopped, w1) \<Rightarrow> \<exists>r2 w2. guarded_outcome (a, s) w1 (r2, w2) \<and> (r, w') = finally_do (\<lambda>_. (r2, w2)) (ps_unfence ps) w1)))"
proof -
  have run': "dispatch_mutation text_of svc act params token w = (r, w')"
    using run nf act by (auto simp: dispatch_def dispatch_core_mutation mutating_actions_def split: option.splits)
  note run'' = run' [unfolded dispatch_mutation_plain [OF act]]
  have missing: "(\<exists>m. r = Inl (WorkspaceError m)) \<and> w' = w"
    if "\<not> (\<exists>a s. required params ''agent_id'' = Inr a \<and> required params ''session_id'' = Inr s)"
    using that run'' required_cases [of params "''agent_id''"] required_cases [of params "''session_id''"]
    by (auto simp: bind_def lift_res_def)
  have named: "with_fence svc terminate a s (\<lambda>stopped. with_mutation None a s (mutation_body text_of act params token terminate stopped a s)) w = (r, w')"
    if "required params ''agent_id'' = Inr a" "required params ''session_id'' = Inr s" "asks_termination svc act params = Inr terminate" for a s terminate
    using that run'' by (simp add: bind_def lift_res_def)
  have plain: "guarded_outcome (a, s) w (r, w')"
    if p: "required params ''agent_id'' = Inr a" "required params ''session_id'' = Inr s" and "asks_termination svc act params \<noteq> Inr True" for a s
  proof (cases "asks_termination svc act params")
    case (Inl e)
    then have "r = Inl e" "w' = w" "\<exists>m. e = WorkspaceError m"
      using run'' p asks_termination_cases [of svc act params True] by (auto simp: bind_def lift_res_def)
    then show ?thesis by (auto simp: guarded_outcome_def)
  next
    case (Inr b)
    then have "with_mutation None a s (mutation_body text_of act params token False [] a s) w = (r, w')"
      using named [OF p] that(3) by (simp add: with_fence_def)
    then show ?thesis using with_mutation_guarded [OF keeps_reg_body] by metis
  qed
  show ?thesis
  proof (intro conjI impI allI)
    assume nt: "asks_termination svc act params \<noteq> Inr True"
    show "r = Inl Crashed \<or> d_reg w' = d_reg w" using missing plain [OF _ _ nt] unfolding guarded_outcome_def by fastforce
    fix a s
    assume p: "required params ''agent_id'' = Inr a \<and> required params ''session_id'' = Inr s \<and> blocked (d_reg w) (a, s)"
    show "w' = w" "\<exists>m. r = Inl (WorkspaceError m)" using plain [of a s] p nt by (simp_all add: guarded_outcome_def)
  next
    fix a s
    assume p: "asks_termination svc act params = Inr True \<and> required params ''agent_id'' = Inr a \<and> required params ''session_id'' = Inr s"
    note fenced = named [of a s True, unfolded with_fence_def, simplified]
    show "case svc_processes svc of
         None \<Rightarrow> w' = w \<and> (\<exists>m. r = Inl (WorkspaceError m))
       | Some ps \<Rightarrow> (case ps_fence ps a s ''rollback'' w of
           (Inl e, w1) \<Rightarrow> r = Inl e \<and> w' = w1
         | (Inr stopped, w1) \<Rightarrow> \<exists>r2 w2. guarded_outcome (a, s) w1 (r2, w2) \<and> (r, w') = finally_do (\<lambda>_. (r2, w2)) (ps_unfence ps) w1)"
    proof (cases "svc_processes svc")
      case None
      then show ?thesis using fenced p by (auto simp: raise_def)
    next
      case (Some ps)
      obtain q w1 where f: "ps_fence ps a s ''rollback'' w = (q, w1)" by fastforce
      show ?thesis
      proof (cases q)
        case (Inl e)
        then show ?thesis using fenced p Some f by (auto simp: bind_def)
      next
        case (Inr stopped)
        let ?m = "with_mutation None a s (mutation_body text_of act params token True stopped a s)"
        have "guarded_outcome (a, s) w1 (fst (?m w1), snd (?m w1))" using with_mutation_guarded [OF keeps_reg_body] by simp
        moreover have "(r, w') = finally_do (\<lambda>_. (fst (?m w1), snd (?m w1))) (ps_unfence ps) w1"
          using fenced p Some f Inr by (simp add: bind_def finally_do_def)
        ultimately show ?thesis using Some f Inr by (simp only: option.case prod.case sum.case) blast
      qed
    qed
  qed
qed

theorem mutation_dispatch_guarded_witness:
  "\<forall>text_of (st :: store). \<exists>m.
     let w = \<lparr>d_store = st, d_reg = empty_registry\<lparr>mutating := {(''x'', ''y'')}\<rparr>, d_ext = ()\<rparr> in
     dispatch text_of \<lparr>svc_features = None, svc_processes = None, svc_kill = False\<rparr> ''T'' ''session.rollback''
       [(''agent_id'', JStr ''x''), (''session_id'', JStr ''y'')] w = (Inl (WorkspaceError m), w)"
proof (intro allI)
  fix text_of :: "json \<Rightarrow> string" and st :: store
  let ?w = "\<lparr>d_store = st, d_reg = empty_registry\<lparr>mutating := {(''x'', ''y'')}\<rparr>, d_ext = ()\<rparr>"
  let ?ps = "[(''agent_id'', JStr ''x''), (''session_id'', JStr ''y'')]"
  let ?svc = "\<lparr>svc_features = None, svc_processes = None, svc_kill = False\<rparr> :: unit service"
  obtain r w' where run: "dispatch text_of ?svc ''T'' ''session.rollback'' ?ps ?w = (r, w')" by fastforce
  from mutation_dispatch_guarded [OF _ _ run]
  show "\<exists>m. let w = ?w in dispatch text_of ?svc ''T'' ''session.rollback'' ?ps w = (Inl (WorkspaceError m), w)"
    using run by (auto simp: asks_termination_def boolean_def dict_get_def required_def blocked_def)
qed

text \<open>
  C21. The HTTP endpoint: with a configured token, a request that does not carry exactly this token
  after \<open>Bearer\<close> changes nothing, and its answer is \<open>404\<close>, \<open>401\<close> or no answer at all. An answer to a POST
  is \<open>200\<close>, \<open>400\<close>, \<open>401\<close>, \<open>404\<close> or \<open>500\<close>; a \<open>500\<close> carries a fixed text and nothing of the exception.
\<close>

theorem http_authorization:
  assumes "do_POST text_of srv tok rq w = (r, w')"
  shows "(srv_token srv \<noteq> [] \<and> rq_authorization rq \<noteq> Some (''Bearer '' @ srv_token srv) \<longrightarrow>
       w' = w \<and> r \<in> {Inr not_found, Inr (401, [(''error'', JStr ''unauthorized'')]), Inl TypeError}) \<and>
    (\<forall>code body. r = Inr (code, body) \<longrightarrow> code \<in> {200, 400, 401, 404, 500} \<and>
       (code = 500 \<longrightarrow> body = [(''ok'', JBool False), (''error'', JStr ''internal workspace daemon error'')]))"
proof -
  let ?a = "authorized (srv_token srv) rq"
  have auth: "?a = Inr True \<Longrightarrow> srv_token srv \<noteq> [] \<Longrightarrow> rq_authorization rq = Some (''Bearer '' @ srv_token srv)"
    by (cases "rq_authorization rq")
       (auto simp: authorized_def Let_def compare_digest_def startswith_iff split: if_splits)
  have auth_err: "?a = Inl e \<Longrightarrow> e = TypeError" for e
    by (auto simp: authorized_def Let_def compare_digest_def split: if_splits)
  consider "rq_path rq \<noteq> ''/v1/rpc''" | "rq_path rq = ''/v1/rpc''" "?a = Inl TypeError"
    | "rq_path rq = ''/v1/rpc''" "?a = Inr False" | "rq_path rq = ''/v1/rpc''" "?a = Inr True"
    using auth_err by (cases ?a) auto
  then show ?thesis
  proof cases
    case 4
    then show ?thesis
      using assms auth
      by (auto simp: do_POST_def ret_def bind_def lift_res_def catch_def split: prod.splits sum.splits if_splits)
  qed (use assms in \<open>auto simp: do_POST_def not_found_def ret_def bind_def lift_res_def\<close>)
qed

theorem http_authorization_witness:
  "\<forall>text_of (w :: unit daemon). snd (do_POST text_of
       \<lparr>srv_service = \<lparr>svc_features = None, svc_processes = None, svc_kill = False\<rparr>, srv_token = ''secret''\<rparr> ''T''
       \<lparr>rq_path = ''/v1/rpc'', rq_authorization = Some ''Bearer guess'', rq_length = Some ''2'', rq_body = (\<lambda>_. Inr (JObj []))\<rparr> w) = w"
proof (intro allI)
  fix text_of :: "json \<Rightarrow> string" and w :: "unit daemon"
  let ?srv = "\<lparr>srv_service = \<lparr>svc_features = None, svc_processes = None, svc_kill = False\<rparr>, srv_token = ''secret''\<rparr> :: unit server"
  let ?rq = "\<lparr>rq_path = ''/v1/rpc'', rq_authorization = Some ''Bearer guess'', rq_length = Some ''2'', rq_body = (\<lambda>_. Inr (JObj []))\<rparr>"
  obtain r w' where "do_POST text_of ?srv ''T'' ?rq w = (r, w')" by fastforce
  from http_authorization [OF this] this show "snd (do_POST text_of ?srv ''T'' ?rq w) = w" by simp
qed

section \<open>Names of the active plugins\<close>

lemma service_init_names:
  assumes "service_init mp factories points opt w = (Inr svc, w')"
  shows "\<exists>specs. feature_specs opt = Inr specs \<and> feature_names svc = map fst specs"
proof (cases "feature_specs opt")
  case (Inr specs)
  let ?fm = "\<lambda>w. fm_init factories points specs (\<lparr>fm_features = [], fm_routes = []\<rparr>, w)"
  have names: "?fm v = (Inr u, (m, v')) \<Longrightarrow> fm_names m = map fst specs" for u m v v'
    using activate_all_wf [of "(\<lparr>fm_features = [], fm_routes = []\<rparr>, v)" specs factories points]
    by (auto simp: fm_init_def catch_def wp_def wf_manager_def fm_names_def andthen_def bind_def raise_def
        split: prod.splits sum.splits if_splits)
  show ?thesis
    using assms Inr names
    by (auto simp: service_init_def Let_def bind_def lift_res_def ret_def raise_def andthen_def feature_names_def
        split: prod.splits sum.splits if_splits option.splits)
qed (use assms in \<open>simp add: service_init_def bind_def lift_res_def\<close>)

lemma feature_specs_names:
  assumes "feature_specs opt = Inr specs"
  shows "set (map fst specs) \<subseteq> {''agent-monitor'', ''session-share'', ''session-network'', ''system-effects''} \<and>
    (''agent-monitor'' \<in> set (map fst specs) \<longleftrightarrow> o_monitor_root opt \<noteq> None) \<and>
    (''session-share'' \<in> set (map fst specs) \<longleftrightarrow> o_share_tools opt) \<and>
    (''system-effects'' \<in> set (map fst specs) \<longleftrightarrow> o_system_effects opt \<noteq> None) \<and>
    (''session-network'' \<in> set (map fst specs) \<longleftrightarrow> normalized (o_session_network opt) \<noteq> ''disabled'')"
  using assms by (auto simp: feature_specs_def Let_def bindR_eq_Inr split: option.splits json.splits if_splits)

end
