(* ===== verification/Daemon_Config.thy ===== *)
theory Daemon_Config
  imports Workspace_Daemon
begin

text \<open>
  The command line of the daemon (\<open>build_parser\<close>, \<open>_system_effects_config_from_args\<close> and \<open>main\<close>
  of \<^verbatim>\<open>src/src/allox/workspace/daemon.py\<close>): the parsed options with their defaults, the
  all-or-nothing configuration of the system-effects plugin, and the rules under which a server is
  started at all. A path option is the text of the parsed path.
\<close>

section \<open>Options\<close>

record args =
  a_root :: string
  a_listen :: string
  a_token :: string
  a_monitor_root :: "string option"
  a_monitor_socket_root :: string
  a_process_tracking :: string
  a_process_audit_root :: "string option"
  a_process_tracker_command :: string
  a_process_cgroup_root :: string
  a_kill :: bool
  a_share_tools :: bool
  a_share_socket_root :: string
  a_session_network :: string
  a_network_root :: string
  a_network_socket_root :: string
  se_observer :: "string option"
  se_verifier :: "string option"
  se_recovery_verifier :: "string option"
  se_recovery_helper :: "string option"
  se_recovery_helper_sha256 :: "string option"
  se_recovery_timeout_ms :: "int option"
  se_recovery_max_output_bytes :: "int option"
  se_recorder_object :: "string option"
  se_recorder_sha256 :: "string option"
  se_lifecycle_object :: "string option"
  se_lifecycle_sha256 :: "string option"
  se_profile :: "string option"
  se_object_resolution :: "string option"
  se_bpf_scope :: "string option"
  se_filesystem_scope :: "string option"
  se_linux_scope :: "string option"
  se_poll_interval_ms :: "int option"
  se_drain_timeout_ms :: "int option"
  se_ready_timeout :: "rat option"
  se_finalize_timeout :: "rat option"
  se_host_lock :: "string option"

definition default_args :: "string \<Rightarrow> args" where
  "default_args r = \<lparr>
     a_root = r, a_listen = ''127.0.0.1:8092'', a_token = [],
     a_monitor_root = None, a_monitor_socket_root = ''/dev/shm/allox-monitor'',
     a_process_tracking = ''disabled'', a_process_audit_root = None,
     a_process_tracker_command = ''/usr/libexec/allox/allox-process-tracker'',
     a_process_cgroup_root = ''/sys/fs/cgroup/allox'', a_kill = False,
     a_share_tools = False, a_share_socket_root = ''/run/allox-share'',
     a_session_network = ''disabled'', a_network_root = ''/run/allox-network'',
     a_network_socket_root = ''/dev/shm/allox-network'',
     se_observer = None, se_verifier = None, se_recovery_verifier = None, se_recovery_helper = None,
     se_recovery_helper_sha256 = None, se_recovery_timeout_ms = None, se_recovery_max_output_bytes = None,
     se_recorder_object = None, se_recorder_sha256 = None, se_lifecycle_object = None, se_lifecycle_sha256 = None,
     se_profile = None, se_object_resolution = None, se_bpf_scope = None, se_filesystem_scope = None,
     se_linux_scope = None, se_poll_interval_ms = None, se_drain_timeout_ms = None, se_ready_timeout = None,
     se_finalize_timeout = None, se_host_lock = None\<rparr>"

section \<open>System-effects configuration\<close>

text \<open>\<open>Path.with_name\<close> on the text of a path.\<close>

definition with_name :: "string \<Rightarrow> string \<Rightarrow> string res" where
  "with_name p n =
     (let name = rev (takeWhile (\<lambda>c. c \<noteq> CHR ''/'') (rev p));
          dir = rev (dropWhile (\<lambda>c. c \<noteq> CHR ''/'') (rev p))
      in if name = [] \<or> p = ''.'' then Inl (ValueError ''path has an empty name'') else Inr (dir @ n))"

definition se_required :: "args \<Rightarrow> (string \<times> string option) list" where
  "se_required x =
     [(''observer_path'', se_observer x), (''recorder_object_path'', se_recorder_object x),
      (''recorder_object_sha256'', se_recorder_sha256 x), (''lifecycle_object_path'', se_lifecycle_object x),
      (''lifecycle_object_sha256'', se_lifecycle_sha256 x)]"

definition se_optional_given :: "args \<Rightarrow> bool" where
  "se_optional_given x =
     (se_verifier x \<noteq> None \<or> se_recovery_verifier x \<noteq> None \<or> se_recovery_helper x \<noteq> None \<or>
      se_recovery_helper_sha256 x \<noteq> None \<or> se_recovery_timeout_ms x \<noteq> None \<or>
      se_recovery_max_output_bytes x \<noteq> None \<or> se_bpf_scope x \<noteq> None \<or> se_filesystem_scope x \<noteq> None \<or>
      se_linux_scope x \<noteq> None \<or> se_profile x \<noteq> None \<or> se_object_resolution x \<noteq> None \<or>
      se_poll_interval_ms x \<noteq> None \<or> se_drain_timeout_ms x \<noteq> None \<or> se_ready_timeout x \<noteq> None \<or>
      se_finalize_timeout x \<noteq> None \<or> se_host_lock x \<noteq> None)"

definition or_default :: "'a option \<Rightarrow> 'a \<Rightarrow> 'a" where
  "or_default v dflt = (case v of None \<Rightarrow> dflt | Some y \<Rightarrow> y)"

text \<open>\<open>value or default\<close> on a string: the empty string counts as missing.\<close>

definition str_or_default :: "string option \<Rightarrow> string \<Rightarrow> string" where
  "str_or_default v dflt = (case v of Some (c # r) \<Rightarrow> c # r | _ \<Rightarrow> dflt)"

definition system_effects_config :: "args \<Rightarrow> jdict option res" where
  "system_effects_config x =
     (let missing = map fst (filter (\<lambda>(n, v). v = None) (se_required x)) in
      if list_all (\<lambda>(n, v). v = None) (se_required x) then
        (if se_optional_given x
         then Inl (WorkspaceError ''system-effects scope/verifier options require the complete observer configuration'')
         else Inr None)
      else if missing \<noteq> [] then
        Inl (WorkspaceError (''incomplete system-effects configuration; missing '' @ join_comma (sort missing)))
      else
        bindR (case se_verifier x of Some v \<Rightarrow> Inr v | None \<Rightarrow> with_name (the (se_observer x)) ''deployment-observe-verify'') (\<lambda>verifier.
        bindR (checkR (se_recovery_helper x = None \<longleftrightarrow> se_recovery_helper_sha256 x = None)
          (WorkspaceError ''system-effects recovery helper path and SHA-256 must be configured together'')) (\<lambda>_.
        bindR (checkR (\<not> (se_recovery_verifier x \<noteq> None \<and> se_recovery_helper x = None))
          (WorkspaceError ''system-effects recovery verifier requires a recovery helper'')) (\<lambda>_.
        bindR (if se_recovery_helper x = None then Inr None
               else (case se_recovery_verifier x of Some v \<Rightarrow> Inr (Some v)
                     | None \<Rightarrow> bindR (with_name (the (se_observer x)) ''deployment-observe-recovery-verify'') (\<lambda>v. Inr (Some v)))) (\<lambda>rv.
        Inr (Some (map (\<lambda>(n, v). (n, JStr (the v))) (se_required x) @
          [(''verifier_path'', JStr verifier),
           (''recovery_verifier_path'', dict_of_opt rv),
           (''recovery_helper_path'', dict_of_opt (se_recovery_helper x)),
           (''recovery_helper_sha256'', dict_of_opt (se_recovery_helper_sha256 x)),
           (''recovery_timeout_ms'', JInt (or_default (se_recovery_timeout_ms x) 120000)),
           (''recovery_max_output_bytes'', JInt (or_default (se_recovery_max_output_bytes x) 65536)),
           (''profile'', JStr (str_or_default (se_profile x) ''balanced'')),
           (''object_resolution_mode'', JStr (str_or_default (se_object_resolution x) ''KERNEL_OBJECT_EXPANDED_PARTIAL'')),
           (''bpf_state_scope_file'', dict_of_opt (se_bpf_scope x)),
           (''filesystem_state_scope_file'', dict_of_opt (se_filesystem_scope x)),
           (''linux_state_scope_file'', dict_of_opt (se_linux_scope x)),
           (''poll_interval_ms'', JInt (or_default (se_poll_interval_ms x) 20)),
           (''drain_timeout_ms'', JInt (or_default (se_drain_timeout_ms x) 5000)),
           (''ready_timeout'', JFloat (Finite (or_default (se_ready_timeout x) 30))),
           (''finalize_timeout'', JFloat (Finite (or_default (se_finalize_timeout x) 60))),
           (''host_lock_path'', JStr (or_default (se_host_lock x) ''/run/allox-system-effects.lock''))])))))))"

section \<open>Starting a server\<close>

text \<open>\<open>listen.rsplit(":", 1)\<close>; without a colon the unpacking raises.\<close>

definition split_listen :: "string \<Rightarrow> (string \<times> string) res" where
  "split_listen t =
     (if CHR '':'' \<in> set t
      then Inr (rev (tl (dropWhile (\<lambda>c. c \<noteq> CHR '':'') (rev t))), rev (takeWhile (\<lambda>c. c \<noteq> CHR '':'') (rev t)))
      else Inl (ValueError ''not enough values to unpack (expected 2, got 1)''))"

text \<open>
  The checks of \<open>main\<close> before the store is opened; \<open>env\<close> is the value of
  \<^verbatim>\<open>ALLOX_WORKSPACE_TOKEN\<close>.
\<close>

definition admit :: "args \<Rightarrow> string option \<Rightarrow> (string \<times> string \<times> string \<times> jdict option) res" where
  "admit x env =
     bindR (split_listen (a_listen x)) (\<lambda>(host, port).
     let envt = or_default env []; token = (if a_token x \<noteq> [] then a_token x else envt) in
     bindR (checkR (host \<in> {''127.0.0.1'', ''::1'', ''localhost''} \<or> token \<noteq> [])
       (SystemExit ''a bearer token is required when listening beyond loopback'')) (\<lambda>_.
     bindR (case system_effects_config x of Inl (WorkspaceError m) \<Rightarrow> Inl (SystemExit m) | r \<Rightarrow> r) (\<lambda>se.
     bindR (checkR (\<not> (a_share_tools x \<and> token = []))
       (SystemExit ''--share-tools requires ALLOX_WORKSPACE_TOKEN for the management API'')) (\<lambda>_.
     bindR (checkR (\<not> (a_monitor_root x \<noteq> None \<and> token = []))
       (SystemExit ''--monitor-root requires ALLOX_WORKSPACE_TOKEN for the management API'')) (\<lambda>_.
     bindR (checkR (\<not> (se \<noteq> None \<and> token = []))
       (SystemExit ''--system-effects-observer requires ALLOX_WORKSPACE_TOKEN for the management API'')) (\<lambda>_.
     Inr (host, port, token, se)))))))"

definition options_of :: "args \<Rightarrow> jdict option \<Rightarrow> options" where
  "options_of x se = \<lparr>
     o_process_tracking = a_process_tracking x, o_audit_root = a_process_audit_root x,
     o_kill = JBool (a_kill x), o_share_tools = a_share_tools x, o_share_socket_root = a_share_socket_root x,
     o_session_network = a_session_network x, o_network_root = a_network_root x,
     o_network_socket_root = a_network_socket_root x, o_monitor_root = a_monitor_root x,
     o_monitor_socket_root = a_monitor_socket_root x, o_system_effects = map_option JObj se\<rparr>"

text \<open>
  \<open>main\<close> up to \<open>serve_forever\<close>: the server with the host and port it binds. The world already holds
  the store opened at \<open>a_root\<close>.
\<close>

definition main_start ::
  "(string \<Rightarrow> string \<Rightarrow> ('x, 'x process_service) dop) \<Rightarrow> (string \<times> 'x daemon factory) list \<Rightarrow> args \<Rightarrow> string option
   \<Rightarrow> ('x, string \<times> int \<times> 'x server) dop" where
  "main_start make_processes points x env =
     bind (lift_res (admit x env)) (\<lambda>(host, port, token, se).
     andthen (on_store initialize)
     (bind (service_init make_processes [] points (options_of x se)) (\<lambda>svc.
      bind (lift_res (py_int (JStr port))) (\<lambda>p.
      bind (lift_res (server_init svc token)) (\<lambda>srv.
      ret (host, p, srv))))))"

section \<open>Properties\<close>

lemma admit_Inr:
  assumes "admit x env = Inr (host, port, token, se)"
  shows "(host \<in> {''127.0.0.1'', ''::1'', ''localhost''} \<or> token \<noteq> []) \<and> \<not> (a_share_tools x \<and> token = []) \<and>
    \<not> (a_monitor_root x \<noteq> None \<and> token = []) \<and> \<not> (se \<noteq> None \<and> token = [])"
  using assms by (auto simp: admit_def Let_def bindR_eq_Inr split: prod.splits)

lemma main_start_Inr:
  assumes "main_start mp points x env w = (Inr (host, p, srv), w')"
  shows "\<exists>port se w1 w2. admit x env = Inr (host, port, srv_token srv, se) \<and>
     service_init mp [] points (options_of x se) w1 = (Inr (srv_service srv), w2)"
  using assms by (auto simp: main_start_def server_init_def io_defs split: prod.splits sum.splits if_splits) blast+

text \<open>
  C22. What a daemon without a token may be: when \<open>main\<close> gets as far as serving, the server listens on
  a loopback address or requires a nonempty token, and without a token none of the plugins that act
  for other Sessions or record them (session sharing, agent monitor, system effects) is active.
\<close>

theorem serving_needs_token:
  assumes "main_start mp points x env w = (Inr (host, p, srv), w')"
  shows "(host \<in> {''127.0.0.1'', ''::1'', ''localhost''} \<or> srv_token srv \<noteq> []) \<and>
    (srv_token srv = [] \<longrightarrow> set (feature_names (srv_service srv)) \<subseteq> {''session-network''})"
proof -
  obtain port se w1 w2 where adm: "admit x env = Inr (host, port, srv_token srv, se)"
    and svc: "service_init mp [] points (options_of x se) w1 = (Inr (srv_service srv), w2)"
    using main_start_Inr [OF assms] by blast
  obtain specs where specs: "feature_specs (options_of x se) = Inr specs" "feature_names (srv_service srv) = map fst specs"
    using service_init_names [OF svc] by blast
  define names where "names = set (map fst specs)"
  have "names \<subseteq> {''agent-monitor'', ''session-share'', ''session-network'', ''system-effects''}"
    and "''agent-monitor'' \<in> names \<longleftrightarrow> a_monitor_root x \<noteq> None" and "''session-share'' \<in> names \<longleftrightarrow> a_share_tools x"
    and "''system-effects'' \<in> names \<longleftrightarrow> se \<noteq> None"
    using feature_specs_names [OF specs(1)] by (simp_all add: names_def options_of_def)
  then show ?thesis
    using admit_Inr [OF adm] unfolding specs(2) names_def [symmetric] by blast
qed

text \<open>The default options: no process service and no plugin, on an empty store.\<close>

definition fresh_store :: store where
  "fresh_store = \<lparr>root = ''/srv/allox'', root_fstype = Some ''btrfs'', agent_ls = [], agent_shared_dir = (\<lambda>_. False),
     sess_ls = (\<lambda>_. None), sessions = Map.empty, index_files = Map.empty, txn_files = Map.empty,
     receipt_files = Map.empty, event_logs = (\<lambda>_. []), lock_files = {}, outside = Map.empty, clock = 0, schedule = []\<rparr>"

definition no_processes :: "string \<Rightarrow> string \<Rightarrow> (unit, unit process_service) dop" where
  "no_processes audit provider = raise AssertionError"

lemma default_start:
  "(case main_start no_processes [] (default_args ''/srv/allox'') None \<lparr>d_store = fresh_store, d_reg = empty_registry, d_ext = ()\<rparr> of
     (Inr (h, p, srv), w) \<Rightarrow> h = ''127.0.0.1'' \<and> p = 8092 \<and> srv_token srv = [] | _ \<Rightarrow> False)"
  by code_simp

theorem serving_needs_token_witness:
  "\<exists>h p srv w. main_start no_processes [] (default_args ''/srv/allox'') None
       \<lparr>d_store = fresh_store, d_reg = empty_registry, d_ext = ()\<rparr> = (Inr (h, p, srv), w) \<and>
     set (feature_names (srv_service srv)) \<subseteq> {''session-network''}"
proof -
  obtain h p srv w where run: "main_start no_processes [] (default_args ''/srv/allox'') None
      \<lparr>d_store = fresh_store, d_reg = empty_registry, d_ext = ()\<rparr> = (Inr (h, p, srv), w)" and "srv_token srv = []"
    using default_start by (auto split: prod.splits sum.splits)
  with serving_needs_token [OF run] show ?thesis by blast
qed

lemma dict_of_opt_inject [simp]: "dict_of_opt u = dict_of_opt v \<longleftrightarrow> u = v"
  by (simp add: dict_of_opt_def split: option.splits)

lemma dict_of_opt_JNull [simp]: "dict_of_opt u = JNull \<longleftrightarrow> u = None"
  by (simp add: dict_of_opt_def split: option.splits)

lemma system_effects_Some:
  assumes "system_effects_config x = Inr (Some c)"
  shows "\<exists>o1 o2 o3 o4 o5 v rv rest.
    se_observer x = Some o1 \<and> se_recorder_object x = Some o2 \<and> se_recorder_sha256 x = Some o3 \<and>
    se_lifecycle_object x = Some o4 \<and> se_lifecycle_sha256 x = Some o5 \<and>
    (se_recovery_helper x = None \<longleftrightarrow> se_recovery_helper_sha256 x = None) \<and> (rv = None \<longleftrightarrow> se_recovery_helper x = None) \<and>
    c = [(''observer_path'', JStr o1), (''recorder_object_path'', JStr o2), (''recorder_object_sha256'', JStr o3),
      (''lifecycle_object_path'', JStr o4), (''lifecycle_object_sha256'', JStr o5), (''verifier_path'', JStr v),
      (''recovery_verifier_path'', dict_of_opt rv), (''recovery_helper_path'', dict_of_opt (se_recovery_helper x)),
      (''recovery_helper_sha256'', dict_of_opt (se_recovery_helper_sha256 x))] @ rest \<and>
    dict_keys rest = [''recovery_timeout_ms'', ''recovery_max_output_bytes'', ''profile'', ''object_resolution_mode'',
      ''bpf_state_scope_file'', ''filesystem_state_scope_file'', ''linux_state_scope_file'', ''poll_interval_ms'',
      ''drain_timeout_ms'', ''ready_timeout'', ''finalize_timeout'', ''host_lock_path'']"
proof -
  have "\<exists>o1 o2 o3 o4 o5. se_observer x = Some o1 \<and> se_recorder_object x = Some o2 \<and> se_recorder_sha256 x = Some o3 \<and>
    se_lifecycle_object x = Some o4 \<and> se_lifecycle_sha256 x = Some o5"
    using assms by (auto simp: system_effects_config_def se_required_def Let_def split: if_splits)
  then obtain o1 o2 o3 o4 o5 where given: "se_observer x = Some o1" "se_recorder_object x = Some o2"
    "se_recorder_sha256 x = Some o3" "se_lifecycle_object x = Some o4" "se_lifecycle_sha256 x = Some o5"
    by blast
  then show ?thesis
    using assms by (auto simp: system_effects_config_def se_required_def Let_def bindR_eq_Inr split: if_splits option.splits)
qed

text \<open>
  The system-effects options are all or nothing: no configuration results only when none of the
  options is given; a configuration results only when all five mandatory options are given, carries
  each of them under its key, has a recovery helper exactly when it has the helper's hash, and a
  recovery verifier exactly when it has a helper.
\<close>

theorem system_effects_all_or_nothing:
  "(case system_effects_config x of
      Inl e \<Rightarrow> True
    | Inr None \<Rightarrow> se_observer x = None \<and> se_recorder_object x = None \<and> se_recorder_sha256 x = None \<and>
        se_lifecycle_object x = None \<and> se_lifecycle_sha256 x = None \<and> se_optional_given x = False
    | Inr (Some c) \<Rightarrow> map_of c ''observer_path'' = map_option JStr (se_observer x) \<and>
        map_of c ''recorder_object_path'' = map_option JStr (se_recorder_object x) \<and>
        map_of c ''recorder_object_sha256'' = map_option JStr (se_recorder_sha256 x) \<and>
        map_of c ''lifecycle_object_path'' = map_option JStr (se_lifecycle_object x) \<and>
        map_of c ''lifecycle_object_sha256'' = map_option JStr (se_lifecycle_sha256 x) \<and>
        (jget c ''recovery_helper_path'' = JNull \<longleftrightarrow> jget c ''recovery_helper_sha256'' = JNull) \<and>
        (jget c ''recovery_verifier_path'' = JNull \<longleftrightarrow> jget c ''recovery_helper_path'' = JNull))"
proof (cases "system_effects_config x")
  case (Inr r)
  show ?thesis
  proof (cases r)
    case None
    then show ?thesis
      using Inr by (auto simp: system_effects_config_def se_required_def bindR_eq_Inr Let_def split: if_splits)
  next
    case (Some c)
    then show ?thesis
      using system_effects_Some [OF Inr [unfolded Some]] Inr by (elim exE conjE) (simp add: dict_get_def)
  qed
qed simp

end
