(* ===== verification/Sandboxing.thy ===== *)
theory Sandboxing
  imports Feature_Manager
begin

text \<open>
  \<^verbatim>\<open>src/src/allox/runtime/sandboxing.py\<close>: the Bubblewrap command line of one Session
  execution. After the construction, the theory writes a command line as a list of options with their
  operands, shows that it can be written in one way only, and says which mounts, flags and places the
  options are and which variables and which command follow them.
\<close>

section \<open>Construction\<close>

definition text_lines :: "string list \<Rightarrow> string" where
  "text_lines ls = concat (map (\<lambda>l. l @ [CHR 0x0A]) ls)"

definition TMP_SYNC_WRAPPER :: string where
  "TMP_SYNC_WRAPPER = text_lines
    [''set -eu'',
     ''barrier_enabled=$1'',
     ''shift'',
     ''cp -a /workspace/.allox-tmp/. /tmp/'',
     ''if [ \"$barrier_enabled\" = 1 ]; then'',
     ''    kill -STOP \"$$\"'',
     ''elif [ \"$barrier_enabled\" != 0 ]; then'',
     ''    exit 125'',
     ''fi'',
     ''status=0'',
     ''/usr/bin/env -i -- \"$@\" || status=$?'',
     ''find /tmp -xdev '' @ [CHR 0x5C] @ ''( -type s -o -type p -o -type b -o -type c '' @ [CHR 0x5C] @ '') -delete'',
     ''rm -rf /workspace/.allox-tmp.new'',
     ''install -d -m 700 /workspace/.allox-tmp.new'',
     ''cp -a /tmp/. /workspace/.allox-tmp.new/'',
     ''rm -rf /workspace/.allox-tmp'',
     ''mv /workspace/.allox-tmp.new /workspace/.allox-tmp'',
     ''exit \"$status\"'']"

text \<open>\<open>str(PurePosixPath(p).parent)\<close>.\<close>

definition posix_str :: "string \<Rightarrow> string list \<Rightarrow> string" where
  "posix_str r parts =
     (if r = [] \<and> parts = [] then ''.''
      else r @ (case parts of [] \<Rightarrow> [] | p # ps \<Rightarrow> p @ concat (map (\<lambda>q. CHR ''/'' # q) ps)))"

definition posix_parent :: "string \<Rightarrow> string" where
  "posix_parent p = posix_str (posix_root p) (butlast (posix_parts p))"

definition bad_binding :: "string \<times> string \<Rightarrow> bool" where
  "bad_binding kv = (case kv of (key, val) \<Rightarrow> key = [] \<or> CHR ''='' \<in> set key \<or> CHR 0x00 \<in> set (key @ val))"

definition bwrap_base :: "string \<Rightarrow> string \<Rightarrow> string list" where
  "bwrap_base workspace_path agent_shared_path =
    [''bwrap'', ''--die-with-parent'', ''--new-session'', ''--unshare-pid'',
     ''--tmpfs'', ''/'',
     ''--ro-bind'', ''/usr'', ''/usr'',
     ''--symlink'', ''usr/bin'', ''/bin'',
     ''--symlink'', ''usr/sbin'', ''/sbin'',
     ''--symlink'', ''usr/lib'', ''/lib'',
     ''--symlink'', ''usr/lib64'', ''/lib64'',
     ''--ro-bind'', ''/etc'', ''/etc'',
     ''--dev'', ''/dev'',
     ''--proc'', ''/proc'',
     ''--bind'', workspace_path, ''/workspace'',
     ''--dir'', ''/agent'',
     ''--bind'', agent_shared_path, ''/agent/shared'',
     ''--tmpfs'', ''/tmp'',
     ''--cap-drop'', ''ALL'',
     ''--clearenv'',
     ''--setenv'', ''PATH'', ''/usr/bin:/bin'',
     ''--setenv'', ''HOME'', ''/'',
     ''--setenv'', ''TMPDIR'', ''/tmp'']"

definition agent_environment :: "string \<Rightarrow> string \<Rightarrow> (string, string) dict \<Rightarrow> string option \<Rightarrow> (string, string) dict" where
  "agent_environment agent_id session_id environment run_id =
     (let e = dict_merge (dict_merge [(''PATH'', ''/usr/local/bin:/usr/bin:/bin'')] (dict_merge [] environment))
        [(''HOME'', ''/workspace''), (''TMPDIR'', ''/tmp''), (''ALLOX_AGENT_ID'', agent_id),
         (''ALLOX_AGENT_WORKSPACE'', ''/agent''), (''ALLOX_AGENT_SHARED'', ''/agent/shared''),
         (''ALLOX_SESSION_ID'', session_id)]
      in case run_id of None \<Rightarrow> e | Some r \<Rightarrow> dict_set ''ALLOX_RUN_ID'' r e)"

fun mount_args :: "string list \<Rightarrow> sandbox_mount list \<Rightarrow> string list" where
  "mount_args created [] = []"
| "mount_args created (m # ms) =
     (let parent = posix_parent (m_target m);
          new = (parent \<noteq> ''/'' \<and> parent \<notin> set created)
      in (if new then [''--dir'', parent] else [])
         @ [if m_read_only m then ''--ro-bind'' else ''--bind'', m_source m, m_target m]
         @ mount_args (if new then parent # created else created) ms)"

definition assignment :: "string \<times> string \<Rightarrow> string" where
  "assignment kv = fst kv @ CHR ''='' # snd kv"

definition build_bwrap_argv ::
  "string \<Rightarrow> string \<Rightarrow> string \<Rightarrow> string \<Rightarrow> string list \<Rightarrow> (string, string) dict \<Rightarrow> sandbox_mount list \<Rightarrow> json
   \<Rightarrow> string option \<Rightarrow> string list res" where
  "build_bwrap_argv workspace_path agent_shared_path agent_id session_id command environment mounts launch_barrier run_id =
     bindR (validate_id ''agent'' agent_id) (\<lambda>_.
     bindR (validate_id ''session'' session_id) (\<lambda>_.
     bindR (checkR (command \<noteq> []) (WorkspaceError ''workspace run requires a command after --'')) (\<lambda>_.
     bindR (checkR (CHR ''='' \<notin> set (hd command))
              (WorkspaceError (''sandbox executable name cannot contain '' @ [CHR 0x27] @ ''='' @ [CHR 0x27]))) (\<lambda>_.
     bindR (case run_id of None \<Rightarrow> Inr [] | Some r \<Rightarrow> validate_id ''run'' r) (\<lambda>_.
     bindR (checkR (\<not> list_ex bad_binding environment) (WorkspaceError ''invalid sandbox environment'')) (\<lambda>_.
     bindR (case launch_barrier of JBool b \<Rightarrow> Inr b | _ \<Rightarrow> Inl (WorkspaceError ''invalid trusted launch barrier'')) (\<lambda>barrier.
     Inr (bwrap_base workspace_path agent_shared_path
          @ mount_args [] mounts
          @ [''--chdir'', ''/workspace'', ''/bin/sh'', ''-c'', TMP_SYNC_WRAPPER, ''allox-runtime'',
             if barrier then ''1'' else ''0'']
          @ map assignment (agent_environment agent_id session_id environment run_id)
          @ command))))))))"

section \<open>The command line as a list of options\<close>

text \<open>
  A command line of \<^verbatim>\<open>bwrap\<close> is a list of options, each with its operands, and then the program with
  its arguments. The options by the number of their operands:
\<close>

datatype bwrap_op =
    B_flag string
  | B_place string string
  | B_bind string string string
  | B_setenv string string

fun option_args :: "bwrap_op \<Rightarrow> string list" where
  "option_args (B_flag f) = [f]"
| "option_args (B_place k p) = [k, p]"
| "option_args (B_bind k src tgt) = [k, src, tgt]"
| "option_args (B_setenv x v) = [''--setenv'', x, v]"

fun known_option :: "bwrap_op \<Rightarrow> bool" where
  "known_option (B_flag f) = (f \<in> {''--die-with-parent'', ''--new-session'', ''--unshare-pid'', ''--clearenv''})"
| "known_option (B_place k p) = (k \<in> {''--tmpfs'', ''--dev'', ''--proc'', ''--dir'', ''--cap-drop'', ''--chdir''})"
| "known_option (B_bind k src tgt) = (k \<in> {''--bind'', ''--ro-bind'', ''--symlink''})"
| "known_option (B_setenv x v) = True"

definition option_line :: "bwrap_op list \<Rightarrow> string list" where
  "option_line ops = concat (map option_args ops)"

text \<open>The bind mounts in their order, the flags, the other places but for created directories, and the variables set.\<close>

fun binds_of :: "bwrap_op list \<Rightarrow> (string \<times> string \<times> string) list" where
  "binds_of [] = []"
| "binds_of (B_bind k src tgt # ops) = (k, src, tgt) # binds_of ops"
| "binds_of (op # ops) = binds_of ops"

fun flags_of :: "bwrap_op list \<Rightarrow> string list" where
  "flags_of [] = []"
| "flags_of (B_flag f # ops) = f # flags_of ops"
| "flags_of (op # ops) = flags_of ops"

fun places_of :: "bwrap_op list \<Rightarrow> (string \<times> string) list" where
  "places_of [] = []"
| "places_of (B_place k p # ops) = (if k = ''--dir'' then places_of ops else (k, p) # places_of ops)"
| "places_of (op # ops) = places_of ops"

fun settings_of :: "bwrap_op list \<Rightarrow> (string \<times> string) list" where
  "settings_of [] = []"
| "settings_of (B_setenv x v # ops) = (x, v) # settings_of ops"
| "settings_of (op # ops) = settings_of ops"

text \<open>Every bind mount finds the directory of its target: it is the root or was created before.\<close>

fun parents_made :: "string set \<Rightarrow> bwrap_op list \<Rightarrow> bool" where
  "parents_made made [] = True"
| "parents_made made (B_place k p # ops) = parents_made (if k = ''--dir'' then insert p made else made) ops"
| "parents_made made (B_bind k src tgt # ops) = ((posix_parent tgt = ''/'' \<or> posix_parent tgt \<in> made) \<and> parents_made made ops)"
| "parents_made made (op # ops) = parents_made made ops"

lemma parents_made_mono: "parents_made made ops \<Longrightarrow> made \<subseteq> made' \<Longrightarrow> parents_made made' ops"
proof (induction ops arbitrary: made made')
  case (Cons op ops)
  show ?case
  proof (cases op)
    case (B_place k p)
    have "(if k = ''--dir'' then insert p made else made) \<subseteq> (if k = ''--dir'' then insert p made' else made')" using Cons.prems(2) by auto
    then show ?thesis using Cons.IH Cons.prems(1) by (auto simp: B_place simp del: if_split)
  qed (use Cons in auto)
qed simp

lemma views_append:
  "binds_of (xs @ ys) = binds_of xs @ binds_of ys" "flags_of (xs @ ys) = flags_of xs @ flags_of ys"
  "places_of (xs @ ys) = places_of xs @ places_of ys" "settings_of (xs @ ys) = settings_of xs @ settings_of ys"
  by (induction xs rule: binds_of.induct) simp_all

text \<open>A command line is read in one way only, whatever the operands contain.\<close>

lemma option_args_start: "known_option op \<Longrightarrow> \<exists>x xs. option_args op = x # xs \<and> startswith x ''--''"
  by (cases op) (auto simp: startswith_def)

lemma option_args_unique:
  "known_option op \<Longrightarrow> known_option op' \<Longrightarrow> option_args op @ xs = option_args op' @ ys \<Longrightarrow> op = op' \<and> xs = ys"
  by (cases op; cases op') auto

definition program_start :: "string list \<Rightarrow> bool" where
  "program_start prog = (prog \<noteq> [] \<and> \<not> startswith (hd prog) ''--'')"

lemma option_line_unique:
  assumes "list_all known_option ops" and "list_all known_option ops'" and "program_start prog" and "program_start prog'"
    and "option_line ops @ prog = option_line ops' @ prog'"
  shows "ops = ops' \<and> prog = prog'"
  using assms
proof (induction ops arbitrary: ops')
  case Nil
  show ?case
  proof (cases ops')
    case (Cons op' ops'')
    then show ?thesis using Nil.prems option_args_start [of op'] by (auto simp: option_line_def program_start_def)
  qed (use Nil in \<open>simp add: option_line_def\<close>)
next
  case (Cons op ops)
  show ?case
  proof (cases ops')
    case Nil
    then show ?thesis using Cons.prems option_args_start [of op] by (auto simp: option_line_def program_start_def)
  next
    case (Cons op' ops'')
    then have "op = op' \<and> option_line ops @ prog = option_line ops'' @ prog'"
      using Cons.prems option_args_unique [of op op'] by (simp add: option_line_def)
    then show ?thesis using Cons.IH [of ops''] Cons.prems Cons by simp
  qed
qed

text \<open>So are the assignments before the command of \<^verbatim>\<open>env\<close>, whose name has no \<open>=\<close>.\<close>

definition plain_names :: "(string \<times> string) list \<Rightarrow> bool" where
  "plain_names vars = (\<forall>kv \<in> set vars. CHR ''='' \<notin> set (fst kv))"

definition command_start :: "string list \<Rightarrow> bool" where
  "command_start cmd = (cmd \<noteq> [] \<and> CHR ''='' \<notin> set (hd cmd))"

lemma assignment_inj:
  assumes "assignment kv = assignment kv'" and "CHR ''='' \<notin> set (fst kv)" and "CHR ''='' \<notin> set (fst kv')"
  shows "kv = kv'"
proof -
  have name: "takeWhile (\<lambda>c. c \<noteq> CHR ''='') (assignment kv) = fst kv" if "CHR ''='' \<notin> set (fst kv)" for kv
    using that by (auto simp: assignment_def takeWhile_append)
  have val: "tl (dropWhile (\<lambda>c. c \<noteq> CHR ''='') (assignment kv)) = snd kv" if "CHR ''='' \<notin> set (fst kv)" for kv
    using that by (auto simp: assignment_def dropWhile_append)
  show ?thesis using assms name val by (metis prod_eq_iff)
qed

lemma assignment_has_eq: "CHR ''='' \<in> set (assignment kv)"
  by (simp add: assignment_def)

lemma assignments_unique:
  assumes "plain_names vars" and "plain_names vars'" and "command_start cmd" and "command_start cmd'"
    and "map assignment vars @ cmd = map assignment vars' @ cmd'"
  shows "vars = vars' \<and> cmd = cmd'"
  using assms
proof (induction vars arbitrary: vars')
  case Nil
  then show ?case using assignment_has_eq by (cases vars') (auto simp: command_start_def)
next
  case (Cons kv vars)
  show ?case
  proof (cases vars')
    case Nil
    then show ?thesis using Cons.prems assignment_has_eq [of kv] by (auto simp: command_start_def)
  next
    case (Cons kv' vars'')
    then have "kv = kv'" using Cons.prems by (auto simp: plain_names_def intro: assignment_inj)
    then show ?thesis using Cons.IH [of vars''] Cons.prems Cons by (simp add: plain_names_def)
  qed
qed

section \<open>The options of a sandbox\<close>

definition base_ops :: "string \<Rightarrow> string \<Rightarrow> bwrap_op list" where
  "base_ops w sh =
    [B_flag ''--die-with-parent'', B_flag ''--new-session'', B_flag ''--unshare-pid'', B_place ''--tmpfs'' ''/'',
     B_bind ''--ro-bind'' ''/usr'' ''/usr'', B_bind ''--symlink'' ''usr/bin'' ''/bin'',
     B_bind ''--symlink'' ''usr/sbin'' ''/sbin'', B_bind ''--symlink'' ''usr/lib'' ''/lib'',
     B_bind ''--symlink'' ''usr/lib64'' ''/lib64'', B_bind ''--ro-bind'' ''/etc'' ''/etc'',
     B_place ''--dev'' ''/dev'', B_place ''--proc'' ''/proc'', B_bind ''--bind'' w ''/workspace'',
     B_place ''--dir'' ''/agent'', B_bind ''--bind'' sh ''/agent/shared'', B_place ''--tmpfs'' ''/tmp'',
     B_place ''--cap-drop'' ''ALL'', B_flag ''--clearenv'', B_setenv ''PATH'' ''/usr/bin:/bin'',
     B_setenv ''HOME'' ''/'', B_setenv ''TMPDIR'' ''/tmp'']"

lemma base_line: "bwrap_base w sh = ''bwrap'' # option_line (base_ops w sh)"
  by (simp add: bwrap_base_def base_ops_def option_line_def)

lemma base_known: "list_all known_option (base_ops w sh)"
  by (simp add: base_ops_def)

definition mount_bind :: "sandbox_mount \<Rightarrow> string \<times> string \<times> string" where
  "mount_bind m = (if m_read_only m then ''--ro-bind'' else ''--bind'', m_source m, m_target m)"

fun mount_ops :: "string list \<Rightarrow> sandbox_mount list \<Rightarrow> bwrap_op list" where
  "mount_ops created [] = []"
| "mount_ops created (m # ms) =
     (let p = posix_parent (m_target m); fresh = (p \<noteq> ''/'' \<and> p \<notin> set created)
      in (if fresh then [B_place ''--dir'' p] else []) @
         B_bind (if m_read_only m then ''--ro-bind'' else ''--bind'') (m_source m) (m_target m) #
         mount_ops (if fresh then p # created else created) ms)"

lemma mount_line: "mount_args created ms = option_line (mount_ops created ms)"
  by (induction created ms rule: mount_args.induct) (simp_all add: option_line_def Let_def)

lemma mount_views:
  "list_all known_option (mount_ops created ms)" "binds_of (mount_ops created ms) = map mount_bind ms" "flags_of (mount_ops created ms) = []"
  "places_of (mount_ops created ms) = []" "settings_of (mount_ops created ms) = []"
  by (induction ms arbitrary: created) (simp_all add: mount_bind_def Let_def)

lemma mount_parents: "set created \<subseteq> made \<Longrightarrow> parents_made made (mount_ops created ms)"
proof (induction ms arbitrary: created made)
  case (Cons m ms)
  let ?p = "posix_parent (m_target m)"
  have "set (?p # created) \<subseteq> insert ?p made" using Cons.prems by auto
  then show ?case using Cons.IH [of "?p # created" "insert ?p made"] Cons.IH [of created made] Cons.prems by (auto simp: Let_def)
qed simp

lemma base_parents: "parents_made {} (base_ops w sh @ ops) = parents_made {''/agent''} ops"
proof -
  have "posix_parent ''/usr'' = ''/''" "posix_parent ''/bin'' = ''/''" "posix_parent ''/sbin'' = ''/''" "posix_parent ''/lib'' = ''/''"
    "posix_parent ''/lib64'' = ''/''" "posix_parent ''/etc'' = ''/''" "posix_parent ''/workspace'' = ''/''" "posix_parent ''/agent/shared'' = ''/agent''"
    by code_simp+
  then show ?thesis by (simp add: base_ops_def)
qed

lemma parents_append: "parents_made made (xs @ [B_place k p]) = parents_made made xs"
  by (induction made xs rule: parents_made.induct) simp_all

lemma dict_merge_keys: "fst ` set (dict_merge d e) = fst ` set d \<union> fst ` set e"
  by (induction d e rule: dict_merge.induct) auto

lemma distinct_dict_merge: "distinct (dict_keys d) \<Longrightarrow> distinct (dict_keys (dict_merge d e))"
  by (induction d e rule: dict_merge.induct) auto

lemma agent_environment_keys:
  assumes "\<not> list_ex bad_binding environment" and "kv \<in> set (agent_environment a s environment r)"
  shows "CHR ''='' \<notin> set (fst kv)"
proof -
  have "fst kv \<in> fst ` set (agent_environment a s environment r)" using assms(2) by blast
  then show ?thesis
    using assms(1) unfolding agent_environment_def Let_def
    by (auto simp: dict_merge_keys bad_binding_def list_ex_iff split: option.splits)
qed

text \<open>The bindings the caller's environment cannot change.\<close>

definition fixed_bindings :: "string \<Rightarrow> string \<Rightarrow> string option \<Rightarrow> string \<rightharpoonup> string" where
  "fixed_bindings a s r =
     [''HOME'' \<mapsto> ''/workspace'', ''TMPDIR'' \<mapsto> ''/tmp'', ''ALLOX_AGENT_ID'' \<mapsto> a,
      ''ALLOX_AGENT_WORKSPACE'' \<mapsto> ''/agent'', ''ALLOX_AGENT_SHARED'' \<mapsto> ''/agent/shared'', ''ALLOX_SESSION_ID'' \<mapsto> s]
     ++ (case r of None \<Rightarrow> Map.empty | Some x \<Rightarrow> [''ALLOX_RUN_ID'' \<mapsto> x])"

lemma map_of_merge: "map_of (dict_merge d e) = map_of d ++ map_of (rev e)"
  by (rule ext) (simp add: map_of_dict_merge map_add_def)

lemma map_of_rev_dict_merge_Nil: "map_of (rev (dict_merge [] e)) = map_of (rev e)"
proof -
  have "map_of (rev (dict_merge [] e)) = map_of (dict_merge [] e)"
    by (rule map_of_inject_set [THEN iffD2]) (auto simp: distinct_dict_merge rev_map [symmetric])
  then show ?thesis by (simp add: map_of_merge)
qed

lemma agent_environment_lookup:
  "map_of (agent_environment a s e r) =
     [''PATH'' \<mapsto> ''/usr/local/bin:/usr/bin:/bin''] ++ map_of (rev e) ++ fixed_bindings a s r"
  by (cases r) (simp_all add: agent_environment_def Let_def map_of_merge map_of_rev_dict_merge_Nil fixed_bindings_def)

lemma build_bwrap_argv_Inr:
  "build_bwrap_argv w sh a s cmd env ms lb r = Inr argv \<longleftrightarrow>
     ID_RE_fullmatch a \<and> ID_RE_fullmatch s \<and> cmd \<noteq> [] \<and> CHR ''='' \<notin> set (hd cmd) \<and>
     (\<forall>x. r = Some x \<longrightarrow> ID_RE_fullmatch x) \<and> \<not> list_ex bad_binding env \<and>
     (\<exists>b. lb = JBool b \<and>
        argv = bwrap_base w sh @ mount_args [] ms
          @ [''--chdir'', ''/workspace'', ''/bin/sh'', ''-c'', TMP_SYNC_WRAPPER, ''allox-runtime'', if b then ''1'' else ''0'']
          @ map assignment (agent_environment a s env r) @ cmd)"
  unfolding build_bwrap_argv_def
  by (auto simp: bindR_eq_Inr split: option.splits json.splits)

definition wrapper_start :: "bool \<Rightarrow> string list" where
  "wrapper_start b = [''/bin/sh'', ''-c'', TMP_SYNC_WRAPPER, ''allox-runtime'', if b then ''1'' else ''0'']"

definition sandbox_ops :: "string \<Rightarrow> string \<Rightarrow> sandbox_mount list \<Rightarrow> bwrap_op list" where
  "sandbox_ops w sh ms = base_ops w sh @ mount_ops [] ms @ [B_place ''--chdir'' ''/workspace'']"

lemma sandbox_ops_known: "list_all known_option (sandbox_ops w sh ms)"
  by (simp add: sandbox_ops_def base_known mount_views)

lemma sandbox_line:
  "bwrap_base w sh @ mount_args [] ms @ [''--chdir'', ''/workspace'', ''/bin/sh'', ''-c'', TMP_SYNC_WRAPPER, ''allox-runtime'', if b then ''1'' else ''0''] @ rest
    = ''bwrap'' # option_line (sandbox_ops w sh ms) @ wrapper_start b @ rest"
  by (simp add: base_line mount_line sandbox_ops_def option_line_def wrapper_start_def)

lemma sandbox_views:
  "binds_of (sandbox_ops w sh ms) =
     [(''--ro-bind'', ''/usr'', ''/usr''), (''--symlink'', ''usr/bin'', ''/bin''), (''--symlink'', ''usr/sbin'', ''/sbin''), (''--symlink'', ''usr/lib'', ''/lib''),
      (''--symlink'', ''usr/lib64'', ''/lib64''), (''--ro-bind'', ''/etc'', ''/etc''), (''--bind'', w, ''/workspace''), (''--bind'', sh, ''/agent/shared'')] @ map mount_bind ms"
  "flags_of (sandbox_ops w sh ms) = [''--die-with-parent'', ''--new-session'', ''--unshare-pid'', ''--clearenv'']"
  "places_of (sandbox_ops w sh ms) = [(''--tmpfs'', ''/''), (''--dev'', ''/dev''), (''--proc'', ''/proc''), (''--tmpfs'', ''/tmp''), (''--cap-drop'', ''ALL''),
     (''--chdir'', ''/workspace'')]"
  "settings_of (sandbox_ops w sh ms) = [(''PATH'', ''/usr/bin:/bin''), (''HOME'', ''/''), (''TMPDIR'', ''/tmp'')]"
  "parents_made {} (sandbox_ops w sh ms)"
proof -
  show "parents_made {} (sandbox_ops w sh ms)" by (simp add: sandbox_ops_def base_parents parents_append mount_parents)
qed (simp_all add: sandbox_ops_def views_append mount_views, simp_all add: base_ops_def)

section \<open>Properties\<close>

text \<open>
  C17. The sandbox a command line describes: for every accepted request the command line is a list of
  options, the wrapper command, the variables of the Agent command and the command itself, and it can be
  read in no other way, whatever the paths, variables and arguments contain. The bind mounts are, in this
  order, \<open>/usr\<close> (read-only) with its four links, \<open>/etc\<close> (read-only), the Session's workspace at
  \<open>/workspace\<close>, the Agent's shared area at \<open>/agent/shared\<close> and the mounts of the plugins at their targets,
  read-only where they say so, and nothing else; every one finds the directory of its target. The flags and
  the other places are exactly those listed: a private process namespace, a new session that ends with its
  parent, an empty environment, no capabilities, fresh \<open>/\<close> and \<open>/tmp\<close>. In the variables of the Agent
  command \<open>HOME\<close>, \<open>TMPDIR\<close> and the identity variables have their fixed values, whatever the caller put there.
\<close>

theorem sandbox_argv_decoded:
  assumes "build_bwrap_argv w sh a s cmd env ms (JBool b) r = Inr argv"
  shows "\<exists>ops vars.
    argv = ''bwrap'' # option_line ops @ wrapper_start b @ map assignment vars @ cmd \<and> list_all known_option ops \<and>
    binds_of ops = [(''--ro-bind'', ''/usr'', ''/usr''), (''--symlink'', ''usr/bin'', ''/bin''), (''--symlink'', ''usr/sbin'', ''/sbin''),
      (''--symlink'', ''usr/lib'', ''/lib''), (''--symlink'', ''usr/lib64'', ''/lib64''), (''--ro-bind'', ''/etc'', ''/etc''),
      (''--bind'', w, ''/workspace''), (''--bind'', sh, ''/agent/shared'')] @
      map (\<lambda>m. (if m_read_only m then ''--ro-bind'' else ''--bind'', m_source m, m_target m)) ms \<and>
    flags_of ops = [''--die-with-parent'', ''--new-session'', ''--unshare-pid'', ''--clearenv''] \<and>
    places_of ops = [(''--tmpfs'', ''/''), (''--dev'', ''/dev''), (''--proc'', ''/proc''), (''--tmpfs'', ''/tmp''), (''--cap-drop'', ''ALL''),
      (''--chdir'', ''/workspace'')] \<and>
    settings_of ops = [(''PATH'', ''/usr/bin:/bin''), (''HOME'', ''/''), (''TMPDIR'', ''/tmp'')] \<and>
    parents_made {} ops \<and>
    (\<forall>ops' prog. list_all known_option ops' \<and> program_start prog \<and> argv = ''bwrap'' # option_line ops' @ prog \<longrightarrow>
       ops' = ops \<and> prog = wrapper_start b @ map assignment vars @ cmd) \<and>
    plain_names vars \<and>
    (\<forall>vars' cmd'. plain_names vars' \<and> command_start cmd' \<and> map assignment vars' @ cmd' = map assignment vars @ cmd \<longrightarrow> vars' = vars \<and> cmd' = cmd) \<and>
    map_of vars = [''PATH'' \<mapsto> ''/usr/local/bin:/usr/bin:/bin''] ++ map_of (rev env) ++ fixed_bindings a s r"
proof -
  let ?vars = "agent_environment a s env r" and ?ops = "sandbox_ops w sh ms"
  note built = assms [unfolded build_bwrap_argv_Inr]
  have argv: "argv = ''bwrap'' # option_line ?ops @ wrapper_start b @ map assignment ?vars @ cmd" using built sandbox_line by auto
  have plain: "plain_names ?vars" using built agent_environment_keys unfolding plain_names_def by blast
  have cmd: "command_start cmd" using built by (simp add: command_start_def)
  have prog: "program_start (wrapper_start b @ rest)" for rest by (simp add: program_start_def wrapper_start_def startswith_def)
  have one: "\<forall>ops' prog. list_all known_option ops' \<and> program_start prog \<and> argv = ''bwrap'' # option_line ops' @ prog \<longrightarrow>
      ops' = ?ops \<and> prog = wrapper_start b @ map assignment ?vars @ cmd"
  proof (intro allI impI, elim conjE)
    fix ops' prog
    assume p: "list_all known_option ops'" "program_start prog" "argv = ''bwrap'' # option_line ops' @ prog"
    have "option_line ops' @ prog = option_line ?ops @ wrapper_start b @ map assignment ?vars @ cmd" using p(3) argv by simp
    then show "ops' = ?ops \<and> prog = wrapper_start b @ map assignment ?vars @ cmd"
      using option_line_unique [OF p(1) sandbox_ops_known p(2) prog] by blast
  qed
  have two: "\<forall>vars' cmd'. plain_names vars' \<and> command_start cmd' \<and> map assignment vars' @ cmd' = map assignment ?vars @ cmd \<longrightarrow>
      vars' = ?vars \<and> cmd' = cmd"
    using assignments_unique [OF _ plain _ cmd] by blast
  show ?thesis
    by (rule exI [of _ ?ops], rule exI [of _ ?vars])
       (intro conjI argv sandbox_ops_known sandbox_views [unfolded mount_bind_def [abs_def]] one plain two agent_environment_lookup)
qed

theorem sandbox_argv_decoded_witness:
  "\<exists>argv ops vars.
    build_bwrap_argv ''/w'' ''/s'' ''x'' ''y'' [''ls'', ''A=B''] [(''HOME'', ''/root'')] [] (JBool True) None = Inr argv \<and>
    argv = ''bwrap'' # option_line ops @ wrapper_start True @ map assignment vars @ [''ls'', ''A=B''] \<and>
    (''--bind'', ''/w'', ''/workspace'') \<in> set (binds_of ops) \<and> map_of vars ''HOME'' = Some ''/workspace''"
proof -
  have "\<exists>argv. build_bwrap_argv ''/w'' ''/s'' ''x'' ''y'' [''ls'', ''A=B''] [(''HOME'', ''/root'')] [] (JBool True) None = Inr argv"
    unfolding build_bwrap_argv_Inr by (auto simp: ID_RE_fullmatch_def id_start_char_def is_alpha_def bad_binding_def)
  then obtain argv where b: "build_bwrap_argv ''/w'' ''/s'' ''x'' ''y'' [''ls'', ''A=B''] [(''HOME'', ''/root'')] [] (JBool True) None = Inr argv"
    by blast
  obtain ops vars where line: "argv = ''bwrap'' # option_line ops @ wrapper_start True @ map assignment vars @ [''ls'', ''A=B'']"
    and binds: "(''--bind'', ''/w'', ''/workspace'') \<in> set (binds_of ops)"
    and vars: "map_of vars = [''PATH'' \<mapsto> ''/usr/local/bin:/usr/bin:/bin''] ++ map_of (rev [(''HOME'', ''/root'')]) ++ fixed_bindings ''x'' ''y'' None"
  proof -
    assume thesis: "\<And>ops vars. argv = ''bwrap'' # option_line ops @ wrapper_start True @ map assignment vars @ [''ls'', ''A=B''] \<Longrightarrow>
      (''--bind'', ''/w'', ''/workspace'') \<in> set (binds_of ops) \<Longrightarrow>
      map_of vars = [''PATH'' \<mapsto> ''/usr/local/bin:/usr/bin:/bin''] ++ map_of (rev [(''HOME'', ''/root'')]) ++ fixed_bindings ''x'' ''y'' None \<Longrightarrow> thesis"
    show thesis using sandbox_argv_decoded [OF b] by (elim exE conjE) (rule thesis, assumption, erule ssubst, simp, assumption)
  qed
  have "map_of vars ''HOME'' = Some ''/workspace''" by (simp add: vars fixed_bindings_def)
  with b line binds show ?thesis by (intro exI conjI)
qed

text \<open>
  Admission: a command line is built exactly when the identifiers are valid, there is a command
  whose name contains no \<open>=\<close> (which \<^verbatim>\<open>env\<close> would take for a variable), every variable of the
  caller has a nonempty name without \<open>=\<close> and no null character, and the launch barrier is a boolean.
\<close>

theorem sandbox_admission:
  "(\<exists>argv. build_bwrap_argv w sh a s cmd env ms lb r = Inr argv) \<longleftrightarrow>
     ID_RE_fullmatch a \<and> ID_RE_fullmatch s \<and> (case cmd of [] \<Rightarrow> False | c # _ \<Rightarrow> CHR ''='' \<notin> set c) \<and>
     (case r of None \<Rightarrow> True | Some x \<Rightarrow> ID_RE_fullmatch x) \<and>
     list_all (\<lambda>(k, v). k \<noteq> [] \<and> CHR ''='' \<notin> set k \<and> CHR 0x00 \<notin> set k \<and> CHR 0x00 \<notin> set v) env \<and> is_bool lb"
  by (cases cmd; cases lb; cases r)
     (auto simp: build_bwrap_argv_Inr bad_binding_def list_all_iff list_ex_iff)

end
