(* ===== verification/Session_Cgroup.thy ===== *)
theory Session_Cgroup
  imports Identifiers
begin

text \<open>
  \<^verbatim>\<open>src/src/allox/runtime/process_tracking/cgroup.py\<close>: the cgroup v2 leaf that owns the
  processes of one Session. The kernel is a parameter: a record of the file operations the code
  uses on its interface files, acting on a state of any type, together with the time each takes.
  The world of a computation adds the monotonic clock and the trace of the file operations
  performed; paths are lists of components below the root directory.
\<close>

section \<open>The kernel interface\<close>

type_synonym path = "string list"

datatype inode_kind = Directory | Symlink | OtherInode

record 'k cgroupfs =
  k_read :: "path \<Rightarrow> ('k, string) op"
  k_write :: "path \<Rightarrow> string \<Rightarrow> ('k, unit) op"
  k_exists :: "path \<Rightarrow> 'k \<Rightarrow> bool"
  k_mkdirs :: "path \<Rightarrow> ('k, unit) op"
  k_rmdir :: "path \<Rightarrow> ('k, unit) op"
  k_lstat :: "path \<Rightarrow> 'k \<Rightarrow> (inode_kind \<times> int) res"
  k_resolve :: "string \<Rightarrow> 'k \<Rightarrow> path res"
  k_subdirs :: "path \<Rightarrow> 'k \<Rightarrow> path list res"
  k_lag :: "'k \<Rightarrow> rat"

datatype kevent =
    Read path "string res"
  | Write path string "unit res"
  | Mkdirs path
  | Rmdir path

record 'k world =
  kern :: 'k
  now :: rat
  trace :: "kevent list"

type_synonym ('k, 'a) kop = "('k world, 'a) op"

text \<open>A file operation acts on the kernel, takes time and is recorded.\<close>

definition kcall :: "'k cgroupfs \<Rightarrow> ('a res \<Rightarrow> kevent list) \<Rightarrow> ('k, 'a) op \<Rightarrow> ('k, 'a) kop" where
  "kcall K ev f = (\<lambda>w. case f (kern w) of
     (r, k) \<Rightarrow> (r, w\<lparr>kern := k, now := now w + \<bar>k_lag K k\<bar>, trace := trace w @ ev r\<rparr>))"

definition read_text :: "'k cgroupfs \<Rightarrow> path \<Rightarrow> ('k, string) kop" where
  "read_text K p = kcall K (\<lambda>r. [Read p r]) (k_read K p)"

definition write_text :: "'k cgroupfs \<Rightarrow> path \<Rightarrow> string \<Rightarrow> ('k, unit) kop" where
  "write_text K p t = kcall K (\<lambda>r. [Write p t r]) (k_write K p t)"

definition mkdirs :: "'k cgroupfs \<Rightarrow> path \<Rightarrow> ('k, unit) kop" where
  "mkdirs K p = kcall K (\<lambda>_. [Mkdirs p]) (k_mkdirs K p)"

definition rmdir :: "'k cgroupfs \<Rightarrow> path \<Rightarrow> ('k, unit) kop" where
  "rmdir K p = kcall K (\<lambda>_. [Rmdir p]) (k_rmdir K p)"

definition ask :: "'k cgroupfs \<Rightarrow> ('k \<Rightarrow> 'a res) \<Rightarrow> ('k, 'a) kop" where
  "ask K f = kcall K (\<lambda>_. []) (\<lambda>k. (f k, k))"

definition path_exists :: "'k cgroupfs \<Rightarrow> path \<Rightarrow> ('k, bool) kop" where
  "path_exists K p = ask K (\<lambda>k. Inr (k_exists K p k))"

definition sleep :: "'k cgroupfs \<Rightarrow> rat \<Rightarrow> ('k, unit) kop" where
  "sleep K d = (\<lambda>w. (Inr (), w\<lparr>now := now w + d + \<bar>k_lag K (kern w)\<bar>\<rparr>))"

text \<open>\<open>except OSError as exc: raise WorkspaceError(message + exc)\<close>\<close>

definition os_wrapped :: "string \<Rightarrow> ('k, 'a) kop \<Rightarrow> ('k, 'a) kop" where
  "os_wrapped msg m = catch is_OSError m (\<lambda>e. raise (WorkspaceError (msg @ '': '' @ exc_text e)))"

definition path_text :: "path \<Rightarrow> string" where
  "path_text p = concat (map (\<lambda>c. CHR ''/'' # c) p)"

definition posix_join :: "path \<Rightarrow> string" where
  "posix_join p = (if p = [] then ''.'' else tl (path_text p))"

section \<open>Interface files\<close>

definition LEAF_LIMITS :: "(string, string) dict" where
  "LEAF_LIMITS = [(''cgroup.max.depth'', ''0''), (''cgroup.max.descendants'', ''0'')]"

text \<open>\<open>dict(line.split() for line in text.splitlines())\<close>\<close>

definition pair_of_line :: "string \<Rightarrow> (string \<times> string) res" where
  "pair_of_line l = (case words_of l of [a, b] \<Rightarrow> Inr (a, b)
     | _ \<Rightarrow> Inl (ValueError ''dictionary update sequence element has a wrong length; 2 is required''))"

definition parse_events :: "string \<Rightarrow> (string, string) dict res" where
  "parse_events t = bindR (mapR pair_of_line (splitlines t)) (\<lambda>ps. Inr (dict_merge [] ps))"

definition is_flag :: "string option \<Rightarrow> bool" where
  "is_flag v = (v \<in> {Some ''0'', Some ''1''})"

fun is_os_or_value_error :: "error \<Rightarrow> bool" where
  "is_os_or_value_error (ValueError m) = True"
| "is_os_or_value_error e = is_OSError e"

definition events :: "'k cgroupfs \<Rightarrow> path \<Rightarrow> ('k, (string, string) dict) kop" where
  "events K p =
     bind (catch is_os_or_value_error
        (bind (read_text K (p @ [''cgroup.events''])) (\<lambda>t. lift_res (parse_events t)))
        (\<lambda>e. raise (WorkspaceError (''failed to read Session cgroup events: '' @ exc_text e)))) (\<lambda>vals.
     if \<not> is_flag (map_of vals ''populated'') \<or> \<not> is_flag (map_of vals ''frozen'')
     then raise (WorkspaceError ''invalid Session cgroup populated/frozen state'')
     else ret vals)"

definition seal_leaf :: "'k cgroupfs \<Rightarrow> path \<Rightarrow> ('k, unit) kop" where
  "seal_leaf K p =
     andthen (forM LEAF_LIMITS (\<lambda>(name, expected).
        os_wrapped (''failed to seal Session cgroup via '' @ name) (write_text K (p @ [name]) expected)))
     (forM LEAF_LIMITS (\<lambda>(name, expected).
        bind (os_wrapped (''failed to verify Session cgroup '' @ name) (read_text K (p @ [name]))) (\<lambda>t.
        require (strip t = expected)
          (WorkspaceError (''Session cgroup '' @ name @ '' did not retain required value '' @ expected)))))"

definition flag_text :: "bool \<Rightarrow> string" where
  "flag_text b = (if b then ''1'' else ''0'')"

definition freeze_action :: "bool \<Rightarrow> string" where
  "freeze_action b = (if b then ''freeze'' else ''thaw'')"

text \<open>Time never runs backwards, which bounds the polling loops.\<close>

lemma now_kcall: "now w \<le> now (snd (kcall K ev f w))"
  by (auto simp: kcall_def split: prod.splits)

lemma now_events: "now w \<le> now (snd (events K p w))"
  using now_kcall [of w K "\<lambda>r. [Read (p @ [''cgroup.events'']) r]" "k_read K (p @ [''cgroup.events''])"]
  by (auto simp: events_def read_text_def bind_def catch_def raise_def ret_def lift_res_def split: prod.splits sum.splits)

function (sequential) await_frozen :: "'k cgroupfs \<Rightarrow> path \<Rightarrow> bool \<Rightarrow> rat \<Rightarrow> ('k, unit) kop" where
  "await_frozen K p frozen deadline w =
     (case events K p w of
        (Inl e, w1) \<Rightarrow> (Inl e, w1)
      | (Inr vals, w1) \<Rightarrow>
          if map_of vals ''frozen'' = Some (flag_text frozen) then (Inr (), w1)
          else if deadline \<le> now w1
          then (Inl (WorkspaceError (''Session cgroup '' @ freeze_action frozen @ '' acknowledgement timed out'')), w1)
          else await_frozen K p frozen deadline (snd (sleep K (1/100) w1)))"
  by pat_completeness auto

text \<open>Each round moves the clock at least a hundredth of a second towards the deadline.\<close>

definition rounds :: "rat \<Rightarrow> rat \<Rightarrow> rat \<Rightarrow> nat" where
  "rounds step deadline t = nat \<lceil>(deadline - t) / step\<rceil>"

lemma rounds_decrease:
  assumes "0 < step" and "t < deadline" and "t + step \<le> t'"
  shows "rounds step deadline t' < rounds step deadline t"
proof -
  have "0 < (deadline - t) / step" using assms by simp
  then have pos: "0 < \<lceil>(deadline - t) / step\<rceil>" by simp
  have "(deadline - t') / step \<le> (deadline - t - step) / step"
    using assms by (intro divide_right_mono) simp_all
  also have "\<dots> = (deadline - t) / step - 1"
    using assms(1) by (simp add: diff_divide_distrib)
  finally have "(deadline - t') / step \<le> (deadline - t) / step - 1" .
  then have "\<lceil>(deadline - t') / step\<rceil> \<le> \<lceil>(deadline - t) / step\<rceil> - 1"
    by (metis ceiling_diff_one ceiling_mono)
  then show ?thesis using pos by (simp add: rounds_def)
qed

lemma rounds_mono: "0 < step \<Longrightarrow> t \<le> t' \<Longrightarrow> rounds step deadline t' \<le> rounds step deadline t"
  by (simp add: rounds_def nat_mono ceiling_mono divide_right_mono)

lemma rounds_sleep:
  assumes "0 < d" and "now w \<le> now y" and "now y < deadline"
  shows "rounds d deadline (now (snd (sleep K d y))) < rounds d deadline (now w)"
proof -
  have "rounds d deadline (now (snd (sleep K d y))) < rounds d deadline (now y)"
    by (rule rounds_decrease) (use assms in \<open>simp_all add: sleep_def\<close>)
  also have "\<dots> \<le> rounds d deadline (now w)"
    by (rule rounds_mono) (use assms in simp_all)
  finally show ?thesis .
qed

termination await_frozen
proof (relation "measure (\<lambda>(K, p, frozen, deadline, w). rounds (1/100) deadline (now w))", goal_cases)
  case (2 K p frozen deadline w x y)
  then show ?case
    using now_events [of w K p] by (cases "events K p w") (auto intro!: rounds_sleep)
qed simp

declare await_frozen.simps [simp del]

definition set_frozen :: "'k cgroupfs \<Rightarrow> path \<Rightarrow> bool \<Rightarrow> rat \<Rightarrow> ('k, unit) kop" where
  "set_frozen K p frozen timeout =
     andthen (os_wrapped (''failed to '' @ freeze_action frozen @ '' Session cgroup'')
        (write_text K (p @ [''cgroup.freeze'']) (flag_text frozen)))
     (bind (gets now) (\<lambda>t. await_frozen K p frozen (t + timeout)))"

definition populated :: "'k cgroupfs \<Rightarrow> path \<Rightarrow> ('k, bool) kop" where
  "populated K p =
     bind (path_exists K (p @ [''cgroup.events''])) (\<lambda>there.
     if \<not> there then ret False
     else bind (events K p) (\<lambda>vals. ret (map_of vals ''populated'' = Some ''1'')))"

lemma now_populated: "now w \<le> now (snd (populated K p w))"
proof -
  let ?m = "path_exists K (p @ [''cgroup.events''])"
  have "now w \<le> now (snd (?m w))" by (simp add: path_exists_def ask_def now_kcall)
  moreover have "now (snd (?m w)) \<le> now (snd (events K p (snd (?m w))))" by (rule now_events)
  ultimately show ?thesis
    by (auto simp: populated_def bind_def ret_def split: prod.splits sum.splits)
qed

function (sequential) await_empty :: "'k cgroupfs \<Rightarrow> path \<Rightarrow> rat \<Rightarrow> ('k, bool) kop" where
  "await_empty K p deadline w =
     (if now w < deadline
      then (case populated K p w of
          (Inl e, w1) \<Rightarrow> (Inl e, w1)
        | (Inr b, w1) \<Rightarrow> if \<not> b then (Inr True, w1) else await_empty K p deadline (snd (sleep K (1/50) w1)))
      else bind (populated K p) (\<lambda>b. ret (\<not> b)) w)"
  by pat_completeness auto

termination await_empty
proof (relation "measure (\<lambda>(K, p, deadline, w). rounds (1/50) deadline (now w))", goal_cases)
  case (2 K p deadline w x y)
  then have "now w \<le> now y" using now_populated [of w K p] by (cases "populated K p w") auto
  then have "now w \<le> now (snd (sleep K (1/50) y)) - 1/50" by (simp add: sleep_def)
  then show ?case using 2 by (auto intro!: rounds_decrease)
qed simp

declare await_empty.simps [simp del]

section \<open>SessionCgroup\<close>

record session_cgroup =
  cg_root :: path
  cg_mount :: path

text \<open>The octal escapes of \<^verbatim>\<open>/proc/self/mountinfo\<close>, undone one after the other.\<close>

definition esc :: "string \<Rightarrow> string" where
  "esc d = CHR 0x5C # d"

definition unescape_mount :: "string \<Rightarrow> string" where
  "unescape_mount t =
     py_replace (esc ''134'') [CHR 0x5C]
     (py_replace (esc ''012'') [CHR 0x0A]
     (py_replace (esc ''011'') [CHR 0x09]
     (py_replace (esc ''040'') '' '' t)))"

text \<open>\<open>line.split(" - ", 1)\<close>: the parts before and after the first separator.\<close>

fun split_dash :: "string \<Rightarrow> (string \<times> string) option" where
  "split_dash [] = None"
| "split_dash (c # s) =
     (if startswith (c # s) '' - '' then Some ([], drop 3 (c # s))
      else map_option (apfst (Cons c)) (split_dash s))"

text \<open>The mount point of one line, \<open>None\<close> where the loop continues.\<close>

definition mount_of_line :: "string \<Rightarrow> string option" where
  "mount_of_line line =
     (case split_dash line of
        None \<Rightarrow> None
      | Some (left, right) \<Rightarrow>
          (case words_of right of
             [] \<Rightarrow> None
           | fs # _ \<Rightarrow> if fs \<noteq> ''cgroup2'' then None
               else if length (words_of left) \<le> 4 then None
               else Some (unescape_mount (words_of left ! 4))))"

definition is_prefix :: "path \<Rightarrow> path \<Rightarrow> bool" where
  "is_prefix p q = (take (length p) q = p)"

fun collect_mounts :: "'k cgroupfs \<Rightarrow> path \<Rightarrow> string list \<Rightarrow> ('k, path list) kop" where
  "collect_mounts K p [] = ret []"
| "collect_mounts K p (line # ls) =
     (case mount_of_line line of
        None \<Rightarrow> collect_mounts K p ls
      | Some raw \<Rightarrow>
          bind (ask K (k_resolve K raw)) (\<lambda>m.
          bind (collect_mounts K p ls) (\<lambda>ms. ret (if is_prefix m p then m # ms else ms))))"

text \<open>\<open>max(candidates, key=..., default=None)\<close>: the first of the longest.\<close>

fun longest :: "path list \<Rightarrow> path option" where
  "longest [] = None"
| "longest (m # ms) =
     (case longest ms of None \<Rightarrow> Some m | Some n \<Rightarrow> Some (if length n \<le> length m then m else n))"

definition find_mount :: "'k cgroupfs \<Rightarrow> path \<Rightarrow> ('k, path option) kop" where
  "find_mount K p =
     bind (catch is_OSError
        (bind (read_text K [''proc'', ''self'', ''mountinfo'']) (\<lambda>t. ret (Some (splitlines t))))
        (\<lambda>_. ret None)) (\<lambda>ls. (case ls of
        None \<Rightarrow> ret None
      | Some ls \<Rightarrow> bind (collect_mounts K p ls) (\<lambda>ms. ret (longest ms))))"

definition cg_init :: "'k cgroupfs \<Rightarrow> string \<Rightarrow> ('k, session_cgroup) kop" where
  "cg_init K root_text =
     bind (ask K (k_resolve K root_text)) (\<lambda>rt.
     bind (find_mount K rt) (\<lambda>mnt. (case mnt of
        None \<Rightarrow> raise (WorkspaceError (''process cgroup root is not below a cgroup v2 mount: '' @ path_text rt))
      | Some m \<Rightarrow>
          andthen (require (rt \<noteq> m \<and> rt \<noteq> [''sys'', ''fs'', ''cgroup''])
            (WorkspaceError ''use a dedicated cgroup subtree, not the cgroup mount root''))
          (andthen (mkdirs K rt)
          (bind (path_exists K (rt @ [''cgroup.kill''])) (\<lambda>there.
           andthen (require there (WorkspaceError ''Session execution requires cgroup v2 cgroup.kill (Linux 5.14+)''))
           (ret \<lparr>cg_root = rt, cg_mount = m\<rparr>)))))))"

definition cg_path :: "session_cgroup \<Rightarrow> string \<Rightarrow> string \<Rightarrow> path res" where
  "cg_path c agent_id session_id =
     bindR (validate_id ''agent'' agent_id) (\<lambda>_.
     bindR (validate_id ''session'' session_id) (\<lambda>_.
     Inr (cg_root c @ [''agents'', agent_id, ''sessions'', session_id])))"

abbreviation on_path :: "session_cgroup \<Rightarrow> string \<Rightarrow> string \<Rightarrow> (path \<Rightarrow> ('k, 'a) kop) \<Rightarrow> ('k, 'a) kop" where
  "on_path c a s f \<equiv> bind (lift_res (cg_path c a s)) f"

definition cg_populated :: "'k cgroupfs \<Rightarrow> session_cgroup \<Rightarrow> string \<Rightarrow> string \<Rightarrow> ('k, bool) kop" where
  "cg_populated K c a s = on_path c a s (populated K)"

definition attach :: "'k cgroupfs \<Rightarrow> session_cgroup \<Rightarrow> string \<Rightarrow> string \<Rightarrow> int \<Rightarrow> ('k, path) kop" where
  "attach K c a s pid =
     andthen (require (0 < pid) (WorkspaceError ''cannot attach an invalid pid to a Session cgroup''))
     (on_path c a s (\<lambda>target.
      andthen (mkdirs K target)
      (bind (cg_populated K c a s) (\<lambda>b.
       andthen (require (\<not> b) (WorkspaceError ''Session cgroup already contains processes; recover it before launch''))
       (andthen (set_frozen K target False 5)
       (andthen (seal_leaf K target)
       (andthen (os_wrapped ''failed to attach process to Session cgroup''
           (write_text K (target @ [''cgroup.procs'']) (int_str pid)))
       (ret target))))))))"

definition pids :: "'k cgroupfs \<Rightarrow> session_cgroup \<Rightarrow> string \<Rightarrow> string \<Rightarrow> ('k, int list) kop" where
  "pids K c a s = on_path c a s (\<lambda>target.
     catch (\<lambda>e. case e of FileNotFoundError _ \<Rightarrow> True | _ \<Rightarrow> False)
       (bind (read_text K (target @ [''cgroup.procs''])) (\<lambda>t.
          lift_res (mapR (\<lambda>v. py_int (JStr v)) (words_of t))))
       (\<lambda>_. ret []))"

record cg_identity =
  ci_path :: string
  ci_relative :: string
  ci_id :: int

definition identity :: "'k cgroupfs \<Rightarrow> session_cgroup \<Rightarrow> string \<Rightarrow> string \<Rightarrow> ('k, cg_identity) kop" where
  "identity K c a s = on_path c a s (\<lambda>target.
     bind (os_wrapped ''failed to resolve Session cgroup identity'' (ask K (k_lstat K target))) (\<lambda>(kind, ino).
     andthen (require (kind = Directory) (WorkspaceError ''Session cgroup must be a real directory''))
     (bind (ask K (k_resolve K (path_text target))) (\<lambda>canonical.
      andthen (require (canonical = target \<and> 0 < ino)
        (WorkspaceError ''Session cgroup has an invalid canonical kernel identity''))
      (andthen (require (is_prefix (cg_mount c) canonical) (WorkspaceError ''Session cgroup escaped its cgroup v2 mount''))
      (ret \<lparr>ci_path = path_text canonical,
            ci_relative = ''/'' @ posix_join (drop (length (cg_mount c)) canonical), ci_id = ino\<rparr>))))))"

definition freeze ::
  "'k cgroupfs \<Rightarrow> session_cgroup \<Rightarrow> string \<Rightarrow> string \<Rightarrow> int \<Rightarrow> bool \<Rightarrow> rat \<Rightarrow> ('k, cg_identity) kop" where
  "freeze K c a s expected_id require_populated timeout =
     bind (identity K c a s) (\<lambda>ident.
     andthen (require (ci_id ident = expected_id) (WorkspaceError ''Session cgroup identity changed before freeze''))
     (on_path c a s (\<lambda>target.
      andthen (set_frozen K target True timeout)
      (bind (events K target) (\<lambda>vals.
       andthen (require (\<not> (require_populated \<and> map_of vals ''populated'' \<noteq> Some ''1''))
         (WorkspaceError ''Session cgroup became empty before Observer readiness''))
       (bind (identity K c a s) (\<lambda>final.
        andthen (require (final = ident) (WorkspaceError ''Session cgroup identity changed across freeze barrier''))
        (ret final))))))))"

definition thaw :: "'k cgroupfs \<Rightarrow> session_cgroup \<Rightarrow> string \<Rightarrow> string \<Rightarrow> int \<Rightarrow> rat \<Rightarrow> ('k, unit) kop" where
  "thaw K c a s expected_id timeout =
     bind (identity K c a s) (\<lambda>ident.
     andthen (require (ci_id ident = expected_id) (WorkspaceError ''Session cgroup identity changed before thaw''))
     (on_path c a s (\<lambda>target.
      andthen (set_frozen K target False timeout)
      (bind (identity K c a s) (\<lambda>final.
       require (final = ident) (WorkspaceError ''Session cgroup identity changed across thaw barrier''))))))"

definition wait_empty :: "'k cgroupfs \<Rightarrow> session_cgroup \<Rightarrow> string \<Rightarrow> string \<Rightarrow> rat \<Rightarrow> ('k, bool) kop" where
  "wait_empty K c a s timeout =
     bind (gets now) (\<lambda>t. on_path c a s (\<lambda>target. await_empty K target (t + timeout)))"

definition quiesce_empty :: "'k cgroupfs \<Rightarrow> session_cgroup \<Rightarrow> string \<Rightarrow> string \<Rightarrow> int \<Rightarrow> rat \<Rightarrow> ('k, cg_identity) kop" where
  "quiesce_empty K c a s expected_id timeout =
     bind (wait_empty K c a s timeout) (\<lambda>empty.
     andthen (require empty (WorkspaceError ''Session cgroup did not become empty before finalization''))
     (bind (freeze K c a s expected_id False timeout) (\<lambda>ident.
      on_path c a s (\<lambda>target.
      bind (events K target) (\<lambda>vals.
      andthen (require (map_of vals ''populated'' = Some ''0'') (WorkspaceError ''Session cgroup repopulated during finalization''))
      (ret ident))))))"

definition cg_kill :: "'k cgroupfs \<Rightarrow> session_cgroup \<Rightarrow> string \<Rightarrow> string \<Rightarrow> ('k, unit) kop" where
  "cg_kill K c a s = on_path c a s (\<lambda>target.
     bind (path_exists K target) (\<lambda>there.
     if \<not> there then ret ()
     else bind (path_exists K (target @ [''cgroup.kill''])) (\<lambda>kf.
       andthen (require kf (WorkspaceError ''Session termination requires cgroup v2 cgroup.kill''))
       (os_wrapped ''failed to kill Session cgroup'' (write_text K (target @ [''cgroup.kill'']) ''1'')))))"

definition cg_remove :: "'k cgroupfs \<Rightarrow> session_cgroup \<Rightarrow> string \<Rightarrow> string \<Rightarrow> ('k, bool) kop" where
  "cg_remove K c a s = on_path c a s (\<lambda>target.
     bind (path_exists K target) (\<lambda>there.
     if \<not> there then ret True
     else bind (cg_populated K c a s) (\<lambda>b.
     if b then ret False
     else
       andthen (catch is_OSError
         (andthen (set_frozen K target False 5)
         (bind (ask K (k_subdirs K target)) (\<lambda>ds.
          andthen (forM (sort_key (\<lambda>p. - int (length p)) ds) (rmdir K))
          (andthen (rmdir K target)
          (andthen (rmdir K (butlast target))
          (rmdir K (butlast (butlast target))))))))
         (\<lambda>_. ret ()))
       (bind (path_exists K target) (\<lambda>still. ret (\<not> still))))))"

text \<open>\<open>relative_to\<close> raises when the path is not below the mount.\<close>

definition owns :: "'k cgroupfs \<Rightarrow> session_cgroup \<Rightarrow> string \<Rightarrow> string \<Rightarrow> int \<Rightarrow> ('k, bool) kop" where
  "owns K c a s pid = on_path c a s (\<lambda>target.
     andthen (require (is_prefix (cg_mount c) target) (ValueError ''path is not in the subpath''))
     (bind (catch (\<lambda>e. case e of FileNotFoundError _ \<Rightarrow> True | _ \<Rightarrow> False)
        (bind (read_text K [''proc'', int_str pid, ''cgroup'']) (\<lambda>t. ret (Some (splitlines t))))
        (\<lambda>_. ret None)) (\<lambda>ls. ret (case ls of
          None \<Rightarrow> False
        | Some ls \<Rightarrow> (''0::/'' @ posix_join (drop (length (cg_mount c)) target)) \<in> set ls))))"

section \<open>What an operation has observed when it returns\<close>

text \<open>
  \<open>returns m w P\<close>: if \<open>m\<close> returns from \<open>w\<close>, the result and the world satisfy \<open>P\<close>; every operation is
  a total function, so a call that does not return raises.
\<close>

abbreviation returns :: "('s, 'a) op \<Rightarrow> 's \<Rightarrow> ('a \<Rightarrow> 's \<Rightarrow> bool) \<Rightarrow> bool" where
  "returns m w P \<equiv> wp m P (\<lambda>_ _. True) w"

lemma returns_bind:
  assumes "returns m w P" and "\<And>x w1. P x w1 \<Longrightarrow> returns (f x) w1 Q"
  shows "returns (bind m f) w Q"
  unfolding wp_bind by (rule wp_mono [OF assms(1)]) (use assms(2) in auto)

lemma returns_andthen:
  assumes "returns m w P" and "\<And>x w1. P x w1 \<Longrightarrow> returns k w1 Q"
  shows "returns (andthen m k) w Q"
  unfolding andthen_def by (rule returns_bind [OF assms])

lemma returns_require [simp]: "returns (require b e) w (\<lambda>_ w'. w' = w \<and> b)"
  by (simp add: wp_require)

lemma returns_read_text: "returns (read_text K p) w (\<lambda>t w'. trace w' = trace w @ [Read p (Inr t)])"
  by (auto simp: wp_def read_text_def kcall_def split: prod.splits sum.splits)

lemma returns_write_text: "returns (write_text K p t) w (\<lambda>_ w'. trace w' = trace w @ [Write p t (Inr ())])"
  by (auto simp: wp_def write_text_def kcall_def split: prod.splits sum.splits)

lemma returns_ask: "returns (ask K f) w (\<lambda>x w'. trace w' = trace w \<and> f (kern w) = Inr x \<and> kern w' = kern w)"
  by (auto simp: wp_def ask_def kcall_def split: prod.splits sum.splits)

lemma returns_os_wrapped: "returns m w P \<Longrightarrow> returns (os_wrapped msg m) w P"
  by (auto simp: os_wrapped_def wp_catch wp_raise elim: wp_mono)

text \<open>A sequence of reads of the event file of one cgroup: the world is only watched.\<close>

definition watching :: "path \<Rightarrow> kevent list \<Rightarrow> bool" where
  "watching p evs = list_all (\<lambda>e. case e of Read q r \<Rightarrow> q = p @ [''cgroup.events''] | _ \<Rightarrow> False) evs"

lemma watching_simps [simp]:
  "watching p []"
  "watching p (e # evs) \<longleftrightarrow> (\<exists>r. e = Read (p @ [''cgroup.events'']) r) \<and> watching p evs"
  "watching p (xs @ ys) \<longleftrightarrow> watching p xs \<and> watching p ys"
  by (auto simp: watching_def split: kevent.splits)

text \<open>The event file was read and showed \<open>key\<close> with the value \<open>v\<close>.\<close>

definition showed :: "path \<Rightarrow> string \<Rightarrow> string \<Rightarrow> kevent \<Rightarrow> bool" where
  "showed p key v e = (case e of
     Read q (Inr t) \<Rightarrow> q = p @ [''cgroup.events''] \<and> (\<exists>vals. parse_events t = Inr vals \<and> map_of vals key = Some v)
   | _ \<Rightarrow> False)"

lemma showed_watching: "showed p key v e \<Longrightarrow> watching p [e]"
  by (auto simp: showed_def split: kevent.splits sum.splits)

lemma returns_events:
  "returns (events K p) w (\<lambda>vals w'. \<exists>e. trace w' = trace w @ [e] \<and> watching p [e] \<and> is_flag (map_of vals ''populated'') \<and>
      is_flag (map_of vals ''frozen'') \<and> (\<forall>k v. map_of vals k = Some v \<longrightarrow> showed p k v e))"
  unfolding events_def wp_bind wp_catch
  by (rule wp_mono [OF returns_read_text]) (auto simp: wp_simps showed_def split: sum.splits)

lemma returns_populated:
  "returns (populated K p) w (\<lambda>b w'. \<exists>evs. trace w' = trace w @ evs \<and> watching p evs \<and>
     (\<not> b \<longrightarrow> (\<forall>e \<in> set evs. showed p ''populated'' ''0'' e)))"
  unfolding populated_def path_exists_def
proof (rule returns_bind [OF returns_ask])
  fix x and w1 :: "'a world"
  assume x: "trace w1 = trace w \<and> Inr (k_exists K (p @ [''cgroup.events'']) (kern w)) = Inr x \<and> kern w1 = kern w"
  have "returns (events K p) w1 (\<lambda>vals w'. \<exists>e. trace w' = trace w @ [e] \<and> watching p [e] \<and>
      (map_of vals ''populated'' \<noteq> Some ''1'' \<longrightarrow> showed p ''populated'' ''0'' e))"
    by (rule wp_mono [OF returns_events]) (use x in \<open>auto simp: is_flag_def\<close>)
  then have "returns (bind (events K p) (\<lambda>vals. ret (map_of vals ''populated'' = Some ''1''))) w1
      (\<lambda>b w'. \<exists>evs. trace w' = trace w @ evs \<and> watching p evs \<and> (\<not> b \<longrightarrow> (\<forall>e \<in> set evs. showed p ''populated'' ''0'' e)))"
    by (rule returns_bind) (auto simp: wp_ret)
  then show "returns (if \<not> x then ret False else bind (events K p) (\<lambda>vals. ret (map_of vals ''populated'' = Some ''1''))) w1
      (\<lambda>b w'. \<exists>evs. trace w' = trace w @ evs \<and> watching p evs \<and> (\<not> b \<longrightarrow> (\<forall>e \<in> set evs. showed p ''populated'' ''0'' e)))"
    using x by (simp add: wp_ret)
qed

lemma returns_await_frozen:
  "returns (await_frozen K p b d) w
     (\<lambda>_ w'. \<exists>evs e. trace w' = trace w @ evs @ [e] \<and> watching p evs \<and> showed p ''frozen'' (flag_text b) e)"
proof (induction K p b d w rule: await_frozen.induct)
  case (1 K p b d w)
  obtain r w1 where ev: "events K p w = (r, w1)" by (cases "events K p w")
  show ?case
  proof (cases r)
    case (Inl e)
    then show ?thesis using ev by (simp add: wp_def await_frozen.simps [of K p b d w])
  next
    case (Inr vals)
    obtain e where e: "trace w1 = trace w @ [e]" "\<And>k v. map_of vals k = Some v \<Longrightarrow> showed p k v e" "watching p [e]"
      using wp_Inr [OF returns_events ev [unfolded Inr]] by blast
    show ?thesis
    proof (cases "map_of vals ''frozen'' = Some (flag_text b) \<or> d \<le> now w1")
      case True
      then show ?thesis
        using ev Inr e by (fastforce simp: wp_def await_frozen.simps [of K p b d w])
    next
      case False
      have *: "returns (await_frozen K p b d) (snd (sleep K (1/100) w1))
         (\<lambda>_ w'. \<exists>evs e. trace w' = trace w @ evs @ [e] \<and> watching p evs \<and> showed p ''frozen'' (flag_text b) e)"
      proof (intro wp_mono [OF "1.IH" [OF ev [symmetric] Inr]])
        fix w' assume "\<exists>evs e'. trace w' = trace (snd (sleep K (1/100) w1)) @ evs @ [e'] \<and> watching p evs \<and>
            showed p ''frozen'' (flag_text b) e'"
        then obtain evs e' where "trace w' = trace w @ (e # evs) @ [e']" "watching p evs" "showed p ''frozen'' (flag_text b) e'"
          using e(1) by (auto simp: sleep_def)
        then show "\<exists>evs e'. trace w' = trace w @ evs @ [e'] \<and> watching p evs \<and> showed p ''frozen'' (flag_text b) e'"
          using e(3) by (intro exI [of _ "e # evs"] exI [of _ e']) simp
      qed (use False in auto)
      then show ?thesis
        using ev Inr False by (simp add: wp_def await_frozen.simps [of K p b d w])
    qed
  qed
qed

lemma returns_await_empty:
  "returns (await_empty K p d) w (\<lambda>_ w'. \<exists>evs. trace w' = trace w @ evs \<and> watching p evs)"
proof (induction K p d w rule: await_empty.induct)
  case (1 K p d w)
  obtain r w1 where pop: "populated K p w = (r, w1)" by (cases "populated K p w")
  show ?case
  proof (cases "\<exists>e. r = Inl e")
    case True
    then show ?thesis using pop by (auto simp: wp_def await_empty.simps [of K p d w] bind_def)
  next
    case False
    then obtain b where b: "r = Inr b" by (cases r) auto
    obtain evs where evs: "trace w1 = trace w @ evs" "watching p evs"
      using wp_Inr [OF returns_populated pop [unfolded b]] by blast
    show ?thesis
    proof (cases "now w < d \<and> b")
      case True
      have "returns (await_empty K p d) (snd (sleep K (1/50) w1)) (\<lambda>_ w'. \<exists>evs. trace w' = trace w @ evs \<and> watching p evs)"
        by (rule wp_mono [OF "1.IH" [OF _ pop [symmetric] b]]) (use True evs in \<open>auto simp: sleep_def\<close>)
      then show ?thesis using pop b True by (simp add: wp_def await_empty.simps [of K p d w])
    next
      case False
      then show ?thesis using pop b evs by (auto simp: wp_def await_empty.simps [of K p d w] bind_def ret_def)
    qed
  qed
qed

lemma returns_set_frozen:
  "returns (set_frozen K p b tm) w (\<lambda>_ w'. \<exists>evs e. trace w' = trace w @ [Write (p @ [''cgroup.freeze'']) (flag_text b) (Inr ())] @ evs @ [e] \<and>
      watching p evs \<and> showed p ''frozen'' (flag_text b) e)"
  unfolding set_frozen_def
proof (rule returns_andthen [OF returns_os_wrapped [OF returns_write_text]])
  fix w1 :: "'a world"
  assume w1: "trace w1 = trace w @ [Write (p @ [''cgroup.freeze'']) (flag_text b) (Inr ())]"
  show "returns (bind (gets now) (\<lambda>t. await_frozen K p b (t + tm))) w1
      (\<lambda>_ w'. \<exists>evs e. trace w' = trace w @ [Write (p @ [''cgroup.freeze'']) (flag_text b) (Inr ())] @ evs @ [e] \<and>
        watching p evs \<and> showed p ''frozen'' (flag_text b) e)"
    unfolding wp_bind wp_gets by (rule wp_mono [OF returns_await_frozen]) (use w1 in auto)
qed

lemma returns_identity:
  "returns (identity K c a s) w (\<lambda>ident w'. trace w' = trace w \<and>
     (\<exists>target. cg_path c a s = Inr target \<and> ci_path ident = path_text target \<and> 0 < ci_id ident))"
  unfolding identity_def wp_bind wp_lift_res
  apply (auto split: sum.splits)
  apply (rule wp_mono [OF returns_os_wrapped [OF returns_ask]])
   apply (auto simp: wp_simps)
  apply (rule wp_mono [OF returns_ask])
   apply (auto simp: wp_simps)
  done

lemma returns_freeze:
  assumes "cg_path c a s = Inr target"
  shows "returns (freeze K c a s i rp tm) w (\<lambda>ident w'. ci_id ident = i \<and> (\<exists>evs e e'.
     trace w' = trace w @ [Write (target @ [''cgroup.freeze'']) ''1'' (Inr ())] @ evs @ [e, e'] \<and>
     watching target (evs @ [e']) \<and> showed target ''frozen'' ''1'' e \<and> (rp \<longrightarrow> showed target ''populated'' ''1'' e')))"
  unfolding freeze_def
proof (rule returns_bind [OF returns_identity], rule returns_andthen [OF returns_require], goal_cases)
  case (1 ident w1 u w2)
  show ?case
    unfolding assms wp_bind wp_lift_res sum.case
  proof (rule returns_andthen [OF returns_set_frozen], rule returns_bind [OF returns_events],
      rule returns_andthen [OF returns_require], rule returns_bind [OF returns_identity],
      rule returns_andthen [OF returns_require], goal_cases)
    case (1 _ w3 vals w4 _ w5 final w6 _ w7)
    then show ?case
      using \<open>w2 = w1 \<and> ci_id ident = i\<close> by (fastforce simp: wp_ret flag_text_def \<open>trace w1 = _ \<and> _\<close>)
  qed
qed

lemma returns_wait_empty:
  assumes "cg_path c a s = Inr target"
  shows "returns (wait_empty K c a s tm) w (\<lambda>_ w'. \<exists>evs. trace w' = trace w @ evs \<and> watching target evs)"
  unfolding wait_empty_def wp_bind wp_gets wp_lift_res assms sum.case by (rule returns_await_empty)

lemma returns_quiesce_empty:
  assumes "cg_path c a s = Inr target"
  shows "returns (quiesce_empty K c a s i tm) w (\<lambda>ident w'. ci_id ident = i \<and> (\<exists>evs0 evs1 evs2 e1 e2.
     trace w' = trace w @ evs0 @ [Write (target @ [''cgroup.freeze'']) ''1'' (Inr ())] @ evs1 @ [e1] @ evs2 @ [e2] \<and>
     watching target (evs0 @ evs1 @ evs2) \<and> showed target ''frozen'' ''1'' e1 \<and> showed target ''populated'' ''0'' e2))"
  unfolding quiesce_empty_def
proof (rule returns_bind [OF returns_wait_empty [OF assms]], rule returns_andthen [OF returns_require],
    rule returns_bind [OF returns_freeze [OF assms]], goal_cases)
  case (1 _ w1 _ w2 ident w3)
  obtain evs0 where evs0: "trace w2 = trace w @ evs0" "watching target evs0" using 1(1,2) by auto
  obtain evs1 e1 e' where f: "ci_id ident = i" "watching target evs1" "watching target [e']" "showed target ''frozen'' ''1'' e1"
      "trace w3 = trace w2 @ [Write (target @ [''cgroup.freeze'']) ''1'' (Inr ())] @ evs1 @ [e1, e']"
    using 1(3) by auto
  show ?case
    unfolding assms wp_bind wp_lift_res sum.case
  proof (rule wp_mono [OF returns_events])
    fix vals and w4 :: "'a world"
    assume "\<exists>e. trace w4 = trace w3 @ [e] \<and> watching target [e] \<and> is_flag (map_of vals ''populated'') \<and>
        is_flag (map_of vals ''frozen'') \<and> (\<forall>k v. map_of vals k = Some v \<longrightarrow> showed target k v e)"
    then obtain e2 where e2: "trace w4 = trace w3 @ [e2]" "map_of vals ''populated'' = Some ''0'' \<Longrightarrow> showed target ''populated'' ''0'' e2"
      by blast
    have "trace w4 = trace w @ evs0 @ [Write (target @ [''cgroup.freeze'']) ''1'' (Inr ())] @ evs1 @ [e1] @ [e'] @ [e2]"
      using evs0 f e2 by simp
    then show "returns (andthen (require (map_of vals ''populated'' = Some ''0'') (WorkspaceError ''Session cgroup repopulated during finalization''))
        (ret ident)) w4 (\<lambda>ident w'. ci_id ident = i \<and> (\<exists>evs0 evs1 evs2 e1 e2.
          trace w' = trace w @ evs0 @ [Write (target @ [''cgroup.freeze'']) ''1'' (Inr ())] @ evs1 @ [e1] @ evs2 @ [e2] \<and>
          watching target (evs0 @ evs1 @ evs2) \<and> showed target ''frozen'' ''1'' e1 \<and> showed target ''populated'' ''0'' e2))"
      using evs0(2) f(1-4) e2(2) unfolding wp_andthen wp_require wp_ret watching_simps(3) by meson
  qed simp
qed

text \<open>The limit files were written and then read back as required.\<close>

definition sealed :: "path \<Rightarrow> kevent list \<Rightarrow> bool" where
  "sealed p evs = (\<exists>t1 t2. strip t1 = ''0'' \<and> strip t2 = ''0'' \<and> evs =
     [Write (p @ [''cgroup.max.depth'']) ''0'' (Inr ()), Write (p @ [''cgroup.max.descendants'']) ''0'' (Inr ()),
      Read (p @ [''cgroup.max.depth'']) (Inr t1), Read (p @ [''cgroup.max.descendants'']) (Inr t2)])"

lemma wp_read_text:
  "wp (read_text K p) Q E w = (case k_read K p (kern w) of (r, k) \<Rightarrow>
     (case r of Inl e \<Rightarrow> E e | Inr t \<Rightarrow> Q t) (w\<lparr>kern := k, now := now w + \<bar>k_lag K k\<bar>, trace := trace w @ [Read p r]\<rparr>))"
  by (auto simp: wp_def read_text_def kcall_def split: prod.splits sum.splits)

lemma wp_write_text:
  "wp (write_text K p t) Q E w = (case k_write K p t (kern w) of (r, k) \<Rightarrow>
     (case r of Inl e \<Rightarrow> E e | Inr u \<Rightarrow> Q u) (w\<lparr>kern := k, now := now w + \<bar>k_lag K k\<bar>, trace := trace w @ [Write p t r]\<rparr>))"
  by (auto simp: wp_def write_text_def kcall_def split: prod.splits sum.splits)

lemma returns_seal_leaf: "returns (seal_leaf K p) w (\<lambda>_ w'. \<exists>evs. trace w' = trace w @ evs \<and> sealed p evs)"
  by (simp add: seal_leaf_def LEAF_LIMITS_def os_wrapped_def wp_simps wp_read_text wp_write_text sealed_def
      split: prod.split sum.split)

lemma returns_mkdirs: "returns (mkdirs K p) w (\<lambda>_ w'. trace w' = trace w @ [Mkdirs p])"
  by (auto simp: wp_def mkdirs_def kcall_def split: prod.splits sum.splits)

lemma returns_cg_populated:
  assumes "cg_path c a s = Inr target"
  shows "returns (cg_populated K c a s) w (\<lambda>b w'. \<exists>evs. trace w' = trace w @ evs \<and> watching target evs \<and>
     (\<not> b \<longrightarrow> (\<forall>e \<in> set evs. showed target ''populated'' ''0'' e)))"
  unfolding cg_populated_def wp_bind wp_lift_res assms sum.case by (rule returns_populated)

lemma returns_attach:
  "returns (attach K c a s pid) w (\<lambda>target w'. cg_path c a s = Inr target \<and> 0 < pid \<and> (\<exists>seen thawed evs.
     trace w' = trace w @ [Mkdirs target] @ seen @ [Write (target @ [''cgroup.freeze'']) ''0'' (Inr ())] @ thawed @ evs
       @ [Write (target @ [''cgroup.procs'']) (int_str pid) (Inr ())] \<and>
     (\<forall>e \<in> set seen. showed target ''populated'' ''0'' e) \<and> thawed \<noteq> [] \<and> showed target ''frozen'' ''0'' (last thawed) \<and>
     sealed target evs))"
  unfolding attach_def
proof (rule returns_andthen [OF returns_require])
  fix u and w0 :: "'a world" assume w0: "w0 = w \<and> 0 < pid"
  show "returns (on_path c a s (\<lambda>target. andthen (mkdirs K target) (bind (cg_populated K c a s) (\<lambda>b.
       andthen (require (\<not> b) (WorkspaceError ''Session cgroup already contains processes; recover it before launch''))
       (andthen (set_frozen K target False 5) (andthen (seal_leaf K target)
       (andthen (os_wrapped ''failed to attach process to Session cgroup''
           (write_text K (target @ [''cgroup.procs'']) (int_str pid))) (ret target)))))))) w0
     (\<lambda>target w'. cg_path c a s = Inr target \<and> 0 < pid \<and> (\<exists>seen thawed evs.
     trace w' = trace w @ [Mkdirs target] @ seen @ [Write (target @ [''cgroup.freeze'']) ''0'' (Inr ())] @ thawed @ evs
       @ [Write (target @ [''cgroup.procs'']) (int_str pid) (Inr ())] \<and>
     (\<forall>e \<in> set seen. showed target ''populated'' ''0'' e) \<and> thawed \<noteq> [] \<and> showed target ''frozen'' ''0'' (last thawed) \<and>
     sealed target evs))"
  proof (cases "cg_path c a s")
    case (Inl e)
    then show ?thesis by (simp add: wp_simps)
  next
    case (Inr target)
    show ?thesis
      unfolding Inr wp_bind wp_lift_res sum.case
    proof (rule returns_andthen [OF returns_mkdirs], rule returns_bind [OF returns_cg_populated [OF Inr]],
        rule returns_andthen [OF returns_require], rule returns_andthen [OF returns_set_frozen],
        rule returns_andthen [OF returns_seal_leaf], rule returns_andthen [OF returns_os_wrapped [OF returns_write_text]],
        goal_cases)
      case (1 _ w1 b w2 _ w3 _ w4 _ w5 _ w6)
      obtain seen where seen: "trace w3 = trace w @ [Mkdirs target] @ seen" "\<forall>e \<in> set seen. showed target ''populated'' ''0'' e"
        using 1(1-3) w0 by auto
      obtain th e where th: "trace w4 = trace w3 @ [Write (target @ [''cgroup.freeze'']) ''0'' (Inr ())] @ th @ [e]"
          "showed target ''frozen'' ''0'' e"
        using 1(4) by (auto simp: flag_text_def)
      obtain evs where evs: "trace w6 = trace w4 @ evs @ [Write (target @ [''cgroup.procs'']) (int_str pid) (Inr ())]" "sealed target evs"
        using 1(5,6) by auto
      have "\<exists>seen thawed evs.
         trace w6 = trace w @ [Mkdirs target] @ seen @ [Write (target @ [''cgroup.freeze'']) ''0'' (Inr ())] @ thawed @ evs
           @ [Write (target @ [''cgroup.procs'']) (int_str pid) (Inr ())] \<and>
         (\<forall>e \<in> set seen. showed target ''populated'' ''0'' e) \<and> thawed \<noteq> [] \<and> showed target ''frozen'' ''0'' (last thawed) \<and>
         sealed target evs"
        by (rule exI [of _ seen], rule exI [of _ "th @ [e]"], rule exI [of _ evs]) (use seen th evs in simp)
      then show ?case using w0 by (simp add: wp_ret)
    qed
  qed
qed

section \<open>Mount points and paths\<close>

text \<open>How the kernel writes a path into \<^verbatim>\<open>mountinfo\<close>.\<close>

definition mangle_char :: "char \<Rightarrow> string" where
  "mangle_char ch =
     (if ch = CHR '' '' then esc ''040'' else if ch = CHR 0x09 then esc ''011''
      else if ch = CHR 0x0A then esc ''012'' else if ch = CHR 0x5C then esc ''134'' else [ch])"

definition mangle :: "string \<Rightarrow> string" where
  "mangle t = concat (map mangle_char t)"

text \<open>
  Text made of tokens: plain characters and escapes of three digits. Replacing one escape turns
  the tokens equal to it and leaves the others, since a backslash begins every escape.
\<close>

definition token :: "string \<Rightarrow> bool" where
  "token t = ((\<exists>ch. t = [ch] \<and> ch \<noteq> CHR 0x5C) \<or>
     (\<exists>d1 d2 d3. t = esc [d1, d2, d3] \<and> CHR 0x5C \<notin> {d1, d2, d3}))"

lemma py_replace_tokens:
  assumes "\<forall>t \<in> set ts. token t" and "CHR 0x5C \<notin> {p1, p2, p3}"
  shows "py_replace (esc [p1, p2, p3]) r (concat ts) = concat (map (\<lambda>t. if t = esc [p1, p2, p3] then r else t) ts)"
  using assms
proof (induction ts)
  case (Cons t ts)
  then consider ch where "t = [ch]" "ch \<noteq> CHR 0x5C"
    | d1 d2 d3 where "t = esc [d1, d2, d3]" "CHR 0x5C \<notin> {d1, d2, d3}"
    by (auto simp: token_def)
  then show ?case
    using Cons by cases (auto simp: esc_def startswith_def)
qed simp

lemma unescape_mangle:
  "unescape_mount (mangle t) = t"
proof -
  let ?step = "\<lambda>d r t. if t = esc d then r else t"
  let ?t0 = "map mangle_char t"
  let ?t1 = "map (?step ''040'' '' '') ?t0"
  let ?t2 = "map (?step ''011'' [CHR 0x09]) ?t1"
  let ?t3 = "map (?step ''012'' [CHR 0x0A]) ?t2"
  let ?t4 = "map (?step ''134'' [CHR 0x5C]) ?t3"
  have t0: "\<forall>x \<in> set ?t0. token x" by (auto simp: mangle_char_def token_def esc_def)
  then have t1: "\<forall>x \<in> set ?t1. token x" by (auto simp: token_def)
  then have t2: "\<forall>x \<in> set ?t2. token x" by (auto simp: token_def)
  then have t3: "\<forall>x \<in> set ?t3. token x" by (auto simp: token_def)
  have s1: "py_replace (esc ''040'') '' '' (concat ?t0) = concat ?t1" by (rule py_replace_tokens [OF t0]) simp
  have s2: "py_replace (esc ''011'') [CHR 0x09] (concat ?t1) = concat ?t2" by (rule py_replace_tokens [OF t1]) simp
  have s3: "py_replace (esc ''012'') [CHR 0x0A] (concat ?t2) = concat ?t3" by (rule py_replace_tokens [OF t2]) simp
  have s4: "py_replace (esc ''134'') [CHR 0x5C] (concat ?t3) = concat ?t4" by (rule py_replace_tokens [OF t3]) simp
  have "unescape_mount (mangle t) = concat ?t4"
    unfolding unescape_mount_def mangle_def by (simp only: s1 s2 s3 s4)
  also have "\<dots> = t" by (induction t) (auto simp: mangle_char_def esc_def)
  finally show ?thesis .
qed

lemma longest_None: "longest ms = None \<longleftrightarrow> ms = []"
  by (cases ms) (auto split: option.splits)

lemma longest_Some: "longest ms = Some m \<Longrightarrow> m \<in> set ms \<and> (\<forall>n \<in> set ms. length n \<le> length m)"
proof (induction ms arbitrary: m)
  case (Cons a ms)
  then show ?case
    by (cases "longest ms") (auto simp: longest_None split: if_splits intro: order_trans less_imp_le)
qed simp

lemma cg_path_Inr: "cg_path c a s = Inr p \<longleftrightarrow>
    ID_RE_fullmatch a \<and> ID_RE_fullmatch s \<and> p = cg_root c @ [''agents'', a, ''sessions'', s]"
  by (auto simp: cg_path_def bindR_eq_Inr)

section \<open>Time\<close>

lemma now_kcall_le: "(\<And>k. \<bar>k_lag K k\<bar> \<le> L) \<Longrightarrow> now (snd (kcall K ev f w)) \<le> now w + L"
  by (auto simp: kcall_def split: prod.splits)

lemma now_events_le: "(\<And>k. \<bar>k_lag K k\<bar> \<le> L) \<Longrightarrow> now (snd (events K p w)) \<le> now w + L"
  using now_kcall_le [of K L "\<lambda>r. [Read (p @ [''cgroup.events'']) r]" "k_read K (p @ [''cgroup.events''])" w]
  by (auto simp: events_def read_text_def bind_def catch_def raise_def ret_def lift_res_def split: prod.splits sum.splits)

lemma now_populated_le:
  assumes "\<And>k. \<bar>k_lag K k\<bar> \<le> L"
  shows "now (snd (populated K p w)) \<le> now w + 2 * L"
proof -
  let ?m = "path_exists K (p @ [''cgroup.events''])"
  have "0 \<le> L" using assms [of undefined] by linarith
  moreover have "now (snd (?m w)) \<le> now w + L" by (simp add: path_exists_def ask_def now_kcall_le assms)
  moreover have "now (snd (events K p (snd (?m w)))) \<le> now (snd (?m w)) + L" by (rule now_events_le [OF assms])
  ultimately show ?thesis
    by (auto simp: populated_def bind_def ret_def split: prod.splits sum.splits)
qed

lemma now_await_frozen_le:
  assumes lag: "\<And>k. \<bar>k_lag K k\<bar> \<le> L"
  shows "now (snd (await_frozen K p b d w)) \<le> max (now w) (d + 1/100 + L) + L"
proof (induction K \<equiv> K p b d w rule: await_frozen.induct)
  case (1 p b d w)
  obtain r w1 where ev: "events K p w = (r, w1)" by (cases "events K p w")
  have w1: "now w1 \<le> now w + L" using now_events_le [OF lag, where p = p and w = w] ev by simp
  show ?case
  proof (cases "\<exists>vals. r = Inr vals \<and> map_of vals ''frozen'' \<noteq> Some (flag_text b) \<and> \<not> d \<le> now w1")
    case True
    then obtain vals where v: "r = Inr vals" "map_of vals ''frozen'' \<noteq> Some (flag_text b)" "\<not> d \<le> now w1" by blast
    have "now (snd (sleep K (1/100) w1)) \<le> d + 1/100 + L"
      using lag [of "kern w1"] v(3) by (simp add: sleep_def)
    then show ?thesis
      using "1.hyps" [OF ev [symmetric] v] v ev by (simp add: await_frozen.simps [of K p b d w])
  next
    case False
    then show ?thesis
      using ev w1 by (auto simp: await_frozen.simps [of K p b d w] split: sum.splits)
  qed
qed

lemma now_await_empty_le:
  assumes lag: "\<And>k. \<bar>k_lag K k\<bar> \<le> L"
  shows "now (snd (await_empty K p d w)) \<le> max (now w) (d + 1/50 + 3 * L) + 2 * L"
proof (induction K \<equiv> K p d w rule: await_empty.induct)
  case (1 p d w)
  obtain r w1 where pop: "populated K p w = (r, w1)" by (cases "populated K p w")
  have w1: "now w1 \<le> now w + 2 * L" using now_populated_le [OF lag, where p = p and w = w] pop by simp
  show ?case
  proof (cases "now w < d \<and> r = Inr True")
    case True
    have "now (snd (sleep K (1/50) w1)) \<le> d + 1/50 + 3 * L"
      using lag [of "kern w1"] True w1 by (simp add: sleep_def)
    then show ?thesis
      using "1.hyps" [OF _ pop [symmetric], of True] True pop by (simp add: await_empty.simps [of K p d w])
  next
    case False
    then show ?thesis
      using pop w1 by (auto simp: await_empty.simps [of K p d w] bind_def ret_def split: sum.splits)
  qed
qed

section \<open>Properties\<close>

text \<open>
  C18. The terminal boundary of an execution: when \<open>quiesce_empty\<close> returns an identity, it is the
  cgroup the caller expected, and on that cgroup the freezer was set, later the kernel reported it
  frozen, and after that reported it unpopulated; the only write of the whole procedure is the one
  to the freezer, so nothing was thawed or attached in between.
\<close>

theorem quiesce_empty_observed:
  assumes "quiesce_empty K c a s i tm w = (Inr ident, w')"
  shows "ci_id ident = i \<and> (\<exists>evs0 evs1 evs2 e1 e2 target.
     target = cg_root c @ [''agents'', a, ''sessions'', s] \<and>
     trace w' = trace w @ evs0 @ [Write (target @ [''cgroup.freeze'']) ''1'' (Inr ())] @ evs1 @ [e1] @ evs2 @ [e2] \<and>
     watching target (evs0 @ evs1 @ evs2) \<and> showed target ''frozen'' ''1'' e1 \<and> showed target ''populated'' ''0'' e2)"
proof -
  obtain target where t: "cg_path c a s = Inr target"
    using assms by (cases "cg_path c a s") (auto simp: quiesce_empty_def wait_empty_def io_defs)
  from wp_Inr [OF returns_quiesce_empty [OF t] assms] t show ?thesis
    unfolding cg_path_Inr by blast
qed

text \<open>
  A process enters a Session cgroup last: when \<open>attach\<close> returns, every look at the population
  showed an empty cgroup, the cgroup was thawed and acknowledged, its depth and descendant limits
  were written and read back as zero, and only then was the process written into it.
\<close>

theorem attach_seals_first:
  assumes "attach K c a s pid w = (Inr target, w')"
  shows "target = cg_root c @ [''agents'', a, ''sessions'', s] \<and> 0 < pid \<and> (\<exists>seen thawed evs.
     trace w' = trace w @ [Mkdirs target] @ seen @ [Write (target @ [''cgroup.freeze'']) ''0'' (Inr ())] @ thawed @ evs
       @ [Write (target @ [''cgroup.procs'']) (int_str pid) (Inr ())] \<and>
     (\<forall>e \<in> set seen. showed target ''populated'' ''0'' e) \<and> thawed \<noteq> [] \<and> showed target ''frozen'' ''0'' (last thawed) \<and>
     sealed target evs)"
  using wp_Inr [OF returns_attach assms] unfolding cg_path_Inr by blast

text \<open>
  C19. Bounded waiting: the two polling loops always return, and if no file operation takes longer
  than \<open>L\<close> seconds, a freeze or thaw request ends at most three operations and one pause after
  its time limit, a wait for emptiness at most five operations and one pause after.
\<close>

theorem polling_bounded:
  assumes "\<And>k. \<bar>k_lag K k\<bar> \<le> L" and "0 \<le> tm"
  shows "now (snd (set_frozen K p b tm w)) \<le> now w + tm + 1/100 + 3 * L \<and>
    now (snd (wait_empty K c a s tm w)) \<le> now w + tm + 1/50 + 5 * L"
proof -
  have L: "0 \<le> L" using assms(1) [of undefined] by linarith
  let ?wr = "os_wrapped (''failed to '' @ freeze_action b @ '' Session cgroup'')
        (write_text K (p @ [''cgroup.freeze'']) (flag_text b))"
  obtain r v where v: "?wr w = (r, v)" by (cases "?wr w")
  have "now v \<le> now w + L"
    using v now_kcall_le [OF assms(1), where w = w and f = "k_write K (p @ [''cgroup.freeze'']) (flag_text b)"
        and ev = "\<lambda>r. [Write (p @ [''cgroup.freeze'']) (flag_text b) r]"]
    by (auto simp: os_wrapped_def write_text_def catch_def raise_def split: prod.splits sum.splits if_splits)
  moreover have "now (snd (await_frozen K p b (now v + tm) v)) \<le> now v + tm + 1/100 + 2 * L"
    using now_await_frozen_le [OF assms(1), where p = p and b = b and d = "now v + tm" and w = v] assms(2) L by simp
  moreover have "set_frozen K p b tm w = (case r of Inl e \<Rightarrow> (Inl e, v) | Inr _ \<Rightarrow> await_frozen K p b (now v + tm) v)"
    using v by (simp add: set_frozen_def andthen_def bind_def gets_def split: sum.split)
  ultimately have "now (snd (set_frozen K p b tm w)) \<le> now w + tm + 1/100 + 3 * L"
    using L assms(2) by (cases r) simp_all
  moreover have "now (snd (await_empty K q (now w + tm) w)) \<le> now w + tm + 1/50 + 5 * L" for q
    using now_await_empty_le [OF assms(1), where p = q and d = "now w + tm" and w = w] assms(2) L by simp
  ultimately show ?thesis
    using L assms(2) by (auto simp: wait_empty_def bind_def gets_def lift_res_def split: sum.splits)
qed

text \<open>
  Every Session has its own cgroup below the configured root: the path of one Session is neither
  that of another nor above or below it.
\<close>

theorem session_cgroups_disjoint:
  assumes "cg_path c a s = Inr p" and "cg_path c a' s' = Inr q" and "is_prefix p q"
  shows "a = a' \<and> s = s' \<and> is_prefix (cg_root c) p \<and> p \<noteq> cg_root c"
  using assms unfolding cg_path_Inr is_prefix_def by auto

theorem session_cgroups_disjoint_witness:
  "is_prefix [''r''] [''r'', ''agents'', ''x'', ''sessions'', ''y'']"
  using session_cgroups_disjoint [of "\<lparr>cg_root = [''r''], cg_mount = []\<rparr>" "''x''" "''y''"
      "[''r'', ''agents'', ''x'', ''sessions'', ''y'']" "''x''" "''y''" "[''r'', ''agents'', ''x'', ''sessions'', ''y'']"]
  by (simp add: cg_path_Inr is_prefix_def ID_RE_fullmatch_def id_start_char_def is_alpha_def)

text \<open>
  The mount table is read back exactly: undoing the octal escapes one after the other recovers
  every path the kernel wrote with them, also one that itself contains text looking like an escape.
\<close>

theorem mountinfo_roundtrip: "unescape_mount (mangle t) = t"
  by (rule unescape_mangle)

section \<open>A kernel that answers at once\<close>

text \<open>The hypotheses of the properties hold of a kernel with a single empty, sealed cgroup.\<close>

definition demo_kernel :: "string cgroupfs" where
  "demo_kernel = \<lparr>
     k_read = (\<lambda>p fz. if last p = ''cgroup.events'' then (Inr (''populated 0'' @ [CHR 0x0A] @ ''frozen '' @ fz @ [CHR 0x0A]), fz)
                        else (Inr ''0'', fz)),
     k_write = (\<lambda>p t fz. (Inr (), if last p = ''cgroup.freeze'' then t else fz)),
     k_exists = (\<lambda>p fz. True), k_mkdirs = (\<lambda>p fz. (Inr (), fz)), k_rmdir = (\<lambda>p fz. (Inr (), fz)),
     k_lstat = (\<lambda>p fz. Inr (Directory, 7)),
     k_resolve = (\<lambda>t fz. Inr (tl (split_on CHR ''/'' t))),
     k_subdirs = (\<lambda>p fz. Inr []), k_lag = (\<lambda>fz. 0)\<rparr>"

abbreviation "demo_cg \<equiv> \<lparr>cg_root = [''r''], cg_mount = []\<rparr>"
abbreviation "demo_world \<equiv> \<lparr>kern = ''0'', now = 0, trace = []\<rparr>"

lemma demo_quiesce: "(case quiesce_empty demo_kernel demo_cg ''x'' ''y'' 7 5 demo_world of
    (Inr i, w) \<Rightarrow> ci_id i = 7 \<and> length (trace w) = 5 | _ \<Rightarrow> False)"
  by code_simp

lemma demo_attach: "(case attach demo_kernel demo_cg ''x'' ''y'' 42 demo_world of
    (Inr t, w) \<Rightarrow> length (trace w) = 9 | _ \<Rightarrow> False)"
  by code_simp

theorem quiesce_empty_observed_witness:
  "\<exists>ident w'. quiesce_empty demo_kernel demo_cg ''x'' ''y'' 7 5 demo_world = (Inr ident, w') \<and> ci_id ident = 7"
proof -
  obtain ident w' where run: "quiesce_empty demo_kernel demo_cg ''x'' ''y'' 7 5 demo_world = (Inr ident, w')"
    using demo_quiesce by (auto split: prod.splits sum.splits)
  from quiesce_empty_observed [OF run] run show ?thesis by blast
qed

theorem attach_seals_first_witness:
  "\<exists>target w' evs. attach demo_kernel demo_cg ''x'' ''y'' 42 demo_world = (Inr target, w') \<and> sealed target evs"
proof -
  obtain target w' where run: "attach demo_kernel demo_cg ''x'' ''y'' 42 demo_world = (Inr target, w')"
    using demo_attach by (auto split: prod.splits sum.splits)
  from attach_seals_first [OF run] run show ?thesis by blast
qed

theorem polling_bounded_witness: "now (snd (set_frozen demo_kernel [''r''] True 5 demo_world)) \<le> 5 + 1/100"
  using polling_bounded [of demo_kernel 0 5 "[''r'']" True demo_world demo_cg "''x''" "''y''"]
  by (simp add: demo_kernel_def)

end
