(* ===== verification/Process_Service.thy ===== *)
theory Process_Service
  imports Workspace_Operations Execution_Registry Sandboxing Session_Cgroup
begin

text \<open>
  The state of \<open>ProcessTrackingService\<close> in
  \<^verbatim>\<open>src/src/allox/runtime/process_tracking/service.py\<close> and its operations apart from launch
  and finalisation: the audit directory with its atomic state files, recovery of runs after a
  restart, request validation, event recording and the queries. The service acts on a world made of
  the workspace store, the execution registry, the cgroup file system, the audit directory and a
  host whose processes and observation backend are a parameter. Runs keep the handles of the
  lifecycle plugins, which act on that world, so the service state stands beside it.
\<close>

section \<open>World and state\<close>

record adir =
  state_file :: "jdict option"
  temp_files :: nat
  event_lines :: "jdict list"

record ('k, 'e) pworld =
  pw_store :: store
  pw_reg :: registry
  pw_cg :: "'k world"
  pw_audit :: "(string, adir) dict"
  pw_ext :: 'e

datatype wait_status = NotYet | Stopped | Exited int

text \<open>
  The host: processes of the gate, pinned process descriptors, the observation backend and
  \<open>os_disk\<close>, which decides whether a write to the audit disk raises.
\<close>

record 'e host =
  os_spawn :: "('e, int) op"
  os_configure :: "int \<Rightarrow> json \<Rightarrow> ('e, unit) op"
  os_waitpid :: "int \<Rightarrow> ('e, wait_status) op"
  os_poll :: "int \<Rightarrow> ('e, int option) op"
  os_kill :: "int \<Rightarrow> ('e, unit) op"
  os_cont :: "int \<Rightarrow> ('e, unit) op"
  os_wait :: "int \<Rightarrow> rat option \<Rightarrow> ('e, int) op"
  os_pidfd_open :: "int \<Rightarrow> ('e, int) op"
  os_pidfd_close :: "int \<Rightarrow> ('e, unit) op"
  os_pidfd_signal :: "int \<Rightarrow> int \<Rightarrow> ('e, unit) op"
  os_proc_status :: "int \<Rightarrow> ('e, string) op"
  os_namespace :: "int \<Rightarrow> string \<Rightarrow> ('e, int) op"
  os_disk :: "('e, unit) op"
  os_time_ns :: "'e \<Rightarrow> int"
  b_name :: string
  b_status :: "('e, jdict) op"
  b_seed :: "int \<Rightarrow> int \<Rightarrow> ('e, unit) op"
  b_finish :: "int \<Rightarrow> int \<Rightarrow> ('e, unit) op"
  b_close :: "('e, unit) op"

record 'w run =
  r_row :: jdict
  r_process :: "int option"
  r_lease :: string
  r_stop_reason :: "string option"
  r_done :: bool
  r_timer :: bool
  r_exited :: bool
  r_feature :: "'w active option"
  r_identity :: "cg_identity option"
  r_target :: "int option"
  r_plan :: "execution_recovery_plan option"

record 'w pstate =
  p_features :: "'w manager option"
  p_audit_root :: string
  p_runs :: "(string, 'w run) dict"
  p_cookies :: "(int, string) dict"
  p_closed :: bool
  p_launcher_closed :: bool
  p_backend_error :: "string option"
  p_next_epoch :: int
  p_boot_id :: string

type_synonym ('k, 'e) ps = "('k, 'e) pworld pstate \<times> ('k, 'e) pworld"
type_synonym ('k, 'e, 'a) pop = "(('k, 'e) ps, 'a) op"

definition in_ext :: "('e, 'a) op \<Rightarrow> (('k, 'e) pworld, 'a) op" where
  "in_ext m = (\<lambda>w. case m (pw_ext w) of (r, e) \<Rightarrow> (r, w\<lparr>pw_ext := e\<rparr>))"

definition in_store :: "'a sop \<Rightarrow> (('k, 'e) pworld, 'a) op" where
  "in_store m = (\<lambda>w. case m (pw_store w) of (r, s) \<Rightarrow> (r, w\<lparr>pw_store := s\<rparr>))"

definition in_reg :: "'a rop \<Rightarrow> (('k, 'e) pworld, 'a) op" where
  "in_reg m = (\<lambda>w. case m (pw_reg w) of (r, g) \<Rightarrow> (r, w\<lparr>pw_reg := g\<rparr>))"

definition in_cg :: "('k, 'a) kop \<Rightarrow> (('k, 'e) pworld, 'a) op" where
  "in_cg m = (\<lambda>w. case m (pw_cg w) of (r, c) \<Rightarrow> (r, w\<lparr>pw_cg := c\<rparr>))"

abbreviation on_ext :: "('e, 'a) op \<Rightarrow> ('k, 'e, 'a) pop" where "on_ext m \<equiv> on_world (in_ext m)"
abbreviation on_st :: "'a sop \<Rightarrow> ('k, 'e, 'a) pop" where "on_st m \<equiv> on_world (in_store m)"
abbreviation on_rg :: "'a rop \<Rightarrow> ('k, 'e, 'a) pop" where "on_rg m \<equiv> on_world (in_reg m)"
abbreviation on_cg :: "('k, 'a) kop \<Rightarrow> ('k, 'e, 'a) pop" where "on_cg m \<equiv> on_world (in_cg m)"

definition world_get :: "('w \<Rightarrow> 'a) \<Rightarrow> ('s \<times> 'w, 'a) op" where
  "world_get f = gets (\<lambda>(_, w). f w)"

section \<open>Stable launcher\<close>

definition launcher_spawn :: "'e host \<Rightarrow> ('k, 'e, int) pop" where
  "launcher_spawn H =
     bind (own p_launcher_closed) (\<lambda>closed.
     andthen (require (\<not> closed) (WorkspaceError ''process launcher is closed''))
     (on_ext (os_spawn H)))"

definition launcher_close :: "('k, 'e, unit) pop" where
  "launcher_close = own_modify (\<lambda>p. p\<lparr>p_launcher_closed := True\<rparr>)"

section \<open>Audit root\<close>

definition WORKLOAD_VISIBLE_HOST_ROOTS :: "path list" where
  "WORKLOAD_VISIBLE_HOST_ROOTS = [[''usr''], [''etc'']]"

text \<open>
  The checks of \<open>_prepare_audit_root\<close> on resolved paths; \<open>visible\<close> are the resolved roots of
  \<^const>\<open>WORKLOAD_VISIBLE_HOST_ROOTS\<close>, \<open>prepare\<close> creates and restricts the directory and returns
  whether the daemon owns it and its permission bits.
\<close>

definition prepare_audit_root :: "path list \<Rightarrow> (path \<Rightarrow> ('w, bool \<times> int) op) \<Rightarrow> path \<Rightarrow> path \<Rightarrow> ('w, path) op" where
  "prepare_audit_root visible prepare audit store_root =
     andthen (require (audit \<noteq> []) (WorkspaceError ''process audit directory cannot be the host root''))
     (andthen (require (\<not> is_prefix store_root audit \<and> \<not> is_prefix audit store_root)
        (WorkspaceError ''process audit directory must be disjoint from the workspace store''))
     (andthen (require (\<not> list_ex (\<lambda>v. is_prefix v audit) visible)
        (WorkspaceError ''process audit directory cannot be below a host tree visible to workloads''))
     (bind (catch is_OSError (prepare audit)
        (\<lambda>e. raise (WorkspaceError (''failed to prepare process audit directory: '' @ exc_text e)))) (\<lambda>(owned, mode).
      andthen (require (owned \<and> mode mod 64 = 0)
        (WorkspaceError ''process audit directory must be private and daemon-owned''))
      (ret audit)))))"

section \<open>State files\<close>

text \<open>
  \<open>_save\<close>: the temporary file is written and then replaces the state file; either step may raise.
\<close>

definition upd_dir :: "string \<Rightarrow> (adir \<Rightarrow> adir) \<Rightarrow> ('k, 'e) pworld \<Rightarrow> ('k, 'e) pworld" where
  "upd_dir rid f w = w\<lparr>pw_audit := (case map_of (pw_audit w) rid of None \<Rightarrow> pw_audit w
      | Some d \<Rightarrow> dict_set rid (f d) (pw_audit w))\<rparr>"

text \<open>One step on the audit disk: it raises, or the change is made; a missing directory raises.\<close>

definition disk_step :: "'e host \<Rightarrow> string \<Rightarrow> (adir \<Rightarrow> adir) \<Rightarrow> (('k, 'e) pworld, unit) op" where
  "disk_step H rid f =
     andthen (in_ext (os_disk H))
     (bind (gets (\<lambda>w. map_of (pw_audit w) rid)) (\<lambda>d.
      if d = None then raise (FileNotFoundError ''no such audit directory'') else modify (upd_dir rid f)))"

definition row_item :: "jdict \<Rightarrow> string \<Rightarrow> json res" where
  "row_item row k = (case map_of row k of None \<Rightarrow> Inl KeyError | Some v \<Rightarrow> Inr v)"

definition row_text :: "jdict \<Rightarrow> string \<Rightarrow> string res" where
  "row_text row k = bindR (row_item row k) (\<lambda>v. case v of JStr t \<Rightarrow> Inr t | _ \<Rightarrow> Inl TypeError)"

definition save :: "'e host \<Rightarrow> jdict \<Rightarrow> (('k, 'e) pworld, unit) op" where
  "save H row =
     bind (lift_res (row_text row ''audit_directory'')) (\<lambda>dir.
     andthen (disk_step H dir id)
     (disk_step H dir (\<lambda>d. d\<lparr>state_file := Some row\<rparr>)))"

definition as_commit_error :: "string \<Rightarrow> error \<Rightarrow> error" where
  "as_commit_error what e = WorkspaceError (what @ '': '' @ exc_text e)"

text \<open>
  \<open>_save_durable\<close>: open the directory, create a temporary file, write and sync it, rename it over the
  state file, sync the directory. A failure after the creation unlinks the temporary file, whose own
  failure is ignored.
\<close>

definition save_durable :: "'e host \<Rightarrow> jdict \<Rightarrow> (('k, 'e) pworld, unit) op" where
  "save_durable H row =
     bind (lift_res (row_text row ''audit_directory'')) (\<lambda>dir.
     let unlink = catch is_OSError (disk_step H dir (\<lambda>d. d\<lparr>temp_files := temp_files d - 1\<rparr>)) (\<lambda>_. ret ()) in
      andthen (catch is_OSError (disk_step H dir id)
        (\<lambda>e. raise (as_commit_error ''failed to open process audit directory'' e)))
      (andthen (catch is_OSError (disk_step H dir (\<lambda>d. d\<lparr>temp_files := temp_files d + 1\<rparr>))
        (\<lambda>e. raise (as_commit_error ''failed to create durable process state'' e)))
      (andthen (catch (\<lambda>_. True)
         (andthen (disk_step H dir id)
         (andthen (disk_step H dir id)
           (disk_step H dir (\<lambda>d. d\<lparr>state_file := Some row, temp_files := temp_files d - 1\<rparr>))))
         (\<lambda>e. andthen unlink (raise (if is_OSError e then as_commit_error ''failed to commit durable process state'' e else e))))
      (catch is_OSError (disk_step H dir id)
        (\<lambda>e. raise (as_commit_error ''failed to commit durable process state'' e))))))"

section \<open>Recovery after a restart\<close>

text \<open>The children of the audit root that hold a state file: \<open>audit_root.glob("*/state.json")\<close>.\<close>

definition is_child :: "string \<Rightarrow> string \<Rightarrow> bool" where
  "is_child r d = (startswith d (r @ ''/'') \<and> CHR ''/'' \<notin> set (drop (length r + 1) d) \<and> length r + 1 < length d)"

definition state_files :: "string \<Rightarrow> (string, adir) dict \<Rightarrow> jdict list" where
  "state_files r ds = List.map_filter (\<lambda>(d, f). if is_child r d then state_file f else None) ds"

definition interrupt_status :: "json \<Rightarrow> json" where
  "interrupt_status v = (case v of
      JObj st \<Rightarrow> if jget st ''status'' \<noteq> JStr ''finalized'' then JObj (dict_set ''status'' (JStr ''interrupted'') st) else v
    | _ \<Rightarrow> v)"

definition forget_alive :: "json \<Rightarrow> json res" where
  "forget_alive v = (case v of
      JObj task \<Rightarrow> Inr (if truthy (jget task ''alive'') then JObj (dict_set ''alive'' JNull task) else v)
    | _ \<Rightarrow> Inl AttributeError)"

definition interrupt_row :: "jdict \<Rightarrow> jdict res" where
  "interrupt_row row0 =
     (let row1 = dict_set ''trace_complete'' (JBool False) (dict_set ''session_fenced'' (JBool True)
                   (dict_set ''state'' (JStr ''interrupted'') row0));
          row2 = (case jget row1 ''feature_runs'' of
             JObj fr \<Rightarrow> dict_set ''feature_runs'' (JObj (map (\<lambda>(n, v). (n, interrupt_status v)) fr)) row1
           | _ \<Rightarrow> row1)
      in bindR (row_item row2 ''processes'') (\<lambda>ps. case ps of
           JObj tasks \<Rightarrow> bindR (mapR (\<lambda>(n, v). bindR (forget_alive v) (\<lambda>v'. Inr (n, v'))) tasks)
             (\<lambda>tasks'. Inr (dict_set ''processes'' (JObj tasks') row2))
         | _ \<Rightarrow> Inl AttributeError))"

definition epoch_after :: "jdict \<Rightarrow> int \<Rightarrow> int" where
  "epoch_after row n = (case jget row ''run_epoch'' of JInt k \<Rightarrow> if 0 < k then max n (k + 1) else n | _ \<Rightarrow> n)"

definition needs_fence :: "jdict \<Rightarrow> bool res" where
  "needs_fence row =
     bindR (row_item row ''state'') (\<lambda>st.
     bindR (in_str_set st [''starting'', ''running'']) (\<lambda>live.
     Inr (live \<or> truthy (jget row ''session_fenced''))))"

text \<open>
  The loop of \<open>__init__\<close> over the state files; \<open>tok\<close> is the lease token drawn for a Session.
\<close>

fun recover_rows ::
  "'e host \<Rightarrow> (session_key \<Rightarrow> string) \<Rightarrow> jdict list \<Rightarrow> session_key set \<Rightarrow> int \<Rightarrow> (('k, 'e) pworld, int) op" where
  "recover_rows H tok [] seen n = ret n"
| "recover_rows H tok (row # rows) seen n =
     (let n' = epoch_after row n in
      bind (lift_res (needs_fence row)) (\<lambda>fence.
      if \<not> fence then recover_rows H tok rows seen n'
      else bind (lift_res (interrupt_row row)) (\<lambda>row'.
        andthen (save H row')
        (bind (lift_res (row_text row' ''agent_id'')) (\<lambda>a.
         bind (lift_res (row_text row' ''session_id'')) (\<lambda>s.
         if (a, s) \<in> seen then recover_rows H tok rows seen n'
         else andthen (in_reg (acquire a s False (tok (a, s)))) (recover_rows H tok rows (insert (a, s) seen) n')))))))"

definition new_pstate :: "string \<Rightarrow> string \<Rightarrow> int \<Rightarrow> 'w pstate" where
  "new_pstate audit boot n = \<lparr>p_features = None, p_audit_root = audit, p_runs = [], p_cookies = [], p_closed = False,
     p_launcher_closed = False, p_backend_error = None, p_next_epoch = n, p_boot_id = boot\<rparr>"

definition process_init ::
  "'e host \<Rightarrow> (session_key \<Rightarrow> string) \<Rightarrow> string \<Rightarrow> string \<Rightarrow> (('k, 'e) pworld, ('k, 'e) pworld pstate) op" where
  "process_init H tok audit boot =
     bind (gets (\<lambda>w. state_files audit (pw_audit w))) (\<lambda>rows.
     bind (recover_rows H tok rows {} 1) (\<lambda>n. ret (new_pstate audit boot n)))"

definition process_status :: "'e host \<Rightarrow> session_cgroup \<Rightarrow> ('k, 'e, json) pop" where
  "process_status H c =
     bind (on_ext (b_status H)) (\<lambda>d.
     bind (own p_audit_root) (\<lambda>r.
     ret (JObj (dict_merge d [(''enabled'', JBool (b_name H \<noteq> ''disabled'')), (''execution_enabled'', JBool True),
        (''cgroup_root'', JStr (path_text (cg_root c))), (''audit_root'', JStr r), (''isolation'', JStr ''bubblewrap'')]))))"

section \<open>Requests\<close>

definition valid_arg :: "json \<Rightarrow> bool" where
  "valid_arg v = (case v of JStr t \<Rightarrow> CHR 0x00 \<notin> set t | _ \<Rightarrow> False)"

definition valid_timeout :: "json \<Rightarrow> bool" where
  "valid_timeout t = (case t of JInt i \<Rightarrow> 0 < i \<and> i \<le> 86400
     | JFloat (Finite q) \<Rightarrow> 0 < q \<and> q \<le> 86400
     | _ \<Rightarrow> False)"

definition valid_env_entry :: "string \<times> json \<Rightarrow> bool" where
  "valid_env_entry kv = (case kv of (k, JStr v) \<Rightarrow> k \<noteq> [] \<and> CHR ''='' \<notin> set k \<and> CHR 0x00 \<notin> set (k @ v) | _ \<Rightarrow> False)"

definition validate_start :: "json \<Rightarrow> json \<Rightarrow> json \<Rightarrow> unit res" where
  "validate_start argv env timeout =
     bindR (checkR (case argv of JList (x # xs) \<Rightarrow> list_all valid_arg (x # xs) \<and> x \<noteq> JStr [] | _ \<Rightarrow> False)
       (WorkspaceError ''argv must be a nonempty array of nonempty strings'')) (\<lambda>_.
     bindR (checkR (valid_timeout timeout) (WorkspaceError ''timeout must be in (0, 86400] seconds'')) (\<lambda>_.
     checkR (case env of JNull \<Rightarrow> True | JObj d \<Rightarrow> list_all valid_env_entry d | _ \<Rightarrow> False)
       (WorkspaceError ''env must be a string mapping with valid environment names'')))"

definition validate_trace_context :: "'w manager option \<Rightarrow> json \<Rightarrow> unit res" where
  "validate_trace_context fm tc = (case tc of
      JNull \<Rightarrow> Inr ()
    | JObj d \<Rightarrow>
        bindR (checkR (set (dict_keys d) = {''trace_id'', ''span_id''})
          (WorkspaceError ''trace_context requires trace_id and span_id'')) (\<lambda>_.
        bindR (mapR (\<lambda>(n, v). case v of JStr t \<Rightarrow> validate_id n t
             | _ \<Rightarrow> Inl (WorkspaceError ''trace_context IDs must be strings'')) d) (\<lambda>_.
        checkR (case fm of None \<Rightarrow> False | Some m \<Rightarrow> ''agent-monitor'' \<in> set (fm_names m))
          (WorkspaceError ''trace_context requires the agent-monitor plugin'')))
    | _ \<Rightarrow> Inl (WorkspaceError ''trace_context requires trace_id and span_id''))"

definition plan_keys :: "string list" where
  "plan_keys = [''checkpoint_id'', ''recovery_id'', ''scrub_runtime'', ''require_consistent'']"

definition plan_bool :: "jdict \<Rightarrow> string \<Rightarrow> bool res" where
  "plan_bool d k = (case dict_get d k (JBool True) of JBool b \<Rightarrow> Inr b
     | _ \<Rightarrow> Inl (WorkspaceError (''process recovery '' @ k @ '' must be a boolean'')))"

definition prepare_recovery_plan ::
  "string \<Rightarrow> string \<Rightarrow> string \<Rightarrow> json \<Rightarrow> ('k, 'e, execution_recovery_plan option) pop" where
  "prepare_recovery_plan a s rid recovery = (case recovery of
      JNull \<Rightarrow> ret None
    | JObj d \<Rightarrow>
        (let unknown = sort (remdups (filter (\<lambda>k. k \<notin> set plan_keys) (dict_keys d))) in
        andthen (require (unknown = []) (WorkspaceError (''unknown process recovery keys: '' @ join_comma unknown)))
        (bind (own p_features) (\<lambda>fm.
         andthen (require (case fm of None \<Rightarrow> False | Some m \<Rightarrow> recovery_lifecycle_enabled m)
           (WorkspaceError ''process recovery requires an ABI-v2 recovery lifecycle plugin''))
         (bind (lift_res (plan_bool d ''scrub_runtime'')) (\<lambda>scrub.
          bind (lift_res (plan_bool d ''require_consistent'')) (\<lambda>consistent.
          bind (lift_res (case dict_get d ''recovery_id'' (JStr (''recovery-'' @ rid)) of
              JStr t \<Rightarrow> validate_id ''recovery'' t
            | _ \<Rightarrow> Inl (WorkspaceError ''process recovery recovery_id must be a string''))) (\<lambda>recid.
          bind (case jget d ''checkpoint_id'' of
              JNull \<Rightarrow>
                andthen (on_st (create_checkpoint a s (Some (''baseline-'' @ rid)) ''allox-system-effects-recovery''
                   (Some (''automatic pre-run baseline for '' @ rid)) True
                   (JObj [(''run_id'', JStr rid), (''recovery_id'', JStr recid)])))
                (ret (''baseline-'' @ rid, True))
            | JStr t \<Rightarrow>
                bind (lift_res (validate_id ''checkpoint'' t)) (\<lambda>c.
                bind (on_st (list_checkpoints a s)) (\<lambda>cs.
                andthen (require (c \<in> set cs) (WorkspaceError (''exact recovery checkpoint does not exist: '' @ c)))
                (ret (c, False))))
            | _ \<Rightarrow> raise (WorkspaceError ''process recovery checkpoint_id must be a string'')) (\<lambda>(c, baseline).
          ret (Some \<lparr>plan_checkpoint_id = c, plan_recovery_id = recid, plan_scrub_runtime = scrub,
                    plan_require_consistent = consistent, plan_baseline_created = baseline\<rparr>)))))))))
    | _ \<Rightarrow> raise (WorkspaceError ''process recovery must be an object''))"

section \<open>Events\<close>

definition get_run :: "string \<Rightarrow> ('k, 'e, ('k, 'e) pworld run) pop" where
  "get_run rid = bind (own (\<lambda>p. map_of (p_runs p) rid)) (\<lambda>r. case r of None \<Rightarrow> raise KeyError | Some x \<Rightarrow> ret x)"

definition mod_run :: "string \<Rightarrow> ('w run \<Rightarrow> 'w run) \<Rightarrow> 'w pstate \<Rightarrow> 'w pstate" where
  "mod_run rid f p = p\<lparr>p_runs := (case map_of (p_runs p) rid of None \<Rightarrow> p_runs p
      | Some r \<Rightarrow> dict_set rid (f r) (p_runs p))\<rparr>"

abbreviation upd_run :: "string \<Rightarrow> (('k, 'e) pworld run \<Rightarrow> ('k, 'e) pworld run) \<Rightarrow> ('k, 'e, unit) pop" where
  "upd_run rid f \<equiv> own_modify (mod_run rid f)"

abbreviation upd_row :: "string \<Rightarrow> (jdict \<Rightarrow> jdict) \<Rightarrow> ('k, 'e, unit) pop" where
  "upd_row rid f \<equiv> upd_run rid (\<lambda>r. r\<lparr>r_row := f (r_row r)\<rparr>)"

definition save_run :: "'e host \<Rightarrow> string \<Rightarrow> ('k, 'e, unit) pop" where
  "save_run H rid = bind (get_run rid) (\<lambda>r. on_world (save H (r_row r)))"

definition event_keys :: "string list" where
  "event_keys = [''event'', ''pid'', ''ppid'', ''former_tid'', ''comm'', ''filename'', ''kernel_time_ns'', ''birth_ns'',
     ''parent_birth_ns'', ''birth_pid'', ''parent_birth_pid'']"

definition fmt :: "json \<Rightarrow> string" where
  "fmt v = (case v of JStr t \<Rightarrow> t | _ \<Rightarrow> repr_json v)"

text \<open>The identities of the process and, for a fork, of its parent.\<close>

definition identify :: "string \<Rightarrow> jdict \<Rightarrow> (string \<times> jdict) res" where
  "identify prefix ev =
     bindR (row_item ev ''birth_pid'') (\<lambda>bp.
     bindR (row_item ev ''birth_ns'') (\<lambda>bn.
     let ident = prefix @ '':'' @ fmt bp @ '':'' @ fmt bn;
         ev1 = dict_set ''process_id'' (JStr ident) ev in
     if jget ev ''event'' = JStr ''fork''
     then bindR (row_item ev ''parent_birth_pid'') (\<lambda>pp.
          bindR (row_item ev ''parent_birth_ns'') (\<lambda>pn.
          Inr (ident, dict_set ''parent_process_id'' (JStr (prefix @ '':'' @ fmt pp @ '':'' @ fmt pn)) ev1)))
     else Inr (ident, ev1)))"

definition touch_process :: "string \<Rightarrow> json \<Rightarrow> jdict \<Rightarrow> jdict \<Rightarrow> jdict res" where
  "touch_process ident pid ev row =
     bindR (row_item row ''processes'') (\<lambda>ps. case ps of
        JObj tasks \<Rightarrow> (case dict_get tasks ident (JObj [(''pid'', pid)]) of
            JObj item \<Rightarrow> Inr (dict_set ''processes'' (JObj (dict_set ident
               (JObj (dict_set ''alive'' (JBool (jget ev ''event'' \<noteq> JStr ''exit'')) (dict_merge item ev))) tasks)) row)
          | _ \<Rightarrow> Inl AttributeError)
      | _ \<Rightarrow> Inl AttributeError)"

definition append_run_event :: "'e host \<Rightarrow> string \<Rightarrow> jdict \<Rightarrow> ('k, 'e, unit) pop" where
  "append_run_event H rid ev0 =
     bind (get_run rid) (\<lambda>r. let row = r_row r in
     bind (lift_res (row_item row ''event_count'')) (\<lambda>n. case n of
       JInt c \<Rightarrow>
        andthen (upd_row rid (dict_set ''event_count'' (JInt (c + 1))))
        (bind (lift_res (row_item row ''agent_id'')) (\<lambda>a.
         bind (lift_res (row_item row ''session_id'')) (\<lambda>s.
         bind (lift_res (row_item row ''run_id'')) (\<lambda>i.
         bind (lift_res (row_item row ''boot_id'')) (\<lambda>b.
         bind (world_get (\<lambda>w. os_time_ns H (pw_ext w))) (\<lambda>t.
         let ev1 = dict_merge ev0 [(''sequence'', JInt (c + 1)), (''agent_id'', a), (''session_id'', s), (''run_id'', i),
                     (''boot_id'', b), (''observed_ns'', JInt t)] in
         bind (if truthy (jget ev1 ''pid'')
               then bind (lift_res (identify (fmt b @ '':'' @ fmt i) ev1)) (\<lambda>(ident, ev2).
                    bind (lift_res (touch_process ident (jget ev1 ''pid'') ev2 (dict_set ''event_count'' (JInt (c + 1)) row))) (\<lambda>row'.
                    andthen (upd_row rid (\<lambda>_. row')) (ret ev2)))
               else ret ev1) (\<lambda>ev2.
         bind (lift_res (row_text row ''audit_directory'')) (\<lambda>dir.
         on_world (disk_step H dir (\<lambda>d. d\<lparr>event_lines := event_lines d @ [ev2]\<rparr>))))))))))
     | _ \<Rightarrow> raise TypeError))"

definition record_event :: "'e host \<Rightarrow> jdict \<Rightarrow> ('k, 'e, unit) pop" where
  "record_event H message = (case jget message ''cookie'' of
      JInt cookie \<Rightarrow>
        bind (own (\<lambda>p. map_of (p_cookies p) cookie)) (\<lambda>rid. case rid of
          None \<Rightarrow> ret ()
        | Some rid \<Rightarrow>
            andthen (append_run_event H rid (filter (\<lambda>(k, _). k \<in> set event_keys) message))
            (save_run H rid))
    | _ \<Rightarrow> ret ())"

section \<open>Termination and failures\<close>

definition save_quietly :: "'e host \<Rightarrow> string \<Rightarrow> ('k, 'e, unit) pop" where
  "save_quietly H rid = catch is_OSError (save_run H rid) (\<lambda>_. ret ())"

definition run_session :: "jdict \<Rightarrow> (string \<times> string) res" where
  "run_session row = bindR (row_text row ''agent_id'') (\<lambda>a. bindR (row_text row ''session_id'') (\<lambda>s. Inr (a, s)))"

definition exited_meanwhile :: "'e host \<Rightarrow> string \<Rightarrow> ('k, 'e) pworld run \<Rightarrow> ('k, 'e, bool) pop" where
  "exited_meanwhile H reason r =
     (if reason \<noteq> ''timeout'' then ret False
      else if r_exited r then ret True
      else (case r_process r of None \<Rightarrow> ret False
            | Some pid \<Rightarrow> bind (on_ext (os_poll H pid)) (\<lambda>st. ret (st \<noteq> None))))"

definition terminate_locked :: "'k cgroupfs \<Rightarrow> session_cgroup \<Rightarrow> 'e host \<Rightarrow> string \<Rightarrow> string \<Rightarrow> ('k, 'e, unit) pop" where
  "terminate_locked K c H rid reason =
     bind (own (\<lambda>p. map_of (p_runs p) rid)) (\<lambda>run. case run of
       None \<Rightarrow> ret ()
     | Some r \<Rightarrow>
         if r_done r then ret ()
         else bind (exited_meanwhile H reason r) (\<lambda>gone.
           if gone then upd_run rid (\<lambda>r. r\<lparr>r_exited := True\<rparr>)
           else
             andthen (whenM (r_stop_reason r = None)
               (andthen (upd_run rid (\<lambda>r. r\<lparr>r_stop_reason := Some reason, r_row := dict_set ''stop_reason'' (JStr reason) (r_row r)\<rparr>))
                 (save_quietly H rid)))
             (bind (lift_res (run_session (r_row r))) (\<lambda>(a, s). on_cg (cg_kill K c a s)))))"

definition active_runs :: "'w pstate \<Rightarrow> string list" where
  "active_runs p = map fst (filter (\<lambda>(_, r). \<not> r_done r) (p_runs p))"

text \<open>
  \<open>_backend_failed\<close>: the runs are fenced first; the termination threads it starts run afterwards,
  and what they raise is lost with the thread.
\<close>

definition backend_failed :: "'k cgroupfs \<Rightarrow> session_cgroup \<Rightarrow> 'e host \<Rightarrow> string \<Rightarrow> ('k, 'e, unit) pop" where
  "backend_failed K c H reason =
     andthen (own_modify (\<lambda>p. p\<lparr>p_backend_error := Some reason\<rparr>))
     (bind (own active_runs) (\<lambda>act.
      andthen (forM act (\<lambda>rid.
        andthen (upd_row rid (\<lambda>row. dict_set ''provider_error'' (JStr reason) (dict_set ''session_fenced'' (JBool True) row)))
        (save_quietly H rid)))
      (forM act (\<lambda>rid. suppress (terminate_locked K c H rid ''provider_failure'')))))"

definition fail_status :: "string \<Rightarrow> json \<Rightarrow> json" where
  "fail_status reason v = (case v of
      JObj st \<Rightarrow> if jget st ''status'' \<noteq> JStr ''finalized''
        then JObj (dict_set ''error'' (JStr (take 1000 reason)) (dict_set ''status'' (JStr ''failed'') st)) else v
    | _ \<Rightarrow> v)"

definition fail_row :: "string \<Rightarrow> jdict \<Rightarrow> jdict" where
  "fail_row reason row0 =
     (let row1 = dict_set ''feature_error'' (JStr (take 1000 reason)) (dict_set ''session_fenced'' (JBool True) row0)
      in case jget row1 ''feature_runs'' of
           JObj fr \<Rightarrow> dict_set ''feature_runs'' (JObj (map (\<lambda>(n, v). (n, fail_status reason v)) fr)) row1
         | _ \<Rightarrow> row1)"

fun is_os_or_workspace_error :: "error \<Rightarrow> bool" where
  "is_os_or_workspace_error (WorkspaceError m) = True"
| "is_os_or_workspace_error e = is_OSError e"

definition feature_failed :: "'k cgroupfs \<Rightarrow> session_cgroup \<Rightarrow> 'e host \<Rightarrow> string \<Rightarrow> string \<Rightarrow> ('k, 'e, unit) pop" where
  "feature_failed K c H rid reason =
     bind (own (\<lambda>p. map_of (p_runs p) rid)) (\<lambda>run. case run of
       None \<Rightarrow> ret ()
     | Some r \<Rightarrow>
         if r_done r then ret ()
         else
           andthen (upd_row rid (fail_row reason))
           (andthen (whenM (r_stop_reason r = None)
              (upd_run rid (\<lambda>r. r\<lparr>r_stop_reason := Some ''feature_failure'',
                 r_row := dict_set ''stop_reason'' (JStr ''feature_failure'') (r_row r)\<rparr>)))
           (bind (lift_res (run_session (r_row r))) (\<lambda>(a, s).
            andthen (save_quietly H rid)
            (catch is_os_or_workspace_error (on_cg (cg_kill K c a s)) (\<lambda>_.
               case r_process r of
                 None \<Rightarrow> ret ()
               | Some pid \<Rightarrow> bind (on_ext (os_poll H pid)) (\<lambda>st.
                   if st = None then catch is_OSError (on_ext (os_kill H pid)) (\<lambda>_. ret ()) else ret ())))))))"

section \<open>Queries\<close>

definition unknown_run :: error where
  "unknown_run = WorkspaceError ''unknown run''"

definition run_dir :: "'w pstate \<Rightarrow> string \<Rightarrow> string" where
  "run_dir p rid = p_audit_root p @ ''/'' @ rid"

definition process_get :: "string \<Rightarrow> string \<Rightarrow> string \<Rightarrow> ('k, 'e, jdict) pop" where
  "process_get a s rid =
     bind (lift_res (validate_id ''run'' rid)) (\<lambda>_.
     bind (lift_res (validate_id ''agent'' a)) (\<lambda>_.
     bind (lift_res (validate_id ''session'' s)) (\<lambda>_.
     bind (own id) (\<lambda>p.
     bind (case map_of (p_runs p) rid of
         Some r \<Rightarrow> ret (r_row r)
       | None \<Rightarrow> bind (world_get (\<lambda>w. Option.bind (map_of (pw_audit w) (run_dir p rid)) state_file)) (\<lambda>f.
           case f of None \<Rightarrow> raise unknown_run | Some row \<Rightarrow> ret row)) (\<lambda>row.
     bind (lift_res (row_item row ''agent_id'')) (\<lambda>ra.
     bind (lift_res (row_item row ''session_id'')) (\<lambda>rs.
     andthen (require (ra = JStr a \<and> rs = JStr s) (WorkspaceError ''run does not belong to this Agent/Session''))
     (ret row))))))))"

definition belongs :: "string \<Rightarrow> string \<Rightarrow> jdict \<Rightarrow> bool res" where
  "belongs a s row = bindR (row_item row ''agent_id'') (\<lambda>ra. bindR (row_item row ''session_id'') (\<lambda>rs.
     Inr (ra = JStr a \<and> rs = JStr s)))"

definition created :: "jdict \<Rightarrow> int res" where
  "created row = bindR (row_item row ''created_ns'') (\<lambda>v. case v of JInt n \<Rightarrow> Inr n | _ \<Rightarrow> Inl TypeError)"

definition list_runs :: "string \<Rightarrow> string \<Rightarrow> ('k, 'e, jdict list) pop" where
  "list_runs a s =
     bind (lift_res (validate_id ''agent'' a)) (\<lambda>_.
     bind (lift_res (validate_id ''session'' s)) (\<lambda>_.
     bind (own p_audit_root) (\<lambda>r.
     bind (world_get (\<lambda>w. state_files r (pw_audit w))) (\<lambda>rows.
     bind (lift_res (mapR (\<lambda>row. bindR (belongs a s row) (\<lambda>b. Inr (b, filter (\<lambda>(k, _). k \<noteq> ''processes'') row))) rows)) (\<lambda>marked.
     bind (lift_res (mapR (\<lambda>row. bindR (created row) (\<lambda>n. Inr (n, row))) (map snd (filter fst marked)))) (\<lambda>timed.
     ret (map snd (sort_key fst timed))))))))"

fun scan_events :: "int \<Rightarrow> nat \<Rightarrow> jdict list \<Rightarrow> jdict list \<Rightarrow> jdict list res" where
  "scan_events after limit acc [] = Inr acc"
| "scan_events after limit acc (ev # evs) =
     bindR (row_item ev ''sequence'') (\<lambda>n. case n of
        JInt k \<Rightarrow> let acc' = (if after < k then acc @ [ev] else acc) in
          if limit \<le> length acc' then Inr acc' else scan_events after limit acc' evs
      | _ \<Rightarrow> Inl TypeError)"

definition process_events :: "string \<Rightarrow> string \<Rightarrow> string \<Rightarrow> json \<Rightarrow> json \<Rightarrow> ('k, 'e, json) pop" where
  "process_events a s rid after limit = (case (after, limit) of
      (JInt n, JInt m) \<Rightarrow>
        if n < 0 \<or> m < 1 \<or> 1000 < m then raise (WorkspaceError ''after must be nonnegative; limit must be 1..1000'')
        else bind (process_get a s rid) (\<lambda>row.
          bind (own (\<lambda>p. run_dir p rid)) (\<lambda>dir.
          bind (world_get (\<lambda>w. case map_of (pw_audit w) dir of None \<Rightarrow> [] | Some d \<Rightarrow> event_lines d)) (\<lambda>ls.
          bind (lift_res (scan_events n (nat m) [] ls)) (\<lambda>items.
          bind (lift_res (row_item row ''state'')) (\<lambda>st.
          ret (JObj [(''events'', JList (map JObj items)),
                     (''next_after'', if items = [] then JInt n else jget (last items) ''sequence''),
                     (''state'', st)]))))))
    | _ \<Rightarrow> raise (WorkspaceError ''after must be nonnegative; limit must be 1..1000''))"

end
