(* ===== verification/Process_Lifecycle.thy ===== *)
theory Process_Lifecycle
  imports Process_Service
begin

text \<open>
  Launch and finalisation of one run in
  \<^verbatim>\<open>src/src/allox/runtime/process_tracking/service.py\<close>: \<open>_start\<close> with its cleanup,
  the waits for the launch gates, the pinned process identity, \<open>_watch\<close>, and the operations that
  wait for a run to end. The local variables a handler reads are a frame beside the service state;
  random identifiers are arguments; what other threads do while an operation waits is a parameter.
\<close>

section \<open>Waiting for the gates\<close>

abbreviation pw_now :: "('k, 'e) pworld \<Rightarrow> rat" where
  "pw_now w \<equiv> now (pw_cg w)"

definition pause :: "'k cgroupfs \<Rightarrow> rat \<Rightarrow> ('k, 'e) pworld \<Rightarrow> ('k, 'e) pworld" where
  "pause K d w = snd (in_cg (sleep K d) w)"

lemma pw_now_pause: "pw_now w + d \<le> pw_now (pause K d w)"
  by (simp add: pause_def in_cg_def sleep_def)

function (sequential) await_stopped :: "'k cgroupfs \<Rightarrow> 'e host \<Rightarrow> int \<Rightarrow> rat \<Rightarrow> (('k, 'e) pworld, unit) op" where
  "await_stopped K H pid deadline w =
     (if pw_now w < deadline
      then (case in_ext (os_waitpid H pid) w of
          (Inl e, w1) \<Rightarrow> (Inl e, w1)
        | (Inr st, w1) \<Rightarrow> (case st of
              NotYet \<Rightarrow> await_stopped K H pid deadline (pause K (1/100) w1)
            | Stopped \<Rightarrow> (Inr (), w1)
            | Exited code \<Rightarrow> (Inl (WorkspaceError ''exec gate exited before Session attribution was installed''), w1)))
      else (Inl (WorkspaceError ''exec gate did not stop before attribution timeout''), w))"
  by pat_completeness auto

lemma pw_now_in_ext: "in_ext m w = (r, w1) \<Longrightarrow> pw_now w1 = pw_now w"
  by (auto simp: in_ext_def split: prod.splits)

termination await_stopped
proof (relation "measure (\<lambda>(K, H, pid, deadline, w). rounds (1/100) deadline (pw_now w))", goal_cases)
  case (2 K H pid deadline w x y b)
  then have "pw_now w + 1/100 \<le> pw_now (pause K (1/100) y)"
    using pw_now_in_ext [of "os_waitpid H pid" w] pw_now_pause [of y "1/100" K] by (metis prod.collapse)
  then show ?case using 2 by (auto intro!: rounds_decrease)
qed simp

declare await_stopped.simps [simp del]

definition wait_stopped :: "'k cgroupfs \<Rightarrow> 'e host \<Rightarrow> int \<Rightarrow> rat \<Rightarrow> (('k, 'e) pworld, unit) op" where
  "wait_stopped K H pid timeout = bind (gets pw_now) (\<lambda>t. await_stopped K H pid (t + timeout))"

text \<open>The state letter in the first \<open>State:\<close> line; \<open>None\<close> where the loop continues.\<close>

definition proc_state :: "string \<Rightarrow> string option res" where
  "proc_state t = (case filter (\<lambda>l. startswith l ''State:'') (splitlines t) of
      [] \<Rightarrow> Inr None
    | l # _ \<Rightarrow> (case words_of l of _ # st # _ \<Rightarrow> Inr (Some st) | _ \<Rightarrow> Inl IndexError))"

fun stopped_pids :: "'e host \<Rightarrow> int \<Rightarrow> int list \<Rightarrow> (('k, 'e) pworld, int list) op" where
  "stopped_pids H self [] = ret []"
| "stopped_pids H self (pid # ps) =
     (if pid = self then stopped_pids H self ps
      else bind (catch (\<lambda>e. case e of FileNotFoundError _ \<Rightarrow> True | _ \<Rightarrow> False)
              (bind (in_ext (os_proc_status H pid)) (\<lambda>t. lift_res (proc_state t))) (\<lambda>_. ret None)) (\<lambda>st.
           bind (stopped_pids H self ps) (\<lambda>rest.
           ret (if st = Some ''T'' \<or> st = Some ''t'' then pid # rest else rest))))"

definition gate_probe ::
  "'k cgroupfs \<Rightarrow> session_cgroup \<Rightarrow> 'e host \<Rightarrow> int \<Rightarrow> string \<Rightarrow> string \<Rightarrow> (('k, 'e) pworld, int option) op" where
  "gate_probe K c H self a s =
     bind (in_ext (os_poll H self)) (\<lambda>st.
     andthen (require (st = None) (WorkspaceError ''Bubblewrap exited before the inner launch barrier''))
     (bind (in_cg (pids K c a s)) (\<lambda>ps.
      bind (stopped_pids H self ps) (\<lambda>stopped.
      (case stopped of
         [] \<Rightarrow> ret None
       | [pid] \<Rightarrow> ret (Some pid)
       | _ \<Rightarrow> raise (WorkspaceError ''inner launch barrier matched multiple stopped processes''))))))"

lemma grows_kcall [grows_intros]: "grows now (kcall K ev f)"
  by (simp add: grows_def now_kcall)

lemma grows_in_cg [grows_intros]: "grows now m \<Longrightarrow> grows pw_now (in_cg m)"
  by (auto simp: grows_def in_cg_def split: prod.splits) (metis snd_conv)

lemma grows_in_ext [grows_intros]: "grows pw_now (in_ext m)"
  by (simp add: grows_def in_ext_def split: prod.splits)

lemma grows_pids: "grows now (pids K c a s)"
  unfolding pids_def read_text_def by (intro grows_intros)

lemma grows_stopped_pids: "grows pw_now (stopped_pids H self ps)"
  by (induction ps) (auto intro!: grows_intros)

lemma grows_gate_probe: "grows pw_now (gate_probe K c H self a s)"
  unfolding gate_probe_def
  by (intro grows_intros grows_pids grows_stopped_pids) (auto intro: grows_intros split: list.splits)

function (sequential) await_inner_gate ::
  "'k cgroupfs \<Rightarrow> session_cgroup \<Rightarrow> 'e host \<Rightarrow> int \<Rightarrow> string \<Rightarrow> string \<Rightarrow> rat \<Rightarrow> (('k, 'e) pworld, int) op" where
  "await_inner_gate K c H self a s deadline w =
     (if pw_now w < deadline
      then (case gate_probe K c H self a s w of
          (Inl e, w1) \<Rightarrow> (Inl e, w1)
        | (Inr (Some pid), w1) \<Rightarrow> (Inr pid, w1)
        | (Inr None, w1) \<Rightarrow> await_inner_gate K c H self a s deadline (pause K (1/100) w1))
      else (Inl (WorkspaceError ''inner Bubblewrap launch barrier timed out''), w))"
  by pat_completeness auto

termination await_inner_gate
proof (relation "measure (\<lambda>(K, c, H, self, a, s, deadline, w). rounds (1/100) deadline (pw_now w))", goal_cases)
  case (2 K c H self a s deadline w x y b)
  then have "pw_now w + 1/100 \<le> pw_now (pause K (1/100) y)"
    using growsD [OF grows_gate_probe, of K c H self a s w x y] pw_now_pause [of y "1/100" K] by simp
  then show ?case using 2 by (auto intro!: rounds_decrease)
qed simp

declare await_inner_gate.simps [simp del]

definition wait_inner_gate ::
  "'k cgroupfs \<Rightarrow> session_cgroup \<Rightarrow> 'e host \<Rightarrow> int \<Rightarrow> string \<Rightarrow> string \<Rightarrow> rat \<Rightarrow> (('k, 'e) pworld, int) op" where
  "wait_inner_gate K c H self a s timeout = bind (gets pw_now) (\<lambda>t. await_inner_gate K c H self a s (t + timeout))"

section \<open>Pinned identity of the inner gate\<close>

definition open_pidfd :: "'e host \<Rightarrow> int \<Rightarrow> (('k, 'e) pworld, int) op" where
  "open_pidfd H pid = catch is_OSError (in_ext (os_pidfd_open H pid))
     (\<lambda>e. raise (WorkspaceError (''failed to pin inner launch gate identity: '' @ exc_text e)))"

definition close_pidfd :: "'e host \<Rightarrow> int option \<Rightarrow> (('k, 'e) pworld, unit) op" where
  "close_pidfd H fd = (case fd of None \<Rightarrow> ret () | Some n \<Rightarrow> catch is_OSError (in_ext (os_pidfd_close H n)) (\<lambda>_. ret ()))"

definition SIGCONT :: int where
  "SIGCONT = 18"

definition pidfd_send_signal :: "'e host \<Rightarrow> int \<Rightarrow> int \<Rightarrow> (('k, 'e) pworld, unit) op" where
  "pidfd_send_signal H fd sig = catch is_OSError (in_ext (os_pidfd_signal H fd sig))
     (\<lambda>e. raise (WorkspaceError (''failed to '' @ (if sig = 0 then ''validate'' else ''resume'') @
        '' pinned inner launch gate identity: '' @ exc_text e)))"

definition namespace_inode :: "'e host \<Rightarrow> int \<Rightarrow> string \<Rightarrow> (('k, 'e) pworld, int) op" where
  "namespace_inode H pid ns =
     andthen (require (ns \<in> {''mnt'', ''net''}) (WorkspaceError ''unsupported execution namespace identity''))
     (bind (catch is_OSError (in_ext (os_namespace H pid ns))
        (\<lambda>e. raise (WorkspaceError (''failed to bind execution '' @ ns @ '' namespace: '' @ exc_text e)))) (\<lambda>i.
      andthen (require (0 < i) (WorkspaceError (''execution '' @ ns @ '' namespace has an invalid identity'')))
      (ret i)))"

definition target_identity ::
  "'k cgroupfs \<Rightarrow> session_cgroup \<Rightarrow> 'e host \<Rightarrow> string \<Rightarrow> string \<Rightarrow> int \<Rightarrow> int \<Rightarrow> string \<Rightarrow> (('k, 'e) pworld, int \<times> int) op" where
  "target_identity K c H a s pid fd phase =
     andthen (pidfd_send_signal H fd 0)
     (bind (in_cg (owns K c a s pid)) (\<lambda>o1.
      andthen (require o1 (WorkspaceError (''inner launch gate left the Session cgroup '' @ phase)))
      (andthen (pidfd_send_signal H fd 0)
      (bind (namespace_inode H pid ''mnt'') (\<lambda>mnt.
       andthen (pidfd_send_signal H fd 0)
       (bind (namespace_inode H pid ''net'') (\<lambda>net.
        andthen (pidfd_send_signal H fd 0)
        (bind (in_cg (owns K c a s pid)) (\<lambda>o2.
         andthen (require o2 (WorkspaceError (''inner launch gate identity changed '' @ phase)))
         (andthen (pidfd_send_signal H fd 0)
         (ret (mnt, net))))))))))))"

section \<open>Launch\<close>

record 'w frame =
  f_cookie :: int
  f_process :: "int option"
  f_attached :: bool
  f_seeded :: bool
  f_identity :: "cg_identity option"
  f_active :: "'w active option"
  f_pidfd :: "int option"

definition no_frame :: "'w frame" where
  "no_frame = \<lparr>f_cookie = 0, f_process = None, f_attached = False, f_seeded = False, f_identity = None,
     f_active = None, f_pidfd = None\<rparr>"

type_synonym ('k, 'e) fs = "(('k, 'e) pworld frame \<times> ('k, 'e) pworld pstate) \<times> ('k, 'e) pworld"
type_synonym ('k, 'e, 'a) fsop = "(('k, 'e) fs, 'a) op"

definition in_p :: "('k, 'e, 'a) pop \<Rightarrow> ('k, 'e, 'a) fsop" where
  "in_p m = (\<lambda>((f, p), w). case m (p, w) of (r, (p', w')) \<Rightarrow> (r, ((f, p'), w')))"

abbreviation fw :: "(('k, 'e) pworld, 'a) op \<Rightarrow> ('k, 'e, 'a) fsop" where
  "fw m \<equiv> on_world m"

definition set_frame :: "(('k, 'e) pworld frame \<Rightarrow> ('k, 'e) pworld frame) \<Rightarrow> ('k, 'e, unit) fsop" where
  "set_frame g = own_modify (\<lambda>(f, p). (g f, p))"

text \<open>Run an operation of the handles; the object's new state is kept with the result.\<close>

definition run_active :: "'w active \<Rightarrow> ('w, 'a) aop \<Rightarrow> ('w, 'a res \<times> 'w active) op" where
  "run_active act m = (\<lambda>w. case m (act, w) of (r, (act', w')) \<Rightarrow> (Inr (r, act'), w'))"

definition with_active :: "('k, 'e) pworld active \<Rightarrow> (('k, 'e) pworld, 'a) aop \<Rightarrow> ('k, 'e, 'a) fsop" where
  "with_active act m =
     bind (fw (run_active act m)) (\<lambda>(r, act').
     andthen (set_frame (\<lambda>f. f\<lparr>f_active := Some act'\<rparr>)) (lift_res r))"

definition with_manager :: "('k, 'e) pworld manager \<Rightarrow> (('k, 'e) pworld, 'a) fop \<Rightarrow> (('k, 'e) pworld, 'a) op" where
  "with_manager m f = (\<lambda>w. case f (m, w) of (r, (_, w')) \<Rightarrow> (r, w'))"

text \<open>The first value drawn that is not in use; \<open>draws\<close> are the values of \<open>secrets.randbits(63)\<close>.\<close>

fun fresh_cookie :: "int list \<Rightarrow> (int, string) dict \<Rightarrow> int res" where
  "fresh_cookie [] cs = Inl (RuntimeError ''random values exhausted'')"
| "fresh_cookie (d # ds) cs =
     (let c = (if d = 0 then 1 else d) in if c \<in> set (dict_keys cs) then fresh_cookie ds cs else Inr c)"

definition make_run_dir :: "'e host \<Rightarrow> string \<Rightarrow> (('k, 'e) pworld, unit) op" where
  "make_run_dir H dir =
     andthen (in_ext (os_disk H))
     (bind (gets (\<lambda>w. map_of (pw_audit w) dir)) (\<lambda>d.
      if d \<noteq> None then raise (OSError ''file exists'')
      else modify (\<lambda>w. w\<lparr>pw_audit := dict_set dir \<lparr>state_file = None, temp_files = 0, event_lines = []\<rparr> (pw_audit w)\<rparr>)))"

definition env_pairs :: "json \<Rightarrow> (string, string) dict" where
  "env_pairs env = (case env of JObj d \<Rightarrow> map (\<lambda>(k, v). (k, case v of JStr t \<Rightarrow> t | _ \<Rightarrow> [])) d | _ \<Rightarrow> [])"

definition contribution_of :: "string \<Rightarrow> string \<Rightarrow> ('k, 'e, contribution option) pop" where
  "contribution_of a s = bind (own p_features) (\<lambda>fm. case fm of
      None \<Rightarrow> ret None
    | Some m \<Rightarrow> bind (on_world (with_manager m (prepare_execution a s))) (\<lambda>c. ret (Some c)))"

definition run_environment :: "string \<Rightarrow> string \<Rightarrow> string \<Rightarrow> json \<Rightarrow> ('k, 'e, (string, string) dict) pop" where
  "run_environment a s rid tc = bind (own p_features) (\<lambda>fm. case fm of
      None \<Rightarrow> ret []
    | Some m \<Rightarrow> on_world (with_manager m (prepare_run_environment a s rid tc)))"

definition gate_config :: "string \<Rightarrow> string \<Rightarrow> string \<Rightarrow> string \<Rightarrow> string \<Rightarrow> string \<Rightarrow> string \<Rightarrow> string list \<Rightarrow> json" where
  "gate_config cur shared shared_parent a s rid dir argv =
     JObj [(''argv'', JList (map JStr argv)), (''cwd'', JStr cur),
       (''env'', JObj [(''PATH'', JStr ''/usr/local/bin:/usr/bin:/bin''), (''HOME'', JStr cur),
          (''TMPDIR'', JStr (cur @ ''/.allox-tmp'')), (''ALLOX_AGENT_ID'', JStr a), (''ALLOX_SESSION_ID'', JStr s),
          (''ALLOX_RUN_ID'', JStr rid), (''ALLOX_AGENT_SHARED'', JStr shared), (''ALLOX_AGENT_WORKSPACE'', JStr shared_parent)]),
       (''stdout'', JStr (dir @ ''/stdout.log'')), (''stderr'', JStr (dir @ ''/stderr.log''))]"

definition plan_json :: "execution_recovery_plan \<Rightarrow> json" where
  "plan_json pl = JObj [(''checkpoint_id'', JStr (plan_checkpoint_id pl)), (''recovery_id'', JStr (plan_recovery_id pl)),
     (''scrub_runtime'', JBool (plan_scrub_runtime pl)), (''require_consistent'', JBool (plan_require_consistent pl)),
     (''baseline_created'', JBool (plan_baseline_created pl))]"

definition initial_row ::
  "string \<Rightarrow> int \<Rightarrow> string \<Rightarrow> string \<Rightarrow> string \<Rightarrow> string \<Rightarrow> int \<Rightarrow> string \<Rightarrow> int \<Rightarrow> bool \<Rightarrow> execution_recovery_plan option
   \<Rightarrow> contribution option \<Rightarrow> json \<Rightarrow> jdict" where
  "initial_row rid epoch a s backend boot t0 dir cookie lifecycle plan con tc =
     (let row0 = [(''run_id'', JStr rid), (''run_epoch'', JInt epoch), (''agent_id'', JStr a), (''session_id'', JStr s),
            (''backend'', JStr backend), (''isolation'', JStr ''bubblewrap''), (''boot_id'', JStr boot), (''state'', JStr ''starting''),
            (''created_ns'', JInt t0), (''event_count'', JInt 0), (''processes'', JObj []), (''audit_directory'', JStr dir),
            (''trace_complete'', JBool False), (''cookie'', JInt cookie)];
          row1 = (if lifecycle then dict_set ''feature_runs'' (JObj []) row0 else row0);
          row2 = (case plan of None \<Rightarrow> row1 | Some pl \<Rightarrow> dict_set ''recovery'' (plan_json pl) row1);
          row3 = (case con of None \<Rightarrow> row2 | Some c \<Rightarrow> dict_merge row2 (c_metadata c))
      in if tc = JNull then row3 else dict_set ''trace_context'' tc row3)"

definition lifecycle_on :: "'w pstate \<Rightarrow> bool" where
  "lifecycle_on p = (case p_features p of None \<Rightarrow> False | Some m \<Rightarrow> execution_lifecycle_enabled m)"

text \<open>
  The part of \<open>_start\<close> under the first lock: choose a cookie, reserve an epoch, create the audit
  directory, compose the sandbox, register and save the run. Returns the configuration of the gate.
\<close>

definition choose_cookie :: "int list \<Rightarrow> ('k, 'e, int) pop" where
  "choose_cookie draws =
     bind (own id) (\<lambda>p.
     andthen (require (\<not> p_closed p) (WorkspaceError ''process tracking service is shutting down''))
     (andthen (require (case p_backend_error p of Some (ch # r) \<Rightarrow> False | _ \<Rightarrow> True)
        (WorkspaceError (''process tracking provider failed: '' @ (case p_backend_error p of Some t \<Rightarrow> t | None \<Rightarrow> []))))
     (lift_res (fresh_cookie draws (p_cookies p)))))"

definition register_run ::
  "'e host \<Rightarrow> string \<Rightarrow> string \<Rightarrow> string \<Rightarrow> int \<Rightarrow> string list \<Rightarrow> json \<Rightarrow> json \<Rightarrow> string \<Rightarrow> execution_recovery_plan option
   \<Rightarrow> ('k, 'e, int \<times> json \<times> contribution option) pop" where
  "register_run H rid a s cookie argv env tc lease plan =
     bind (own id) (\<lambda>p.
      let epoch = p_next_epoch p; dir = run_dir p rid in
      andthen (own_modify (\<lambda>p. p\<lparr>p_next_epoch := p_next_epoch p + 1\<rparr>))
      (andthen (on_world (make_run_dir H dir))
      (bind (lift_res (current a s)) (\<lambda>cur0.
       bind (lift_res (agent_shared a)) (\<lambda>sh0.
       bind (lift_res (agent_workspace a)) (\<lambda>ws0.
       bind (world_get (\<lambda>w. abs_path (pw_store w))) (\<lambda>abs.
       bind (contribution_of a s) (\<lambda>con.
       bind (run_environment a s rid tc) (\<lambda>renv.
       let env1 = dict_merge [] (env_pairs env);
           env2 = (case con of None \<Rightarrow> env1 | Some c \<Rightarrow> dict_merge env1 (dict_merge [] (c_environment c)));
           env3 = dict_merge env2 renv;
           mounts = (case con of None \<Rightarrow> [] | Some c \<Rightarrow> c_mounts c);
           prefix = (case con of None \<Rightarrow> [] | Some c \<Rightarrow> c_argv_prefix c) in
       bind (lift_res (build_bwrap_argv (abs cur0) (abs sh0) a s argv env3 mounts (JBool (lifecycle_on p)) (Some rid))) (\<lambda>bw.
       bind (world_get (\<lambda>w. os_time_ns H (pw_ext w))) (\<lambda>t.
       let row = initial_row rid epoch a s (b_name H) (p_boot_id p) t dir cookie (lifecycle_on p) plan con tc in
       andthen (own_modify (\<lambda>p. p\<lparr>
           p_runs := dict_set rid \<lparr>r_row = row, r_process = None, r_lease = lease, r_stop_reason = None, r_done = False,
             r_timer = False, r_exited = False, r_feature = None, r_identity = None, r_target = None, r_plan = plan\<rparr> (p_runs p),
           p_cookies := dict_set cookie rid (p_cookies p)\<rparr>))
       (andthen (on_world (save H row))
       (ret (epoch, gate_config (abs cur0) (abs sh0) (abs ws0) a s rid dir (prefix @ bw), con))))))))))))))"

text \<open>Spawn the gate, hand it its configuration, attach it to the cgroup and seed the tracker.\<close>

definition launch_gate ::
  "'k cgroupfs \<Rightarrow> session_cgroup \<Rightarrow> 'e host \<Rightarrow> string \<Rightarrow> string \<Rightarrow> string \<Rightarrow> int \<Rightarrow> json \<Rightarrow> ('k, 'e, int \<times> path \<times> cg_identity) fsop" where
  "launch_gate K c H rid a s cookie cfg =
     bind (in_p (launcher_spawn H)) (\<lambda>pid.
     andthen (set_frame (\<lambda>f. f\<lparr>f_process := Some pid\<rparr>))
     (andthen (fw (in_ext (os_configure H pid cfg)))
     (andthen (in_p (upd_run rid (\<lambda>r. r\<lparr>r_process := Some pid\<rparr>)))
     (andthen (fw (wait_stopped K H pid 5))
     (bind (fw (in_cg (attach K c a s pid))) (\<lambda>cg.
      andthen (set_frame (\<lambda>f. f\<lparr>f_attached := True\<rparr>))
      (bind (fw (in_cg (identity K c a s))) (\<lambda>ident.
       andthen (set_frame (\<lambda>f. f\<lparr>f_identity := Some ident\<rparr>))
       (andthen (in_p (upd_run rid (\<lambda>r. r\<lparr>r_identity := Some ident\<rparr>)))
       (andthen (fw (in_ext (b_seed H pid cookie)))
       (andthen (set_frame (\<lambda>f. f\<lparr>f_seeded := True\<rparr>))
       (ret (pid, cg, ident)))))))))))))"

text \<open>
  With lifecycle plugins: let Bubblewrap reach the inner gate, pin and freeze it, and start the
  plugins on the frozen cgroup.
\<close>

definition observe_gate ::
  "'k cgroupfs \<Rightarrow> session_cgroup \<Rightarrow> 'e host \<Rightarrow> string \<Rightarrow> string \<Rightarrow> string \<Rightarrow> int \<Rightarrow> int \<Rightarrow> cg_identity \<Rightarrow> contribution option
   \<Rightarrow> execution_recovery_plan option \<Rightarrow> ('k, 'e) pworld feature list \<Rightarrow> ('k, 'e, int \<times> int \<times> int \<times> int \<times> ('k, 'e) pworld active) fsop" where
  "observe_gate K c H rid a s epoch pid ident con plan fs =
     andthen (fw (in_ext (os_cont H pid)))
     (bind (fw (wait_inner_gate K c H pid a s 10)) (\<lambda>target.
      bind (fw (open_pidfd H target)) (\<lambda>fd.
      andthen (set_frame (\<lambda>f. f\<lparr>f_pidfd := Some fd\<rparr>))
      (andthen (fw (in_cg (freeze K c a s (ci_id ident) True 5)))
      (bind (fw (target_identity K c H a s target fd ''before Observer readiness'')) (\<lambda>(mnt, net).
       bind (in_p (own id)) (\<lambda>p.
       bind (fw (start_execution \<lparr>ctx_agent_id = a, ctx_session_id = s, ctx_run_id = rid, ctx_run_epoch = epoch,
           ctx_root_pid = target, ctx_cgroup_path = ci_path ident, ctx_cgroup_relative_path = ci_relative ident,
           ctx_cgroup_id = ci_id ident, ctx_mount_namespace_id = mnt, ctx_network_namespace_id = net,
           ctx_audit_directory = run_dir p rid, ctx_boot_id = p_boot_id p,
           ctx_execution_metadata = (case con of None \<Rightarrow> [] | Some x \<Rightarrow> c_metadata x), ctx_recovery = plan\<rparr> fs)) (\<lambda>act.
       andthen (set_frame (\<lambda>f. f\<lparr>f_active := Some act\<rparr>))
       (andthen (with_active act ae_assert_healthy)
       (andthen (in_p (upd_run rid (\<lambda>r. r\<lparr>r_feature := Some act, r_target := Some target\<rparr>)))
       (bind (with_active act ae_status) (\<lambda>st.
        andthen (in_p (upd_row rid (dict_set ''feature_runs'' (JObj st))))
        (ret (target, fd, mnt, net, act))))))))))))))"

definition pidfd_release :: "'k cgroupfs \<Rightarrow> session_cgroup \<Rightarrow> 'e host \<Rightarrow> string \<Rightarrow> string \<Rightarrow> int \<Rightarrow> cg_identity \<Rightarrow> ('k, 'e, unit) fsop" where
  "pidfd_release K c H a s fd ident =
     finally_do
       (andthen (fw (pidfd_send_signal H fd SIGCONT))
         (fw (in_cg (thaw K c a s (ci_id ident) 5))))
       (andthen (fw (close_pidfd H (Some fd))) (set_frame (\<lambda>f. f\<lparr>f_pidfd := None\<rparr>)))"

text \<open>Second look at the frozen gate, then the pre-release transition of the plugins and the release.\<close>

definition release_gate ::
  "'k cgroupfs \<Rightarrow> session_cgroup \<Rightarrow> 'e host \<Rightarrow> string \<Rightarrow> string \<Rightarrow> cg_identity
   \<Rightarrow> int \<times> int \<times> int \<times> int \<times> ('k, 'e) pworld active \<Rightarrow> ('k, 'e, unit) fsop" where
  "release_gate K c H a s ident g = (case g of (target, fd, mnt, net, act) \<Rightarrow>
     bind (fw (target_identity K c H a s target fd ''after Observer readiness'')) (\<lambda>(mnt', net').
     andthen (require (mnt' = mnt \<and> net' = net)
        (WorkspaceError ''inner launch gate namespaces changed after Observer readiness''))
     (andthen (with_active act ae_assert_healthy)
     (andthen (with_active act ae_agent_started)
     (andthen (with_active act ae_assert_healthy)
     (pidfd_release K c H a s fd ident))))))"

definition running_row :: "int \<Rightarrow> int option \<Rightarrow> path \<Rightarrow> jdict \<Rightarrow> jdict" where
  "running_row pid target cg row0 =
     (let row1 = dict_set ''root_pid'' (JInt (case target of Some t \<Rightarrow> if t = 0 then pid else t | None \<Rightarrow> pid)) row0;
          row2 = (case target of Some t \<Rightarrow> if t \<noteq> pid then dict_set ''launcher_pid'' (JInt pid) row1 else row1 | None \<Rightarrow> row1)
      in dict_set ''state'' (JStr ''running'') (dict_set ''cgroup'' (JStr (path_text cg)) row2))"

definition commit_running ::
  "'e host \<Rightarrow> string \<Rightarrow> bool \<Rightarrow> int \<Rightarrow> int option \<Rightarrow> path \<Rightarrow> ('k, 'e) pworld active option \<Rightarrow> ('k, 'e, unit) fsop" where
  "commit_running H rid lifecycle pid target cg act =
     bind (in_p (own id)) (\<lambda>p.
     andthen (case p_backend_error p of Some (ch # r) \<Rightarrow> raise (WorkspaceError (ch # r)) | _ \<Rightarrow> ret ())
     (andthen (case act of None \<Rightarrow> ret () | Some x \<Rightarrow> with_active x ae_assert_healthy)
     (andthen (in_p (upd_row rid (running_row pid target cg)))
     (bind (in_p (get_run rid)) (\<lambda>r.
      andthen (case p_features p of None \<Rightarrow> ret () | Some m \<Rightarrow> fw (with_manager m (execution_started (r_row r))))
      (fw (if lifecycle then save_durable H (r_row r) else save H (r_row r))))))))"

definition start_body ::
  "'k cgroupfs \<Rightarrow> session_cgroup \<Rightarrow> 'e host \<Rightarrow> string \<Rightarrow> string \<Rightarrow> string \<Rightarrow> int list \<Rightarrow> string list \<Rightarrow> json \<Rightarrow> json \<Rightarrow> json
   \<Rightarrow> string \<Rightarrow> ('k, 'e, json) fsop" where
  "start_body K c H rid a s draws argv env tc recovery lease =
     bind (in_p (prepare_recovery_plan a s rid recovery)) (\<lambda>plan.
     bind (in_p (choose_cookie draws)) (\<lambda>cookie.
     andthen (set_frame (\<lambda>f. f\<lparr>f_cookie := cookie\<rparr>))
     (bind (in_p (own id)) (\<lambda>p.
      bind (in_p (register_run H rid a s cookie argv env tc lease plan)) (\<lambda>(epoch, cfg, con).
      bind (launch_gate K c H rid a s cookie cfg) (\<lambda>(pid, cg, ident).
      bind (case p_features p of
          Some m \<Rightarrow> if execution_lifecycle_enabled m
            then bind (observe_gate K c H rid a s epoch pid ident con plan (fm_features m)) (\<lambda>g. ret (Some g))
            else ret None
        | None \<Rightarrow> ret None) (\<lambda>g.
      andthen (commit_running H rid (g \<noteq> None) pid (map_option fst g) cg (map_option (\<lambda>(_, _, _, _, x). x) g))
      (andthen (case g of Some x \<Rightarrow> release_gate K c H a s ident x | None \<Rightarrow> fw (in_ext (os_cont H pid)))
      (andthen (in_p (upd_run rid (\<lambda>r. r\<lparr>r_timer := True\<rparr>)))
      (bind (in_p (get_run rid)) (\<lambda>r. ret (JObj (r_row r)))))))))))))"

section \<open>Cleanup of a failed launch\<close>

fun is_wait_error :: "error \<Rightarrow> bool" where
  "is_wait_error TimeoutExpired = True"
| "is_wait_error e = is_OSError e"

fun is_workspace_error :: "error \<Rightarrow> bool" where
  "is_workspace_error (WorkspaceError m) = True"
| "is_workspace_error e = False"

definition quietly :: "(error \<Rightarrow> bool) \<Rightarrow> ('s, 'a) op \<Rightarrow> ('s, unit) op" where
  "quietly sel m = catch sel (andthen m (ret ())) (\<lambda>_. ret ())"

text \<open>\<open>try: value = m except sel: value = dflt\<close>\<close>

definition attempt :: "(error \<Rightarrow> bool) \<Rightarrow> 'a \<Rightarrow> ('s, 'a) op \<Rightarrow> ('s, 'a) op" where
  "attempt sel dflt m = catch sel m (\<lambda>_. ret dflt)"

definition kill_process ::
  "'k cgroupfs \<Rightarrow> session_cgroup \<Rightarrow> 'e host \<Rightarrow> string \<Rightarrow> string \<Rightarrow> bool \<Rightarrow> int \<Rightarrow> (('k, 'e) pworld, unit) op" where
  "kill_process K c H a s attached pid =
     bind (in_ext (os_poll H pid)) (\<lambda>st.
     whenM (st = None)
       (andthen (whenM attached (quietly is_os_or_workspace_error (in_cg (cg_kill K c a s))))
       (andthen (quietly is_OSError (in_ext (os_kill H pid)))
         (quietly is_wait_error (in_ext (os_wait H pid (Some 5)))))))"

definition confirm_empty ::
  "'k cgroupfs \<Rightarrow> session_cgroup \<Rightarrow> 'e host \<Rightarrow> string \<Rightarrow> string \<Rightarrow> bool \<Rightarrow> int \<Rightarrow> (('k, 'e) pworld, bool) op" where
  "confirm_empty K c H a s attached pid =
     attempt is_os_or_workspace_error False
       (bind (in_ext (os_poll H pid)) (\<lambda>st.
        if st = None then ret False
        else if attached then in_cg (wait_empty K c a s 5) else ret True))"

definition quiescence_of :: "cg_identity \<Rightarrow> execution_quiescence" where
  "quiescence_of i = \<lparr>q_cgroup_path = ci_path i, q_cgroup_id = ci_id i, q_status = ''QUIESCENT_WITHIN_CGROUP'',
     q_basis = ''CGROUP_V2_EMPTY_FROZEN_VERIFIED''\<rparr>"

definition confirm_quiescent ::
  "'k cgroupfs \<Rightarrow> session_cgroup \<Rightarrow> string \<Rightarrow> string \<Rightarrow> cg_identity \<Rightarrow> (('k, 'e) pworld, execution_quiescence option) op" where
  "confirm_quiescent K c a s ident =
     attempt is_workspace_error None
       (bind (in_cg (quiesce_empty K c a s (ci_id ident) 5)) (\<lambda>i. ret (Some (quiescence_of i))))"

definition finish_handles ::
  "string \<Rightarrow> bool \<Rightarrow> execution_quiescence option \<Rightarrow> ('k, 'e) pworld active option \<Rightarrow> ('k, 'e, bool) pop" where
  "finish_handles rid vacant quiet act = (case act of
      None \<Rightarrow> ret True
    | Some x \<Rightarrow> (case (vacant, quiet) of
        (True, Some q) \<Rightarrow>
          bind (on_world (run_active x (ae_finish ''launch_failed'' q))) (\<lambda>(r, x').
          (case r of
             Inr res \<Rightarrow> andthen (upd_row rid (dict_set ''feature_runs'' (JObj res))) (ret True)
           | Inl e \<Rightarrow> if e = Crashed then raise e
               else bind (on_world (run_active x' ae_close_unverified)) (\<lambda>(r', _). andthen (lift_res r') (ret False))))
      | _ \<Rightarrow> bind (on_world (run_active x ae_close_unverified)) (\<lambda>(r', _). andthen (lift_res r') (ret False))))"

definition failed_row :: "bool \<Rightarrow> error \<Rightarrow> jdict \<Rightarrow> jdict" where
  "failed_row safe e row = dict_merge row [(''state'', JStr ''failed''), (''trace_complete'', JBool False),
     (''lifecycle_complete'', JBool False), (''session_fenced'', JBool (\<not> safe)), (''error'', JStr (exc_class e))]"

text \<open>Mark the run failed and save it durably; only a saved receipt keeps the release safe.\<close>

definition commit_failed :: "'e host \<Rightarrow> string \<Rightarrow> int \<Rightarrow> bool \<Rightarrow> error \<Rightarrow> ('k, 'e, bool) pop" where
  "commit_failed H rid cookie safe e =
     andthen (own_modify (\<lambda>p. p\<lparr>p_cookies := dict_del cookie (p_cookies p)\<rparr>))
     (bind (own (\<lambda>p. map_of (p_runs p) rid)) (\<lambda>run. case run of
        None \<Rightarrow> ret safe
      | Some r \<Rightarrow>
          let row = failed_row safe e (r_row r) in
          andthen (upd_row rid (\<lambda>_. row))
          (bind (catch (\<lambda>_. True) (andthen (on_world (save_durable H row)) (ret safe))
             (\<lambda>_. andthen (upd_row rid (dict_set ''session_fenced'' (JBool True))) (ret False))) (\<lambda>safe'.
           andthen (upd_run rid (\<lambda>r. r\<lparr>r_done := True\<rparr>)) (ret safe')))))"

definition cleanup_start ::
  "'k cgroupfs \<Rightarrow> session_cgroup \<Rightarrow> 'e host \<Rightarrow> string \<Rightarrow> string \<Rightarrow> string \<Rightarrow> string \<Rightarrow> ('k, 'e) pworld frame \<Rightarrow> error
   \<Rightarrow> ('k, 'e, unit) pop" where
  "cleanup_start K c H rid a s lease f e =
     andthen (on_world (close_pidfd H (f_pidfd f)))
     (andthen (case f_process f of None \<Rightarrow> ret () | Some pid \<Rightarrow> on_world (kill_process K c H a s (f_attached f) pid))
     (bind (case f_process f of None \<Rightarrow> ret True | Some pid \<Rightarrow> on_world (confirm_empty K c H a s (f_attached f) pid)) (\<lambda>empty0.
      bind (case f_identity f of
          Some ident \<Rightarrow> if empty0 \<and> f_attached f
            then bind (on_world (confirm_quiescent K c a s ident)) (\<lambda>q. ret (q \<noteq> None, q))
            else ret (empty0, None)
        | None \<Rightarrow> ret (empty0, None)) (\<lambda>(vacant, quiet).
      bind (case f_process f of
          Some pid \<Rightarrow> if f_seeded f \<and> vacant
            then on_world (attempt is_workspace_error False (andthen (in_ext (b_finish H pid (f_cookie f))) (ret True)))
            else ret (\<not> f_seeded f)
        | None \<Rightarrow> ret (\<not> f_seeded f)) (\<lambda>tracker.
      bind (finish_handles rid vacant quiet (f_active f)) (\<lambda>feats.
      let safe0 = (vacant \<and> tracker \<and> feats) in
      bind (if f_attached f \<and> safe0 then on_world (attempt (\<lambda>_. True) False (in_cg (cg_remove K c a s))) else ret safe0) (\<lambda>safe1.
      bind (commit_failed H rid (f_cookie f) safe1 e) (\<lambda>safe.
      whenM safe (andthen (on_rg (release lease)) (ret ()))))))))))"

definition process_start ::
  "'k cgroupfs \<Rightarrow> session_cgroup \<Rightarrow> 'e host \<Rightarrow> string \<Rightarrow> string \<Rightarrow> int list \<Rightarrow> string \<Rightarrow> string \<Rightarrow> json \<Rightarrow> json \<Rightarrow> json \<Rightarrow> json
   \<Rightarrow> json \<Rightarrow> ('k, 'e, json) pop" where
  "process_start K c H rid lease draws a s argv env timeout tc recovery =
     bind (lift_res (validate_id ''agent'' a)) (\<lambda>_.
     bind (lift_res (validate_id ''session'' s)) (\<lambda>_.
     bind (lift_res (validate_start argv env timeout)) (\<lambda>_.
     bind (own p_features) (\<lambda>fm.
     bind (lift_res (validate_trace_context fm tc)) (\<lambda>_.
     andthen (on_st (describe a s))
     (andthen (on_rg (acquire a s (recovery \<noteq> JNull) lease))
     (\<lambda>(p, w).
       let args = (case argv of JList xs \<Rightarrow> map (\<lambda>v. case v of JStr t \<Rightarrow> t | _ \<Rightarrow> []) xs | _ \<Rightarrow> []);
           f0 = no_frame\<lparr>f_cookie := (case draws of [] \<Rightarrow> 1 | d # _ \<Rightarrow> if d = 0 then 1 else d)\<rparr> in
       (case start_body K c H rid a s draws args env tc recovery lease ((f0, p), w) of
          (Inr x, ((_, p'), w')) \<Rightarrow> (Inr x, (p', w'))
        | (Inl e, ((f, p'), w')) \<Rightarrow>
            if e = Crashed then (Inl e, (p', w'))
            else andthen (cleanup_start K c H rid a s lease f e) (raise e) (p', w')))))))))"

section \<open>Finalisation\<close>

record progress =
  g_quiescent :: bool
  g_tracker :: bool
  g_features :: bool

type_synonym ('k, 'e, 'a) wop = "((progress \<times> ('k, 'e) pworld pstate) \<times> ('k, 'e) pworld, 'a) op"

definition wp_in :: "('k, 'e, 'a) pop \<Rightarrow> ('k, 'e, 'a) wop" where
  "wp_in m = (\<lambda>((g, p), w). case m (p, w) of (r, (p', w')) \<Rightarrow> (r, ((g, p'), w')))"

definition note_progress :: "(progress \<Rightarrow> progress) \<Rightarrow> ('k, 'e, unit) wop" where
  "note_progress h = own_modify (\<lambda>(g, p). (h g, p))"

definition session_of :: "string \<Rightarrow> ('k, 'e, string \<times> string) pop" where
  "session_of rid = bind (get_run rid) (\<lambda>r. lift_res (run_session (r_row r)))"

text \<open>Finish the handles of the run; their new state stays with the run.\<close>

definition run_handles :: "string \<Rightarrow> ('k, 'e) pworld active \<Rightarrow> (('k, 'e) pworld, 'a) aop \<Rightarrow> ('k, 'e, 'a) pop" where
  "run_handles rid act m =
     bind (on_world (run_active act m)) (\<lambda>(r, act').
     andthen (upd_run rid (\<lambda>x. x\<lparr>r_feature := Some act'\<rparr>)) (lift_res r))"

definition not_authorized :: "(string, json) dict \<Rightarrow> bool" where
  "not_authorized res = list_ex (\<lambda>(_, v). case v of JObj d \<Rightarrow> jget d ''release_allowed'' \<noteq> JBool True | _ \<Rightarrow> True) res"

definition watch_body :: "'k cgroupfs \<Rightarrow> session_cgroup \<Rightarrow> 'e host \<Rightarrow> string \<Rightarrow> ('k, 'e) pworld run \<Rightarrow> ('k, 'e, unit) wop" where
  "watch_body K c H rid run0 =
     bind (lift_res (case r_process run0 of None \<Rightarrow> Inl AttributeError | Some pid \<Rightarrow> Inr pid)) (\<lambda>pid.
     bind (on_world (in_ext (os_wait H pid None))) (\<lambda>code.
     andthen (wp_in (upd_run rid (\<lambda>r. r\<lparr>r_exited := True, r_timer := False,
        r_row := dict_set ''root_exit_code'' (JInt code) (r_row r)\<rparr>)))
     (bind (wp_in (session_of rid)) (\<lambda>(a, s).
      bind (on_world (in_cg (wait_empty K c a s 10))) (\<lambda>vacant.
      andthen (require vacant (WorkspaceError ''Session cgroup did not become empty after root exit''))
      (bind (lift_res (case r_identity run0 of
          None \<Rightarrow> Inl (WorkspaceError ''Session cgroup identity is missing at finalization'')
        | Some i \<Rightarrow> Inr i)) (\<lambda>ident.
       bind (on_world (in_cg (quiesce_empty K c a s (ci_id ident) 5))) (\<lambda>i.
       andthen (note_progress (\<lambda>g. g\<lparr>g_quiescent := True\<rparr>))
       (bind (wp_in (own p_features)) (\<lambda>fm.
        bind (wp_in (get_run rid)) (\<lambda>r1.
        andthen (case fm of None \<Rightarrow> ret () | Some m \<Rightarrow> on_world (with_manager m (execution_finished (r_row r1))))
        (bind (lift_res (row_item (r_row r1) ''cookie'')) (\<lambda>ck.
         andthen (case ck of JInt cookie \<Rightarrow> on_world (in_ext (b_finish H pid cookie)) | _ \<Rightarrow> raise TypeError)
         (andthen (note_progress (\<lambda>g. g\<lparr>g_tracker := True\<rparr>))
         (case r_feature run0 of
            None \<Rightarrow> ret ()
          | Some act \<Rightarrow>
              andthen (wp_in (run_handles rid act ae_assert_healthy))
              (bind (wp_in (get_run rid)) (\<lambda>r2.
               bind (wp_in (run_handles rid act (ae_finish (if r_stop_reason r2 \<noteq> None then ''stopped'' else ''completed'') (quiescence_of i)))) (\<lambda>res.
               andthen (wp_in (upd_row rid (dict_set ''feature_runs'' (JObj res))))
               (andthen (require (\<not> (r_plan run0 \<noteq> None \<and> not_authorized res))
                  (WorkspaceError ''recovery verification did not authorize Session release''))
               (note_progress (\<lambda>g. g\<lparr>g_features := True\<rparr>)))))))))))))))))))))"

text \<open>\<open>except Exception\<close> of \<open>_watch\<close>: unfinished handles are closed and the run is marked.\<close>

definition watch_failed :: "string \<Rightarrow> ('k, 'e) pworld run \<Rightarrow> error \<Rightarrow> ('k, 'e, unit) wop" where
  "watch_failed rid run0 e =
     bind (own (\<lambda>(g, _). g)) (\<lambda>g.
     andthen (case r_feature run0 of
         None \<Rightarrow> ret ()
       | Some _ \<Rightarrow> if g_features g then ret ()
           else bind (wp_in (get_run rid)) (\<lambda>r. case r_feature r of
               None \<Rightarrow> ret () | Some act \<Rightarrow> wp_in (run_handles rid act ae_close_unverified)))
     (wp_in (upd_row rid (\<lambda>row. dict_set ''trace_complete'' (JBool False) (dict_set ''error'' (JStr (exc_class e)) row)))))"

definition retire_task :: "json \<Rightarrow> json res" where
  "retire_task v = (case v of JObj task \<Rightarrow> Inr (JObj (dict_set ''alive'' (JBool False) task)) | _ \<Rightarrow> Inl TypeError)"

definition retire_tasks :: "jdict \<Rightarrow> jdict res" where
  "retire_tasks row =
     bindR (row_item row ''processes'') (\<lambda>ps. case ps of
        JObj tasks \<Rightarrow> bindR (mapR (\<lambda>(n, v). bindR (retire_task v) (\<lambda>v'. Inr (n, v'))) tasks)
          (\<lambda>tasks'. Inr (dict_set ''processes'' (JObj tasks') row))
      | _ \<Rightarrow> Inl AttributeError)"

definition outcome_row :: "bool \<Rightarrow> bool \<Rightarrow> bool \<Rightarrow> jdict \<Rightarrow> jdict" where
  "outcome_row successful trk stopped row = dict_merge row
     [(''trace_complete'', JBool (successful \<and> trk)), (''lifecycle_complete'', JBool successful),
      (''state'', JStr (if successful then (if stopped then ''stopped'' else ''completed'') else ''failed'')),
      (''session_fenced'', JBool (\<not> successful))]"

definition fenced_row :: "jdict \<Rightarrow> jdict" where
  "fenced_row row = dict_merge row [(''state'', JStr ''failed''), (''lifecycle_complete'', JBool False),
     (''trace_complete'', JBool False), (''session_fenced'', JBool True)]"

text \<open>Save durably; if that raises, the run is fenced and no longer counts as successful.\<close>

definition commit_or_fence :: "'e host \<Rightarrow> string \<Rightarrow> bool \<Rightarrow> ('k, 'e, bool) pop" where
  "commit_or_fence H rid successful =
     bind (get_run rid) (\<lambda>r.
     catch (\<lambda>_. True) (andthen (on_world (save_durable H (r_row r))) (ret successful))
       (\<lambda>e. andthen (upd_row rid (\<lambda>row. dict_set ''error'' (JStr (exc_class e)) (fenced_row row))) (ret False)))"

text \<open>Remove the empty cgroup; an error or a remaining directory fences the run.\<close>

definition remove_or_fence :: "'k cgroupfs \<Rightarrow> session_cgroup \<Rightarrow> string \<Rightarrow> string \<Rightarrow> string \<Rightarrow> ('k, 'e, bool) pop" where
  "remove_or_fence K c rid a s =
     bind (catch (\<lambda>_. True) (on_cg (cg_remove K c a s))
        (\<lambda>e. andthen (upd_row rid (dict_set ''error'' (JStr (exc_class e)))) (ret False))) (\<lambda>removed.
     andthen (upd_row rid (dict_set ''cgroup_removed'' (JBool removed)))
     (if removed then ret True
      else andthen (upd_row rid (\<lambda>row. let row' = fenced_row row in
             if ''error'' \<in> set (dict_keys row') then row' else dict_set ''error'' (JStr ''CgroupRemovalIncomplete'') row'))
           (ret False)))"

text \<open>The commits around the removal of the cgroup, then the release of the lease.\<close>

definition release_receipt :: "'k cgroupfs \<Rightarrow> session_cgroup \<Rightarrow> 'e host \<Rightarrow> string \<Rightarrow> string \<Rightarrow> bool \<Rightarrow> ('k, 'e, unit) pop" where
  "release_receipt K c H rid lease ok =
     bind (commit_or_fence H rid ok) (\<lambda>ok1.
     bind (if \<not> ok1 then ret False
           else bind (session_of rid) (\<lambda>(a, s).
             bind (remove_or_fence K c rid a s) (\<lambda>ok2.
             commit_or_fence H rid ok2))) (\<lambda>ok3.
     andthen (whenM ok3 (andthen (on_rg (release lease)) (ret ())))
     (upd_run rid (\<lambda>r. r\<lparr>r_done := True\<rparr>))))"

definition watch_commit :: "'k cgroupfs \<Rightarrow> session_cgroup \<Rightarrow> 'e host \<Rightarrow> string \<Rightarrow> progress \<Rightarrow> ('k, 'e, unit) pop" where
  "watch_commit K c H rid g =
     andthen (upd_run rid (\<lambda>r. r\<lparr>r_timer := False\<rparr>))
     (bind (own p_backend_error) (\<lambda>berr.
      bind (get_run rid) (\<lambda>r.
      let ok = (g_quiescent g \<and> g_tracker g \<and> g_features g \<and> berr = None \<and> ''error'' \<notin> set (dict_keys (r_row r)));
          row1 = outcome_row ok (b_name H \<noteq> ''disabled'') (r_stop_reason r \<noteq> None) (r_row r) in
      andthen (upd_row rid (\<lambda>_. row1))
      (bind (lift_res (if ok then retire_tasks row1 else Inr row1)) (\<lambda>row2.
       bind (world_get (\<lambda>w. os_time_ns H (pw_ext w))) (\<lambda>t.
       andthen (upd_row rid (\<lambda>_. dict_set ''finished_ns'' (JInt t) row2))
       (bind (lift_res (row_item row2 ''cookie'')) (\<lambda>ck.
        andthen (own_modify (\<lambda>p. p\<lparr>p_cookies := (case ck of JInt n \<Rightarrow> dict_del n (p_cookies p) | _ \<Rightarrow> p_cookies p)\<rparr>))
        (release_receipt K c H rid (r_lease r) ok)))))))))"

definition watch :: "'k cgroupfs \<Rightarrow> session_cgroup \<Rightarrow> 'e host \<Rightarrow> string \<Rightarrow> ('k, 'e, unit) pop" where
  "watch K c H rid =
     bind (get_run rid) (\<lambda>run0. (\<lambda>(p, w).
       let g0 = \<lparr>g_quiescent = False, g_tracker = False, g_features = (r_feature run0 = None)\<rparr> in
       (case catch (\<lambda>_. True) (watch_body K c H rid run0) (watch_failed rid run0) ((g0, p), w) of
          (Inl e, ((_, p'), w')) \<Rightarrow> (Inl e, (p', w'))
        | (Inr _, ((g, p'), w')) \<Rightarrow> watch_commit K c H rid g (p', w'))))"

section \<open>Waiting for a run to end\<close>

text \<open>
  \<open>done.wait(10)\<close>: \<open>others\<close> is what the other threads do in the meantime, the watcher of the run
  among them.
\<close>

definition await_done :: "('k, 'e, unit) pop \<Rightarrow> string \<Rightarrow> ('k, 'e, bool) pop" where
  "await_done others rid = andthen others (bind (get_run rid) (\<lambda>r. ret (r_done r)))"

definition session_runs :: "string \<Rightarrow> string \<Rightarrow> 'w pstate \<Rightarrow> string list" where
  "session_runs a s p = map fst (filter (\<lambda>(_, r). \<not> r_done r \<and> run_session (r_row r) = Inr (a, s)) (p_runs p))"

text \<open>Entering \<open>session_launch_fence\<close> with termination; leaving it only releases the launch lock.\<close>

definition launch_fence ::
  "'k cgroupfs \<Rightarrow> session_cgroup \<Rightarrow> 'e host \<Rightarrow> ('k, 'e, unit) pop \<Rightarrow> string \<Rightarrow> string \<Rightarrow> bool \<Rightarrow> string \<Rightarrow> ('k, 'e, string list) pop" where
  "launch_fence K c H others a s terminate reason =
     bind (lift_res (validate_id ''agent'' a)) (\<lambda>_.
     bind (lift_res (validate_id ''session'' s)) (\<lambda>_.
     if \<not> terminate then ret []
     else bind (own (session_runs a s)) (\<lambda>rids.
       andthen (forM rids (\<lambda>rid. terminate_locked K c H rid reason))
       (andthen (forM rids (\<lambda>rid. bind (await_done others rid) (\<lambda>d.
          require d (WorkspaceError ''Session cgroup termination timed out; rollback remains fenced''))))
       (ret rids)))))"

definition process_stop ::
  "'k cgroupfs \<Rightarrow> session_cgroup \<Rightarrow> 'e host \<Rightarrow> ('k, 'e, unit) pop \<Rightarrow> string \<Rightarrow> string \<Rightarrow> string \<Rightarrow> ('k, 'e, jdict) pop" where
  "process_stop K c H others a s rid =
     andthen (process_get a s rid)
     (bind (own (\<lambda>p. rid \<in> set (dict_keys (p_runs p)))) (\<lambda>known.
      andthen (require known (WorkspaceError ''cannot control a historical run''))
      (andthen (terminate_locked K c H rid ''requested'')
      (bind (await_done others rid) (\<lambda>d.
       andthen (require d (WorkspaceError ''Session cgroup termination is incomplete; session remains fenced''))
       (process_get a s rid))))))"

definition process_close :: "'k cgroupfs \<Rightarrow> session_cgroup \<Rightarrow> 'e host \<Rightarrow> ('k, 'e, unit) pop \<Rightarrow> ('k, 'e, unit) pop" where
  "process_close K c H others =
     bind (own p_closed) (\<lambda>closed.
     if closed then ret ()
     else andthen (own_modify (\<lambda>p. p\<lparr>p_closed := True\<rparr>))
       (bind (own active_runs) (\<lambda>act.
        andthen (forM act (\<lambda>rid. terminate_locked K c H rid ''daemon_shutdown''))
        (andthen (forM act (\<lambda>rid. andthen (await_done others rid) (ret ())))
        (finally_do (on_ext (b_close H)) launcher_close)))))"

end
