(* ===== verification/Process_Properties.thy ===== *)
theory Process_Properties
  imports Process_Lifecycle
begin

text \<open>
  What the process tracking service guarantees: state files are replaced atomically, a restart fences
  every Session whose run was not finished, event pages lose and repeat nothing, a launch fence
  leaves no active run, and the lease of a run is released only together with an unfenced, durably
  saved receipt.
\<close>

section \<open>State files\<close>

lemma disk_step_cases:
  assumes "disk_step H dir f w = (r, w')"
  shows "(\<exists>e. r = Inl e \<and> pw_audit w' = pw_audit w) \<or>
    (\<exists>d. r = Inr () \<and> map_of (pw_audit w) dir = Some d \<and> pw_audit w' = dict_set dir (f d) (pw_audit w))"
  using assms by (auto simp: disk_step_def io_defs in_ext_def upd_dir_def split: prod.splits sum.splits if_splits)

text \<open>The state file of a directory.\<close>

definition state_of :: "string \<Rightarrow> ('k, 'e) pworld \<Rightarrow> jdict option" where
  "state_of dir w = Option.bind (map_of (pw_audit w) dir) state_file"

definition state_step :: "string \<Rightarrow> jdict option \<Rightarrow> (('k, 'e) pworld, 'a) op \<Rightarrow> bool" where
  "state_step dir v m = (\<forall>w r w'. m w = (r, w') \<longrightarrow>
     (\<forall>d. d \<noteq> dir \<longrightarrow> state_of d w' = state_of d w) \<and> state_of dir w' \<in> {state_of dir w, v})"

lemma state_step_disk:
  assumes "\<And>d. state_file (f d) = state_file d \<or> state_file (f d) = v"
  shows "state_step dir v (disk_step H dir f)"
  unfolding state_step_def
proof (intro allI impI)
  fix w r and w' :: "('a, 'b) pworld" assume "disk_step H dir f w = (r, w')"
  from disk_step_cases [OF this] assms
  show "(\<forall>d. d \<noteq> dir \<longrightarrow> state_of d w' = state_of d w) \<and> state_of dir w' \<in> {state_of dir w, v}"
    by (auto simp: state_of_def) metis
qed

lemma state_step_pure: "state_step dir v (ret x)" "state_step dir v (raise e)" "state_step dir v (lift_res r)"
  by (simp_all add: state_step_def io_defs)

lemma state_step_bind:
  assumes "state_step dir v m" and "\<And>x. state_step dir v (g x)"
  shows "state_step dir v (bind m g)"
  using assms unfolding state_step_def bind_def
  by (auto split: prod.splits sum.splits) (metis insertE singletonD)+

lemma state_step_catch:
  assumes "state_step dir v m" and "\<And>e. state_step dir v (h e)"
  shows "state_step dir v (catch sel m h)"
  using assms unfolding state_step_def catch_def
  by (auto split: prod.splits sum.splits if_splits) (metis insertE singletonD)+

lemmas state_step_intros = state_step_pure state_step_bind state_step_catch state_step_disk

lemma state_step_andthen: "state_step dir v m \<Longrightarrow> state_step dir v k \<Longrightarrow> state_step dir v (andthen m k)"
  unfolding andthen_def by (rule state_step_bind)

lemma save_durable_step:
  assumes "row_text row ''audit_directory'' = Inr dir"
  shows "state_step dir (Some row) (save_durable H row)"
  unfolding save_durable_def assms Let_def bind_lift_Inr
  by (intro state_step_andthen state_step_catch state_step_pure state_step_disk) simp_all

lemma returns_disk_step:
  "returns (disk_step H dir f) w (\<lambda>_ w'. \<exists>d. map_of (pw_audit w) dir = Some d \<and> state_of dir w' = state_file (f d))"
  unfolding wp_def using disk_step_cases [of H dir f w]
  by (fastforce simp: state_of_def split: prod.splits sum.splits)

lemma returns_disk_id: "state_of dir w = Some row \<Longrightarrow> returns (disk_step H dir id) w (\<lambda>_ w'. state_of dir w' = Some row)"
  by (rule wp_mono [OF returns_disk_step]) (auto simp: state_of_def)

lemma returns_catch_raise: "returns m w P \<Longrightarrow> returns (catch sel m (\<lambda>e. raise (h e))) w P"
  by (auto simp: wp_catch wp_raise elim: wp_mono)

lemma returns_True: "returns m w (\<lambda>_ _. True)"
  by (simp add: wp_def split: prod.splits sum.splits)

lemma returns_then_raise: "returns (andthen m (raise e)) w P"
  unfolding wp_andthen by (rule wp_mono [OF returns_True]) (simp_all add: wp_raise)

lemma save_durable_returns:
  assumes "row_text row ''audit_directory'' = Inr dir"
  shows "returns (save_durable H row) w (\<lambda>_ w'. state_of dir w' = Some row)"
  unfolding save_durable_def assms Let_def bind_lift_Inr
proof (rule returns_andthen [where P = "\<lambda>_ _. True"], goal_cases)
  case (2 u w1)
  show ?case
  proof (rule returns_andthen [where P = "\<lambda>_ _. True"], goal_cases)
    case (2 u w2)
    show ?case
    proof (rule returns_andthen [where P = "\<lambda>_ w'. state_of dir w' = Some row"], goal_cases)
      case 1
      show ?case
        unfolding wp_catch
      proof (rule wp_mono [where Q = "\<lambda>_ w'. state_of dir w' = Some row" and E = "\<lambda>_ _. True"], goal_cases)
        case 1
        show ?case
          by (intro returns_andthen [where P = "\<lambda>_ _. True"] wp_mono [OF returns_disk_step [where H = H]]) auto
      next
        case (3 e w3)
        show ?case by (simp add: returns_then_raise)
      qed
    next
      case (2 u w4)
      then show ?case by (intro returns_catch_raise returns_disk_id)
    qed
  qed (rule returns_True)
qed (rule returns_True)

section \<open>Pages of events\<close>

definition seq_of :: "jdict \<Rightarrow> int" where
  "seq_of ev = (case jget ev ''sequence'' of JInt k \<Rightarrow> k | _ \<Rightarrow> 0)"

definition numbered :: "jdict list \<Rightarrow> bool" where
  "numbered evs = list_all (\<lambda>ev. \<exists>k. map_of ev ''sequence'' = Some (JInt k)) evs"

lemma scan_events_take:
  assumes "numbered evs" and "length acc < limit"
  shows "scan_events after limit acc evs
    = Inr (acc @ take (limit - length acc) (filter (\<lambda>ev. after < seq_of ev) evs))"
  using assms
proof (induction evs arbitrary: acc)
  case (Cons ev evs)
  then obtain k where k: "map_of ev ''sequence'' = Some (JInt k)" by (auto simp: numbered_def)
  have "numbered evs" using Cons.prems by (simp add: numbered_def)
  consider "\<not> after < k" | "after < k" "limit = Suc (length acc)" | "after < k" "Suc (length acc) < limit"
    using Cons.prems(2) by linarith
  then show ?case
  proof cases
    case 3
    then have "limit - length acc = Suc (limit - length (acc @ [ev]))" by simp
    with 3 show ?thesis
      using Cons.IH [OF \<open>numbered evs\<close>, of "acc @ [ev]"] k by (simp add: row_item_def seq_of_def)
  qed (use Cons.IH [OF \<open>numbered evs\<close>, of acc] Cons.prems(2) k in \<open>simp_all add: row_item_def seq_of_def\<close>)
qed simp

lemma sorted_filter_split:
  assumes "sorted_wrt (<) (map seq_of evs)" and "xs = take n (filter (\<lambda>ev. after < seq_of ev) evs)" and "xs \<noteq> []"
  shows "filter (\<lambda>ev. after < seq_of ev) evs = xs @ filter (\<lambda>ev. seq_of (last xs) < seq_of ev) evs"
proof -
  let ?F = "filter (\<lambda>ev. after < seq_of ev) evs"
  have split: "?F = xs @ drop n ?F" using assms(2) by simp
  have sorted: "sorted_wrt (\<lambda>x y. seq_of x < seq_of y) ?F"
    using assms(1) by (simp add: sorted_wrt_map sorted_wrt_filter)
  have last: "last xs \<in> set xs" using assms(3) by simp
  have "last xs \<in> set ?F" using last split by (metis UnCI set_append)
  then have "after < seq_of (last xs)" by simp
  then have "filter (\<lambda>ev. seq_of (last xs) < seq_of ev) evs = filter (\<lambda>ev. seq_of (last xs) < seq_of ev) ?F"
    by (auto intro: filter_cong simp: filter_filter)
  also have "\<dots> = filter (\<lambda>ev. seq_of (last xs) < seq_of ev) xs @ filter (\<lambda>ev. seq_of (last xs) < seq_of ev) (drop n ?F)"
    using split by (metis filter_append)
  also have "filter (\<lambda>ev. seq_of (last xs) < seq_of ev) (drop n ?F) = drop n ?F"
    using sorted last split by (metis (no_types, lifting) filter_True sorted_wrt_append)
  also have "filter (\<lambda>ev. seq_of (last xs) < seq_of ev) xs = []"
  proof -
    have "sorted_wrt (\<lambda>x y. seq_of x < seq_of y) xs" using sorted split by (metis sorted_wrt_append)
    then have "\<forall>x \<in> set xs. seq_of x \<le> seq_of (last xs)"
      using assms(3) by (metis append_butlast_last_id in_set_conv_decomp less_imp_le order_refl set_ConsD set_append sorted_wrt_append Un_iff list.set_intros(1) empty_iff empty_set)
    then show ?thesis by (simp add: filter_empty_conv not_less)
  qed
  finally show ?thesis using split by simp
qed

lemma seq_of_numbered: "numbered evs \<Longrightarrow> ev \<in> set evs \<Longrightarrow> jget ev ''sequence'' = JInt (seq_of ev)"
  by (auto simp: numbered_def list_all_iff seq_of_def dict_get_def)

text \<open>The event log of a directory, and that it is numbered in increasing order up to a count.\<close>

definition log_of :: "string \<Rightarrow> ('k, 'e) pworld \<Rightarrow> jdict list" where
  "log_of dir w = (case map_of (pw_audit w) dir of None \<Rightarrow> [] | Some d \<Rightarrow> event_lines d)"

definition ordered_upto :: "int \<Rightarrow> jdict list \<Rightarrow> bool" where
  "ordered_upto c evs = (numbered evs \<and> sorted_wrt (<) (map seq_of evs) \<and> (\<forall>ev \<in> set evs. seq_of ev \<le> c))"

lemma ordered_upto_snoc:
  "ordered_upto c evs \<Longrightarrow> map_of ev ''sequence'' = Some (JInt (c + 1)) \<Longrightarrow> ordered_upto (c + 1) (evs @ [ev])"
  by (auto simp: ordered_upto_def numbered_def sorted_wrt_append seq_of_def dict_get_def)

lemma ordered_upto_mono: "ordered_upto c evs \<Longrightarrow> c \<le> c' \<Longrightarrow> ordered_upto c' evs"
  by (auto simp: ordered_upto_def)

definition logged_run :: "('k, 'e) ps \<Rightarrow> string \<Rightarrow> ('k, 'e) pworld run \<Rightarrow> bool" where
  "logged_run st rid r = (row_text (r_row r) ''audit_directory'' = Inr (run_dir (fst st) rid) \<and>
     (\<exists>c. map_of (r_row r) ''event_count'' = Some (JInt c) \<and> ordered_upto c (log_of (run_dir (fst st) rid) (snd st))))"

definition logs_ordered :: "('k, 'e) ps \<Rightarrow> bool" where
  "logs_ordered st = (\<forall>rid r. map_of (p_runs (fst st)) rid = Some r \<longrightarrow> logged_run st rid r)"

lemma run_dir_inj: "run_dir p rid = run_dir p rid' \<longleftrightarrow> rid = rid'"
  by (simp add: run_dir_def)

lemma log_of_step:
  assumes "disk_step H dir f w = (r, w')"
  shows "(\<forall>d. d \<noteq> dir \<longrightarrow> log_of d w' = log_of d w) \<and>
    (log_of dir w' = log_of dir w \<or> (\<exists>a. map_of (pw_audit w) dir = Some a \<and> log_of dir w' = event_lines (f a)))"
  using disk_step_cases [OF assms] by (auto simp: log_of_def)

lemma keeps_log_disk: "(\<And>d. event_lines (f d) = event_lines d) \<Longrightarrow> keeps (log_of dir) (disk_step H dir' f)"
  unfolding keeps_def
proof
  fix w assume "\<And>d. event_lines (f d) = event_lines d"
  then show "log_of dir (snd (disk_step H dir' f w)) = log_of dir w"
    using log_of_step [of H dir' f w "fst (disk_step H dir' f w)" "snd (disk_step H dir' f w)"]
    by (cases "dir = dir'") (auto simp: log_of_def)
qed

lemma keeps_log_save: "keeps (log_of dir) (save H row)"
  unfolding save_def by (intro keeps_intros keeps_log_disk) simp_all

section \<open>Restart\<close>

lemma keeps_reg_in [keeps_intros]:
  "keeps pw_reg (in_ext m)" "keeps pw_reg (in_store m')" "keeps pw_reg (in_cg m'')"
  by (simp_all add: keeps_def in_ext_def in_store_def in_cg_def split: prod.splits)

lemma keeps_reg_disk [keeps_intros]: "keeps pw_reg (disk_step H dir f)"
  unfolding disk_step_def
  by (intro keeps_intros) (auto intro: keeps_intros simp: keeps_def modify_def upd_dir_def raise_def)

lemma keeps_reg_save [keeps_intros]: "keeps pw_reg (save H row)" "keeps pw_reg (save_durable H row)"
  unfolding save_def save_durable_def Let_def by (intro keeps_intros)+

lemma acquire_returns:
  assumes "acquire a s False t g = (Inr x, g')"
  shows "g' = g\<lparr>leases := dict_set t (a, s) (leases g)\<rparr>"
  using assms by (auto simp: acquire_def reg_key_def bindR_eq_Inr io_defs split: if_splits sum.splits)

lemma row_text_other: "k' \<noteq> k \<Longrightarrow> row_text (dict_set k v row) k' = row_text row k'"
  by (simp add: row_text_def row_item_def)

lemma interrupt_row_text:
  assumes "interrupt_row row = Inr row'" and "k \<notin> {''state'', ''session_fenced'', ''trace_complete'', ''feature_runs'', ''processes''}"
  shows "row_text row' k = row_text row k"
proof -
  define row1 where "row1 = dict_set ''trace_complete'' (JBool False) (dict_set ''session_fenced'' (JBool True)
    (dict_set ''state'' (JStr ''interrupted'') row))"
  define row2 where "row2 = (case jget row1 ''feature_runs'' of
    JObj fr \<Rightarrow> dict_set ''feature_runs'' (JObj (map (\<lambda>(n, v). (n, interrupt_status v)) fr)) row1 | _ \<Rightarrow> row1)"
  have "\<exists>ps. row' = dict_set ''processes'' ps row2"
    using assms(1) unfolding interrupt_row_def Let_def row1_def [symmetric] row2_def [symmetric] bindR_eq_Inr
  proof (elim exE conjE)
    fix ps
    assume "(case ps of JObj tasks \<Rightarrow> bindR (mapR (\<lambda>(n, v). bindR (forget_alive v) (\<lambda>v'. Inr (n, v'))) tasks)
      (\<lambda>tasks'. Inr (dict_set ''processes'' (JObj tasks') row2)) | _ \<Rightarrow> Inl AttributeError) = Inr row'"
    then show ?thesis by (cases ps) (auto simp: bindR_eq_Inr)
  qed
  moreover have "row_text row1 k = row_text row k" using assms(2) by (simp add: row1_def row_text_other)
  moreover have "row_text row2 k = row_text row1 k"
    using assms(2) by (simp add: row2_def row_text_other split: json.split)
  ultimately show ?thesis using assms(2) by (auto simp: row_text_other)
qed

lemma interrupt_row_session:
  "interrupt_row row = Inr row' \<Longrightarrow> run_session row' = run_session row"
  by (simp add: run_session_def interrupt_row_text)

definition leased_as :: "(session_key \<Rightarrow> string) \<Rightarrow> ('k, 'e) pworld \<Rightarrow> session_key \<Rightarrow> bool" where
  "leased_as tok w k = (map_of (leases (pw_reg w)) (tok k) = Some k)"

lemma epoch_after_mono: "n \<le> epoch_after row n"
  by (auto simp: epoch_after_def split: json.splits)

lemma recover_step:
  assumes "recover_rows H tok (row # rows) seen n w = (Inr m, w')" and "inj tok" and "\<forall>k \<in> seen. leased_as tok w k"
  shows "\<exists>seen' w1. recover_rows H tok rows seen' (epoch_after row n) w1 = (Inr m, w') \<and> seen \<subseteq> seen' \<and>
    (\<forall>k \<in> seen'. leased_as tok w1 k) \<and> (needs_fence row = Inr True \<longrightarrow> (\<exists>k \<in> seen'. run_session row = Inr k))"
proof (cases "needs_fence row")
  case (Inr fence)
  show ?thesis
  proof (cases fence)
    case False
    then show ?thesis
      using assms Inr by (intro exI [of _ seen] exI [of _ w]) (simp add: bind_lift_Inr)
  next
    case True
    obtain row' w1 a s where steps: "interrupt_row row = Inr row'" "save H row' w = (Inr (), w1)"
        "row_text row' ''agent_id'' = Inr a" "row_text row' ''session_id'' = Inr s"
        "(if (a, s) \<in> seen then recover_rows H tok rows seen (epoch_after row n)
          else andthen (in_reg (acquire a s False (tok (a, s))))
            (recover_rows H tok rows (insert (a, s) seen) (epoch_after row n))) w1 = (Inr m, w')"
      using assms(1) Inr True by (auto simp: bind_lift_Inr Let_def elim!: bind_InrE andthen_InrE lift_InrE)
    have sess: "run_session row = Inr (a, s)"
      using steps(3,4) interrupt_row_session [OF steps(1)] by (simp add: run_session_def)
    have reg: "pw_reg w1 = pw_reg w" using keepsD [OF keeps_reg_save(1) steps(2)] .
    show ?thesis
    proof (cases "(a, s) \<in> seen")
      case True
      then show ?thesis
        using steps(5) sess reg assms(3) by (intro exI [of _ seen] exI [of _ w1]) (auto simp: leased_as_def)
    next
      case False
      obtain x w2 where acq: "in_reg (acquire a s False (tok (a, s))) w1 = (Inr x, w2)"
          "recover_rows H tok rows (insert (a, s) seen) (epoch_after row n) w2 = (Inr m, w')"
        using steps(5) False by (auto simp: andthen_def bind_def split: prod.splits sum.splits)
      have "leases (pw_reg w2) = dict_set (tok (a, s)) (a, s) (leases (pw_reg w))"
        using acq(1) reg acquire_returns [of a s "tok (a, s)" "pw_reg w1" x]
        by (auto simp: in_reg_def split: prod.splits)
      then have "\<forall>k \<in> insert (a, s) seen. leased_as tok w2 k"
        using assms(2,3) False by (auto simp: leased_as_def inj_eq)
      then show ?thesis
        using acq(2) sess by (intro exI [of _ "insert (a, s) seen"] exI [of _ w2]) auto
    qed
  qed
qed (use assms in \<open>simp add: bind_def lift_res_def\<close>)

lemma recover_rows_fences:
  assumes "recover_rows H tok rows seen n w = (Inr m, w')" and "inj tok" and "\<forall>k \<in> seen. leased_as tok w k"
  shows "n \<le> m \<and> (\<forall>k \<in> seen. leased_as tok w' k) \<and> (\<forall>row \<in> set rows. epoch_after row n \<le> m \<and>
     (needs_fence row = Inr True \<longrightarrow> (\<exists>k. run_session row = Inr k \<and> leased_as tok w' k)))"
  using assms
proof (induction rows arbitrary: seen n w)
  case Nil
  then show ?case by (simp add: ret_def)
next
  case (Cons row rows)
  obtain seen' w1 where st: "recover_rows H tok rows seen' (epoch_after row n) w1 = (Inr m, w')" "seen \<subseteq> seen'"
      "\<forall>k \<in> seen'. leased_as tok w1 k" "needs_fence row = Inr True \<longrightarrow> (\<exists>k \<in> seen'. run_session row = Inr k)"
    using recover_step [OF Cons.prems] by blast
  note IH = Cons.IH [OF st(1) Cons.prems(2) st(3)]
  have "epoch_after r n \<le> epoch_after r (epoch_after row n)" for r
    using epoch_after_mono [of n row] by (auto simp: epoch_after_def split: json.splits)
  then show ?case
    using IH st(2,4) epoch_after_mono [of n row] by (fastforce intro: order_trans)
qed

section \<open>Finalisation of a run\<close>

lemma wp_get_run [wp_simps]:
  "wp (get_run rid) Q E (p, w) = (case map_of (p_runs p) rid of None \<Rightarrow> E KeyError (p, w) | Some r \<Rightarrow> Q r (p, w))"
  by (simp add: get_run_def wp_simps split: option.split)

lemma wp_world_get [wp_simps]: "wp (world_get f) Q E (p, w) = Q (f w) (p, w)"
  by (simp add: world_get_def wp_simps)

lemma map_of_mod_run [simp]:
  "map_of (p_runs (mod_run rid f p)) rid' = (if rid' = rid then map_option f (map_of (p_runs p) rid) else map_of (p_runs p) rid')"
  by (auto simp: mod_run_def split: option.split)

lemma mod_run_parts [simp]: "p_backend_error (mod_run rid f p) = p_backend_error p"
  by (simp add: mod_run_def)

definition is_fenced :: "jdict \<Rightarrow> bool" where
  "is_fenced row = (jget row ''session_fenced'' = JBool True)"

definition settled :: "jdict \<Rightarrow> bool" where
  "settled row = (jget row ''session_fenced'' = JBool False \<and> jget row ''lifecycle_complete'' = JBool True \<and>
     jget row ''state'' \<in> {JStr ''completed'', JStr ''stopped''})"

definition receipt :: "jdict \<Rightarrow> bool" where
  "receipt row = (settled row \<and> jget row ''cgroup_removed'' = JBool True)"

lemma dict_get_merge: "dict_get (dict_merge d e) k x = (case map_of (rev e) k of None \<Rightarrow> dict_get d k x | Some v \<Rightarrow> v)"
  by (simp add: dict_get_def map_of_dict_merge split: option.split)

lemma row_text_merge: "k \<notin> set (dict_keys e) \<Longrightarrow> row_text (dict_merge d e) k = row_text d k"
  by (induction d e rule: dict_merge.induct) (auto simp: row_text_other)

lemma fenced_row_simps [simp]:
  "is_fenced (fenced_row row)" "row_text (fenced_row row) ''audit_directory'' = row_text row ''audit_directory''"
  by (simp_all add: is_fenced_def fenced_row_def dict_get_merge row_text_merge row_text_other)

lemma is_fenced_set [simp]: "k \<noteq> ''session_fenced'' \<Longrightarrow> is_fenced (dict_set k v row) = is_fenced row"
  by (auto simp: is_fenced_def)

lemma settled_set:
  "k \<notin> {''session_fenced'', ''lifecycle_complete'', ''state''} \<Longrightarrow> settled (dict_set k v row) = settled row"
  by (auto simp: settled_def)

lemma outcome_row_cases:
  "settled (outcome_row True trk stopped row)" "is_fenced (outcome_row False trk stopped row)"
  "row_text (outcome_row ok trk stopped row) ''audit_directory'' = row_text row ''audit_directory''"
  by (simp_all add: settled_def is_fenced_def outcome_row_def dict_get_merge row_text_merge row_text_other)

lemma retire_tasks_only_processes:
  assumes "retire_tasks row = Inr row'"
  obtains ps where "row' = dict_set ''processes'' ps row"
proof -
  obtain ps where "(case ps of JObj tasks \<Rightarrow> bindR (mapR (\<lambda>(n, v). bindR (retire_task v) (\<lambda>v'. Inr (n, v'))) tasks)
      (\<lambda>tasks'. Inr (dict_set ''processes'' (JObj tasks') row)) | _ \<Rightarrow> Inl AttributeError) = Inr row'"
    using assms by (auto simp: retire_tasks_def bindR_eq_Inr)
  then show ?thesis by (cases ps) (auto simp: bindR_eq_Inr intro: that)
qed

text \<open>A run whose row names its audit directory, with its lease.\<close>

definition owned_run :: "string \<Rightarrow> string \<Rightarrow> string \<Rightarrow> (jdict \<Rightarrow> bool) \<Rightarrow> ('k, 'e) pworld pstate \<Rightarrow> bool" where
  "owned_run rid dir tok P p = (\<exists>r. map_of (p_runs p) rid = Some r \<and> row_text (r_row r) ''audit_directory'' = Inr dir \<and>
     r_lease r = tok \<and> P (r_row r))"

definition on_disk :: "string \<Rightarrow> string \<Rightarrow> ('k, 'e) ps \<Rightarrow> bool" where
  "on_disk rid dir st = (state_of dir (snd st) = map_option r_row (map_of (p_runs (fst st)) rid))"

lemma wp_save_durable:
  assumes "row_text row ''audit_directory'' = Inr dir"
  shows "wp (save_durable H row) (\<lambda>_ w'. state_of dir w' = Some row \<and> pw_reg w' = pw_reg w) (\<lambda>_ w'. pw_reg w' = pw_reg w) w"
  by (rule wp_mono [OF wp_conj [OF save_durable_returns [OF assms] keeps_wp [OF keeps_reg_save(2)]]]) auto

lemma owned_run_row:
  assumes "owned_run rid dir tok Q p"
    and "\<And>row. Q row \<Longrightarrow> P (f row) \<and> row_text (f row) ''audit_directory'' = row_text row ''audit_directory''"
  shows "owned_run rid dir tok P (mod_run rid (\<lambda>r. r\<lparr>r_row := f (r_row r)\<rparr>) p)"
  using assms by (fastforce simp: owned_run_def)

lemma owned_run_mono: "owned_run rid dir tok Q p \<Longrightarrow> (\<And>row. Q row \<Longrightarrow> P row) \<Longrightarrow> owned_run rid dir tok P p"
  by (auto simp: owned_run_def)

lemma wp_commit_or_fence:
  assumes "owned_run rid dir tok P p" and "\<not> ok \<Longrightarrow> P = is_fenced"
  shows "wp (commit_or_fence H rid ok)
    (\<lambda>ok' (p', w'). pw_reg w' = pw_reg w \<and> (ok' \<longrightarrow> ok \<and> on_disk rid dir (p', w')) \<and>
       owned_run rid dir tok (if ok' then P else is_fenced) p')
    (\<lambda>_ (p', w'). pw_reg w' = pw_reg w) (p, w)"
proof -
  obtain r where r: "map_of (p_runs p) rid = Some r" "row_text (r_row r) ''audit_directory'' = Inr dir"
    using assms(1) by (auto simp: owned_run_def)
  have fence: "owned_run rid dir tok is_fenced (mod_run rid (\<lambda>r. r\<lparr>r_row := dict_set ''error'' v (fenced_row (r_row r))\<rparr>) p)" for v
    using assms(1) by (rule owned_run_row) (simp add: row_text_other)
  show ?thesis
    unfolding commit_or_fence_def wp_bind wp_get_run r(1) option.case wp_catch wp_andthen wp_on_world wp_ret
      wp_own_modify fst_conv snd_conv prod.case
    by (rule wp_mono [OF wp_save_durable [OF r(2)]]) (use r(1) assms fence in \<open>auto simp: on_disk_def\<close>)
qed

lemma wp_remove_or_fence:
  assumes "owned_run rid dir tok settled p"
  shows "wp (remove_or_fence K c rid a s)
    (\<lambda>ok (p', w'). pw_reg w' = pw_reg w \<and>
       owned_run rid dir tok (if ok then receipt else is_fenced) p')
    (\<lambda>_ (p', w'). pw_reg w' = pw_reg w) (p, w)"
proof -
  let ?mark = "\<lambda>b. mod_run rid (\<lambda>r. r\<lparr>r_row := dict_set ''cgroup_removed'' (JBool b) (r_row r)\<rparr>)"
  let ?fence = "mod_run rid (\<lambda>r. r\<lparr>r_row := let row' = fenced_row (r_row r) in
      if ''error'' \<in> set (dict_keys row') then row' else dict_set ''error'' (JStr ''CgroupRemovalIncomplete'') row'\<rparr>)"
  have ok: "owned_run rid dir tok receipt (?mark True p)"
    using assms by (rule owned_run_row) (simp add: receipt_def settled_set row_text_other)
  have fence: "owned_run rid dir tok is_fenced (?fence (?mark False q))" if "owned_run rid dir tok Q q" for q Q
    by (rule owned_run_row [OF owned_run_row [OF that, where P = "\<lambda>_. True"]]) (simp_all add: Let_def row_text_other)
  have err: "owned_run rid dir tok (\<lambda>_. True) (mod_run rid (\<lambda>r. r\<lparr>r_row := dict_set ''error'' v (r_row r)\<rparr>) p)" for v
    using assms by (rule owned_run_row) (simp add: row_text_other)
  show ?thesis
    unfolding remove_or_fence_def wp_bind wp_catch wp_andthen wp_on_world wp_ret wp_own_modify wp_if fst_conv snd_conv prod.case
    by (rule wp_mono [OF keeps_wp [OF keeps_reg_in(3)]]) (use ok fence [OF assms] fence [OF err] in auto)
qed

text \<open>The two commits around the removal of the cgroup.\<close>

lemma wp_commit_twice:
  assumes "owned_run rid dir tok (if ok then settled else is_fenced) p"
  shows "wp (bind (commit_or_fence H rid ok) (\<lambda>ok1. if \<not> ok1 then ret False
      else bind (session_of rid) (\<lambda>(a, s). bind (remove_or_fence K c rid a s) (commit_or_fence H rid))))
    (\<lambda>ok3 (p', w'). pw_reg w' = pw_reg w \<and> (ok3 \<longrightarrow> ok \<and> on_disk rid dir (p', w')) \<and>
       owned_run rid dir tok (if ok3 then receipt else is_fenced) p')
    (\<lambda>_ (p', w'). pw_reg w' = pw_reg w) (p, w)"
  unfolding wp_bind
proof (rule wp_mono [OF wp_commit_or_fence [OF assms]], goal_cases)
  case (2 ok1 st)
  obtain p1 w1 where st: "st = (p1, w1)" by (cases st)
  note c1 = 2 [unfolded st prod.case]
  have commit2: "wp (commit_or_fence H rid ok2)
      (\<lambda>ok3 (p', w'). pw_reg w' = pw_reg w \<and> (ok3 \<longrightarrow> ok1 \<and> on_disk rid dir (p', w')) \<and>
         owned_run rid dir tok (if ok3 then receipt else is_fenced) p') (\<lambda>_ (p', w'). pw_reg w' = pw_reg w) (p2, w2)"
    if "pw_reg w2 = pw_reg w1" "ok1" "owned_run rid dir tok (if ok2 then receipt else is_fenced) p2" for ok2 p2 w2
    by (rule wp_mono [OF wp_commit_or_fence [OF that(3)]]) (use that c1 in \<open>auto split: if_splits\<close>)
  show ?case
  proof (cases ok1)
    case True
    then have "owned_run rid dir tok settled p1" using c1 by (auto split: if_splits)
    note rem = wp_remove_or_fence [OF this, of K c _ _ w1]
    show ?thesis
      unfolding st using True c1
      apply (simp add: session_of_def wp_simps split: option.split sum.split)
      apply (intro allI impI)
      apply (rule wp_mono [OF rem])
      by (auto intro!: wp_mono [OF commit2] split: if_splits)
  qed (use c1 st in \<open>auto simp: wp_simps\<close>)
qed (auto split: if_splits)

lemma wp_release:
  "wp (in_reg (release tok)) (\<lambda>_ w'. leases (pw_reg w') = dict_del tok (leases (pw_reg w)) \<and> state_of d w' = state_of d w)
     (\<lambda>_ _. False) w"
  by (simp add: wp_def in_reg_def release_def io_defs state_of_def)

lemma wp_release_receipt:
  assumes "owned_run rid dir tok (if ok then settled else is_fenced) p"
  shows "wp (release_receipt K c H rid tok ok)
    (\<lambda>_ (p', w'). \<exists>r'. map_of (p_runs p') rid = Some r' \<and> r_done r' \<and>
       (pw_reg w' = pw_reg w \<and> is_fenced (r_row r') \<or>
        leases (pw_reg w') = dict_del tok (leases (pw_reg w)) \<and> receipt (r_row r') \<and> state_of dir w' = Some (r_row r') \<and> ok))
    (\<lambda>_ (p', w'). pw_reg w' = pw_reg w) (p, w)"
  unfolding release_receipt_def
proof (rule wp_bind_then [OF wp_commit_twice [OF assms]], goal_cases)
    case (1 ok3 st)
    obtain p1 w1 where st: "st = (p1, w1)" by (cases st)
    show ?case
      using 1 by (cases ok3) (auto simp: st wp_simps owned_run_def on_disk_def intro!: wp_mono [OF wp_release [of _ _ dir]])
qed

lemma wp_watch_commit:
  assumes r: "map_of (p_runs p) rid = Some r" and dir: "row_text (r_row r) ''audit_directory'' = Inr dir"
  shows "wp (watch_commit K c H rid g)
    (\<lambda>_ (p', w'). \<exists>r'. map_of (p_runs p') rid = Some r' \<and> r_done r' \<and>
       (pw_reg w' = pw_reg w \<and> is_fenced (r_row r') \<or>
        leases (pw_reg w') = dict_del (r_lease r) (leases (pw_reg w)) \<and> receipt (r_row r') \<and>
        state_of dir w' = Some (r_row r') \<and> g_quiescent g \<and> g_tracker g \<and> g_features g \<and>
        p_backend_error p = None \<and> map_of (r_row r) ''error'' = None))
    (\<lambda>_ (p', w'). pw_reg w' = pw_reg w) (p, w)" (is "wp _ ?Q ?E _")
proof -
  define p1 where "p1 = mod_run rid (\<lambda>r. r\<lparr>r_timer := False\<rparr>) p"
  define r1 where "r1 = r\<lparr>r_timer := False\<rparr>"
  define ok where "ok = (g_quiescent g \<and> g_tracker g \<and> g_features g \<and> p_backend_error p1 = None \<and> ''error'' \<notin> set (dict_keys (r_row r1)))"
  define row1 where "row1 = outcome_row ok (b_name H \<noteq> ''disabled'') (r_stop_reason r1 \<noteq> None) (r_row r1)"
  have p1: "map_of (p_runs p1) rid = Some r1" "r_row r1 = r_row r" "r_lease r1 = r_lease r"
    using r by (simp_all add: p1_def r1_def)
  have ok_imp: "ok \<Longrightarrow> g_quiescent g \<and> g_tracker g \<and> g_features g \<and> p_backend_error p = None \<and> map_of (r_row r) ''error'' = None"
    by (auto simp: ok_def p1_def r1_def map_of_eq_None_iff)
  have owned: "owned_run rid dir (r_lease r) (if ok then settled else is_fenced) p3"
    if "(if ok then retire_tasks row1 else Inr row1) = Inr row2"
      and "\<exists>r3. map_of (p_runs p3) rid = Some r3 \<and> r_row r3 = dict_set ''finished_ns'' t row2 \<and> r_lease r3 = r_lease r"
    for row2 p3 t
    using that dir outcome_row_cases(1,2) [of "b_name H \<noteq> ''disabled''" "r_stop_reason r1 \<noteq> None" "r_row r"]
    by (cases ok)
      (auto simp: owned_run_def row1_def p1(2) outcome_row_cases(3) settled_set row_text_other elim!: retire_tasks_only_processes)
  show ?thesis
    unfolding watch_commit_def Let_def wp_andthen wp_own_modify wp_bind wp_own fst_conv snd_conv p1_def [symmetric]
      wp_get_run p1(1) option.case ok_def [symmetric] row1_def [symmetric] wp_lift_res wp_world_get
  proof (cases "if ok then retire_tasks row1 else Inr row1", goal_cases)
    case (2 row2)
    have "wp (release_receipt K c H rid (r_lease r) ok) ?Q ?E (p3, w)"
      if "\<exists>r3. map_of (p_runs p3) rid = Some r3 \<and> r_row r3 = dict_set ''finished_ns'' t row2 \<and> r_lease r3 = r_lease r" for p3 t
      by (rule wp_mono [OF wp_release_receipt [OF owned [OF 2 that]]]) (use ok_imp in auto)
    then show ?case
      unfolding 2 sum.case p1(3) by (cases "row_item row2 ''cookie''") (simp_all add: p1)
  qed simp
qed

section \<open>Recording events\<close>

text \<open>A run whose counter is ahead of its log by the event about to be appended.\<close>

definition awaiting :: "string \<Rightarrow> int \<Rightarrow> ('k, 'e) ps \<Rightarrow> bool" where
  "awaiting rid c st = ((\<exists>r. map_of (p_runs (fst st)) rid = Some r \<and> row_text (r_row r) ''audit_directory'' = Inr (run_dir (fst st) rid) \<and>
       map_of (r_row r) ''event_count'' = Some (JInt (c + 1))) \<and>
     ordered_upto c (log_of (run_dir (fst st) rid) (snd st)) \<and>
     (\<forall>rid' r. rid' \<noteq> rid \<longrightarrow> map_of (p_runs (fst st)) rid' = Some r \<longrightarrow> logged_run st rid' r))"

lemma awaiting_ordered:
  assumes "awaiting rid c st"
  shows "logs_ordered st"
  unfolding logs_ordered_def
proof (intro allI impI)
  fix rid' r assume "map_of (p_runs (fst st)) rid' = Some r"
  then show "logged_run st rid' r"
    using assms ordered_upto_mono [of c _ "c + 1"] by (cases "rid' = rid") (auto simp: awaiting_def logged_run_def)
qed

lemma run_dir_mod [simp]: "run_dir (mod_run rid f p) = run_dir p"
  by (simp add: run_dir_def mod_run_def fun_eq_iff)

lemma awaiting_row:
  assumes "awaiting rid c (p, w)" and "row_text row ''audit_directory'' = Inr (run_dir p rid)"
    and "map_of row ''event_count'' = Some (JInt (c + 1))"
  shows "awaiting rid c (mod_run rid (\<lambda>r. r\<lparr>r_row := row\<rparr>) p, w)"
  using assms by (auto simp: awaiting_def logged_run_def)

lemma awaiting_append:
  assumes st: "awaiting rid c (p, w)" and ev: "map_of ev ''sequence'' = Some (JInt (c + 1))"
  shows "wp (disk_step H (run_dir p rid) (\<lambda>d. d\<lparr>event_lines := event_lines d @ [ev]\<rparr>))
    (\<lambda>_ w'. logs_ordered (p, w')) (\<lambda>_ w'. logs_ordered (p, w')) w"
proof -
  obtain res w' where run: "disk_step H (run_dir p rid) (\<lambda>d. d\<lparr>event_lines := event_lines d @ [ev]\<rparr>) w = (res, w')"
    by fastforce
  have other: "log_of (run_dir p rid') w' = log_of (run_dir p rid') w" if "rid' \<noteq> rid" for rid'
    using log_of_step [OF run] that by (simp add: run_dir_inj)
  have "log_of (run_dir p rid) w' = log_of (run_dir p rid) w \<or> log_of (run_dir p rid) w' = log_of (run_dir p rid) w @ [ev]"
    using log_of_step [OF run] by (auto simp: log_of_def)
  then have self: "ordered_upto (c + 1) (log_of (run_dir p rid) w')"
    using st ordered_upto_snoc [OF _ ev] ordered_upto_mono [of c _ "c + 1"] by (auto simp: awaiting_def)
  have "logs_ordered (p, w')"
    unfolding logs_ordered_def
  proof (intro allI impI)
    fix rid' r assume r: "map_of (p_runs (fst (p, w'))) rid' = Some r"
    show "logged_run (p, w') rid' r"
      using st r self other [of rid'] by (cases "rid' = rid") (auto simp: awaiting_def logged_run_def)
  qed
  then show ?thesis using run by (simp add: wp_def split: sum.split)
qed

lemma touch_process_row:
  assumes "touch_process ident pid ev row = Inr row'"
  obtains ps where "row' = dict_set ''processes'' ps row"
proof -
  obtain ps where "(case ps of
        JObj tasks \<Rightarrow> (case dict_get tasks ident (JObj [(''pid'', pid)]) of
            JObj item \<Rightarrow> Inr (dict_set ''processes'' (JObj (dict_set ident
               (JObj (dict_set ''alive'' (JBool (jget ev ''event'' \<noteq> JStr ''exit'')) (dict_merge item ev))) tasks)) row)
          | _ \<Rightarrow> Inl AttributeError)
      | _ \<Rightarrow> Inl AttributeError) = Inr row'"
    using assms by (auto simp: touch_process_def bindR_eq_Inr)
  then show ?thesis
    by (cases ps) (auto intro: that split: json.split_asm)
qed

lemma identify_sequence:
  assumes "identify prefix ev = Inr (ident, ev')"
  shows "map_of ev' ''sequence'' = map_of ev ''sequence''"
  using assms by (auto simp: identify_def bindR_eq_Inr Let_def split: if_splits)

lemma append_keeps_logs:
  assumes "logs_ordered (p, w)"
  shows "wp (append_run_event H rid ev0) (\<lambda>_. logs_ordered) (\<lambda>_. logs_ordered) (p, w)"
proof (cases "map_of (p_runs p) rid")
  case (Some r)
  define row where "row = r_row r"
  obtain c where c: "map_of row ''event_count'' = Some (JInt c)" and dir: "row_text row ''audit_directory'' = Inr (run_dir p rid)"
    and log: "ordered_upto c (log_of (run_dir p rid) w)"
    using assms Some by (auto simp: logs_ordered_def logged_run_def row_def)
  define row1 where "row1 = dict_set ''event_count'' (JInt (c + 1)) row"
  define p1 where "p1 = mod_run rid (\<lambda>r. r\<lparr>r_row := dict_set ''event_count'' (JInt (c + 1)) (r_row r)\<rparr>) p"
  have p1: "awaiting rid c (p1, w)"
    using assms Some dir log by (auto simp: awaiting_def p1_def row_def logs_ordered_def logged_run_def row_text_other)
  have run_dir_p1: "run_dir p1 = run_dir p" by (simp add: p1_def)
  have ord1: "logs_ordered (p1, w)" using awaiting_ordered [OF p1] .
  have app: "wp (disk_step H (run_dir p rid) (\<lambda>d. d\<lparr>event_lines := event_lines d @ [ev]\<rparr>))
      (\<lambda>_ w'. logs_ordered (p2, w')) (\<lambda>_ w'. logs_ordered (p2, w')) w"
    if "awaiting rid c (p2, w)" "map_of ev ''sequence'' = Some (JInt (c + 1))" "run_dir p2 = run_dir p" for ev p2
    using awaiting_append [OF that(1,2)] that(3) by simp
  have touched: "awaiting rid c (mod_run rid (\<lambda>r. r\<lparr>r_row := row'\<rparr>) p1, w)"
    if t: "touch_process ident pid ev row1 = Inr row'" for ident pid ev row'
    using t
  proof (rule touch_process_row)
    fix ps assume "row' = dict_set ''processes'' ps row1"
    then show ?thesis
      by (intro awaiting_row [OF p1]) (use dir in \<open>simp_all add: row1_def row_text_other p1_def\<close>)
  qed
  show ?thesis
    unfolding append_run_event_def Let_def
    by (auto simp: wp_simps Some row_def [symmetric] row1_def [symmetric] p1_def [symmetric] row_item_def c dir
        split: sum.split option.split intro: ord1 touched awaiting_ordered intro!: app p1
        simp: map_of_dict_merge run_dir_p1 dest: identify_sequence)
qed (use assms in \<open>simp add: append_run_event_def wp_simps\<close>)

lemma save_run_keeps_logs:
  assumes "logs_ordered (p, w)"
  shows "wp (save_run H rid) (\<lambda>_. logs_ordered) (\<lambda>_. logs_ordered) (p, w)"
proof (cases "map_of (p_runs p) rid")
  case (Some r)
  have "logs_ordered (p, snd (save H row w))" for row
    using assms by (simp add: logs_ordered_def logged_run_def keeps_log_save [unfolded keeps_def, rule_format])
  then show ?thesis
    by (simp add: save_run_def wp_simps Some) (auto simp: wp_def split: prod.splits sum.splits, (metis snd_conv)+)
qed (use assms in \<open>simp add: save_run_def wp_simps\<close>)

section \<open>Waiting for runs\<close>

text \<open>
  What no operation of the service takes back: a run stays known, belongs to its Session and, once
  done, stays done; and while the launch lock is held no run is added.
\<close>

definition advanced :: "'w pstate \<Rightarrow> 'w pstate \<Rightarrow> bool" where
  "advanced p p' = (\<forall>rid. (map_of (p_runs p) rid = None \<longrightarrow> map_of (p_runs p') rid = None) \<and>
     (\<forall>r. map_of (p_runs p) rid = Some r \<longrightarrow> (\<exists>r'. map_of (p_runs p') rid = Some r' \<and> (r_done r \<longrightarrow> r_done r') \<and>
        run_session (r_row r') = run_session (r_row r))))"

definition advances :: "('w pstate \<times> 'w, 'a) op \<Rightarrow> bool" where
  "advances m = (\<forall>st. advanced (fst st) (fst (snd (m st))))"

named_theorems advances_intros \<open>composition rules of operations that take no run back\<close>

lemma advanced_refl [simp]: "advanced p p"
  by (auto simp: advanced_def)

lemma advanced_trans: "advanced p p' \<Longrightarrow> advanced p' p'' \<Longrightarrow> advanced p p''"
  unfolding advanced_def by (metis (no_types, lifting))

lemma advances_pure [advances_intros]:
  "advances (ret x)" "advances (raise e)" "advances (lift_res r)" "advances (own f)" "advances (world_get h)"
  "advances (require b e)" "advances (on_world m)"
  by (simp_all add: advances_def own_def world_get_def on_world_def io_defs split: prod.splits)

lemma advancesD: "advances m \<Longrightarrow> m st = (r, st') \<Longrightarrow> advanced (fst st) (fst st')"
  unfolding advances_def by (metis snd_conv)

lemma advancesI: "(\<And>st r st'. m st = (r, st') \<Longrightarrow> advanced (fst st) (fst st')) \<Longrightarrow> advances m"
  unfolding advances_def by (metis prod.collapse)

lemma advances_bind [advances_intros]: "advances m \<Longrightarrow> (\<And>x. advances (f x)) \<Longrightarrow> advances (bind m f)"
  by (rule advancesI) (auto elim!: bind_cases dest: advancesD intro: advanced_trans)

lemma advances_andthen [advances_intros]: "advances m \<Longrightarrow> advances k \<Longrightarrow> advances (andthen m k)"
  unfolding andthen_def by (rule advances_bind)

lemma advances_catch [advances_intros]: "advances m \<Longrightarrow> (\<And>e. advances (h e)) \<Longrightarrow> advances (catch sel m h)"
  by (rule advancesI) (auto elim!: catch_cases dest: advancesD intro: advanced_trans)

lemma advances_whenM [advances_intros]: "advances m \<Longrightarrow> advances (whenM b m)"
  by (simp add: whenM_def advances_pure)

lemma advances_forM [advances_intros]: "(\<And>x. advances (f x)) \<Longrightarrow> advances (forM xs f)"
  by (induction xs) (auto intro: advances_intros)

lemma advances_upd_run:
  assumes "\<And>r. (r_done r \<longrightarrow> r_done (f r)) \<and> run_session (r_row (f r)) = run_session (r_row r)"
  shows "advances (upd_run rid f)"
  using assms by (auto simp: advances_def own_modify_def modify_def advanced_def)

lemma run_session_set: "k \<noteq> ''agent_id'' \<Longrightarrow> k \<noteq> ''session_id'' \<Longrightarrow> run_session (dict_set k v row) = run_session row"
  by (simp add: run_session_def row_text_other)

lemma advances_terminate: "advances (terminate_locked K c H rid reason)"
  unfolding terminate_locked_def exited_meanwhile_def save_quietly_def save_run_def get_run_def
  by (intro advances_intros advances_upd_run) (auto intro!: advances_intros advances_upd_run simp: run_session_set split: option.split prod.split)

lemma await_all_done:
  assumes "advances others" and "forM rids (\<lambda>rid. bind (await_done others rid) (\<lambda>d. require d e)) st = (Inr u, st')"
    and "rid \<in> set rids"
  shows "\<exists>r. map_of (p_runs (fst st')) rid = Some r \<and> r_done r"
  using assms(2,3)
proof (induction rids arbitrary: st)
  case (Cons x rids)
  let ?step = "bind (await_done others x) (\<lambda>d. require d e)"
  obtain st1 where st1: "?step st = (Inr (), st1)" "forM rids (\<lambda>rid. bind (await_done others rid) (\<lambda>d. require d e)) st1 = (Inr u, st')"
    using Cons.prems(1) by (auto elim!: andthen_InrE)
  have "advances (forM rids (\<lambda>rid. bind (await_done others rid) (\<lambda>d. require d e)))"
    unfolding await_done_def get_run_def
    by (intro advances_intros assms(1)) (auto intro!: advances_intros split: option.split)
  from advancesD [OF this st1(2)] have adv: "advanced (fst st1) (fst st')" .
  have "\<exists>r. map_of (p_runs (fst st1)) x = Some r \<and> r_done r"
    using st1(1) unfolding await_done_def get_run_def
    by (auto simp: own_def require_def io_defs split: if_splits prod.splits sum.splits option.splits)
  then show ?case
    using adv Cons.IH [OF st1(2)] Cons.prems(2) by (fastforce simp: advanced_def)
qed simp

section \<open>Properties\<close>

text \<open>
  C8. A lease is released only with a receipt: when the finalisation of a run returns, either the
  lease is gone, every stage of the finalisation had succeeded, no provider or plugin error was
  recorded and the state file on disk is the row of the run and records a completed, unfenced
  Session whose cgroup was removed; or the registry is as before and the run is marked as fenced.
  When it raises, the registry is as before.
\<close>

theorem lease_released_with_receipt:
  assumes "map_of (p_runs p) rid = Some r" and "row_text (r_row r) ''audit_directory'' = Inr dir"
    and "watch_commit K c H rid g (p, w) = (res, (p', w'))"
  shows "case res of
      Inl e \<Rightarrow> pw_reg w' = pw_reg w
    | Inr _ \<Rightarrow> \<exists>r'. map_of (p_runs p') rid = Some r' \<and> r_done r' \<and>
        (pw_reg w' = pw_reg w \<and> is_fenced (r_row r') \<or>
         leases (pw_reg w') = dict_del (r_lease r) (leases (pw_reg w)) \<and> receipt (r_row r') \<and>
         state_of dir w' = Some (r_row r') \<and> g_quiescent g \<and> g_tracker g \<and> g_features g \<and>
         p_backend_error p = None \<and> map_of (r_row r) ''error'' = None)"
proof -
  let ?Q = "\<lambda>_ (p', w'). \<exists>r'. map_of (p_runs p') rid = Some r' \<and> r_done r' \<and>
        (pw_reg w' = pw_reg w \<and> is_fenced (r_row r') \<or>
         leases (pw_reg w') = dict_del (r_lease r) (leases (pw_reg w)) \<and> receipt (r_row r') \<and>
         state_of dir w' = Some (r_row r') \<and> g_quiescent g \<and> g_tracker g \<and> g_features g \<and>
         p_backend_error p = None \<and> map_of (r_row r) ''error'' = None)"
  have "wp (watch_commit K c H rid g) ?Q (\<lambda>_ (p', w'). pw_reg w' = pw_reg w) (p, w)"
    by (rule wp_watch_commit [OF assms(1,2)])
  then show ?thesis using assms(3) by (auto simp: wp_def split: sum.splits)
qed

text \<open>
  C9. A restart fences what it cannot vouch for: after the service has started, every Session with a
  recorded run that was starting, running or fenced holds a lease, so that no launch, checkpoint or
  rollback can touch it, and the next run epoch is larger than every recorded one.
\<close>

theorem restart_fences:
  assumes "inj tok" and "process_init H tok audit boot w = (Inr p, w')"
    and "row \<in> set (state_files audit (pw_audit w))"
  shows "(needs_fence row = Inr True \<longrightarrow> (\<exists>k. run_session row = Inr k \<and> has_lease (pw_reg w') k)) \<and>
    (\<forall>k. jget row ''run_epoch'' = JInt k \<longrightarrow> k < p_next_epoch p)"
proof -
  obtain m where rec: "recover_rows H tok (state_files audit (pw_audit w)) {} 1 w = (Inr m, w')"
    and p: "p = new_pstate audit boot m"
    using assms(2) by (auto simp: process_init_def io_defs split: prod.splits sum.splits)
  note fences = recover_rows_fences [OF rec assms(1)]
  have "leased_as tok w' k \<Longrightarrow> has_lease (pw_reg w') k" for k
    by (auto simp: leased_as_def has_lease_def dest: map_of_SomeD intro: rev_image_eqI)
  moreover have "1 \<le> m" and "epoch_after row 1 \<le> m" using fences assms(3) by auto
  moreover have "p_next_epoch p = m" by (simp add: p new_pstate_def)
  ultimately show ?thesis
    using fences assms(3) by (auto simp: epoch_after_def split: if_splits)
qed

text \<open>
  C10. The launch fence drains a Session: when entering it with termination returns, every run of the
  Session known to the service is done, so that the rollback that follows meets no running workload;
  the returned list names the runs that were stopped. The threads that finish runs in the meantime
  may advance runs and add none while the launch lock is held.
\<close>

theorem launch_fence_drains:
  assumes "advances others" and "launch_fence K c H others a s True reason (p, w) = (Inr rids, (p', w'))"
    and "map_of (p_runs p') rid = Some r" and "run_session (r_row r) = Inr (a, s)"
  shows "r_done r \<and> rids = session_runs a s p"
proof -
  let ?await = "forM rids (\<lambda>rid. bind (await_done others rid) (\<lambda>d.
    require d (WorkspaceError ''Session cgroup termination timed out; rollback remains fenced'')))"
  obtain u st1 where rids: "rids = session_runs a s p"
    and stop: "forM rids (\<lambda>rid. terminate_locked K c H rid reason) (p, w) = (Inr u, st1)"
    and wait: "?await st1 = (Inr (), (p', w'))"
    using assms(2) unfolding launch_fence_def
    by (auto simp: own_def gets_def ret_def elim!: bind_InrE andthen_InrE lift_InrE)
  have "advanced p (fst st1)" using advancesD [OF advances_forM [OF advances_terminate] stop] by simp
  moreover have "advances ?await"
    unfolding await_done_def get_run_def
    by (intro advances_intros assms(1)) (auto intro!: advances_intros split: option.split)
  from advancesD [OF this wait] have "advanced (fst st1) p'" by simp
  ultimately have adv: "advanced p p'" by (rule advanced_trans)
  then obtain r0 where r0: "map_of (p_runs p) rid = Some r0" "r_done r0 \<longrightarrow> r_done r" "run_session (r_row r0) = Inr (a, s)"
    using assms(3,4) unfolding advanced_def by (metis option.exhaust option.inject option.distinct(1))
  show ?thesis
  proof (cases "r_done r0")
    case False
    then have "rid \<in> set rids" using r0 by (force simp: rids session_runs_def dest: map_of_SomeD)
    from await_all_done [OF assms(1) wait this] show ?thesis using assms(3) rids by auto
  qed (use r0 rids in simp)
qed

text \<open>
  C12. Recording an event keeps every log in order: the events of each run stay numbered in strictly
  increasing order up to the run's counter, whatever message the backend sends and whichever disk
  operation fails.
\<close>

theorem record_event_keeps_order:
  assumes "logs_ordered st"
  shows "logs_ordered (snd (record_event H message st))"
proof -
  obtain p w where st: "st = (p, w)" by (cases st)
  have "wp (record_event H message) (\<lambda>_. logs_ordered) (\<lambda>_. logs_ordered) (p, w)"
    unfolding record_event_def
    by (auto simp: wp_simps assms [unfolded st] split: json.split option.split
        intro!: wp_mono [OF append_keeps_logs] save_run_keeps_logs assms [unfolded st])
  then show ?thesis by (auto simp: st wp_def split: prod.splits sum.splits)
qed

text \<open>
  Paging through a log loses and repeats nothing: a page holds the first events after the given
  number, at most the requested count of them, and what follows the number it returns is exactly what
  is left of the log.
\<close>

theorem event_pages_cover_log:
  assumes "logs_ordered (p, w)" and "map_of (p_runs p) rid = Some r"
    and "process_events a s rid (JInt n) (JInt m) (p, w) = (Inr page, st')"
  shows "\<exists>items k state. page = JObj [(''events'', JList (map JObj items)), (''next_after'', JInt k), (''state'', state)] \<and>
    items = take (nat m) (filter (\<lambda>ev. n < seq_of ev) (log_of (run_dir p rid) w)) \<and>
    filter (\<lambda>ev. n < seq_of ev) (log_of (run_dir p rid) w) = items @ filter (\<lambda>ev. k < seq_of ev) (log_of (run_dir p rid) w) \<and>
    st' = (p, w)"
proof -
  let ?log = "log_of (run_dir p rid) w"
  obtain c where log: "ordered_upto c ?log" using assms(1,2) by (auto simp: logs_ordered_def logged_run_def)
  then have num: "numbered ?log" and sorted: "sorted_wrt (<) (map seq_of ?log)" by (simp_all add: ordered_upto_def)
  let ?items = "take (nat m) (filter (\<lambda>ev. n < seq_of ev) ?log)"
  have m: "0 < nat m" using assms(3) by (auto simp: process_events_def raise_def split: if_splits)
  have scan: "scan_events n (nat m) [] ?log = Inr ?items" using scan_events_take [OF num, of "[]"] m by simp
  have pure: "process_get a s rid (p, w) = (Inr row, st1) \<Longrightarrow> st1 = (p, w)" for row st1
    unfolding process_get_def by (auto simp: io_defs own_def world_get_def split: sum.splits option.splits if_splits)
  obtain state where page: "st' = (p, w)" "page = JObj [(''events'', JList (map JObj ?items)),
      (''next_after'', if ?items = [] then JInt n else jget (last ?items) ''sequence''), (''state'', state)]"
    using assms(3) scan unfolding process_events_def
    by (auto simp: own_def world_get_def gets_def ret_def raise_def log_of_def split: if_splits
        elim!: bind_InrE lift_InrE dest!: pure)
  show ?thesis
  proof (cases "?items = []")
    case True
    then show ?thesis using page m by (intro exI [of _ "[]"] exI [of _ n] exI [of _ state]) auto
  next
    case False
    then have "last ?items \<in> set ?log" by (meson in_set_takeD last_in_set filter_is_subset subsetD)
    then show ?thesis
      using page False seq_of_numbered [OF num] sorted_filter_split [OF sorted refl False]
      by (intro exI [of _ ?items] exI [of _ "seq_of (last ?items)"] exI [of _ state]) simp
  qed
qed

text \<open>
  C11. A state file is replaced atomically: whatever disk operation fails, the durable save leaves the
  old or the new row in the state file of the run and every other state file alone; when it returns,
  the new row is in place.
\<close>

theorem durable_save_atomic:
  assumes "row_text row ''audit_directory'' = Inr dir" and "save_durable H row w = (res, w')"
  shows "state_of dir w' \<in> {state_of dir w, Some row} \<and> (\<forall>d. d \<noteq> dir \<longrightarrow> state_of d w' = state_of d w) \<and>
    (res = Inr () \<longrightarrow> state_of dir w' = Some row)"
  using save_durable_step [OF assms(1), of H] save_durable_returns [OF assms(1), of H w] assms(2)
  by (auto simp: state_step_def wp_def)

section \<open>A host that never fails\<close>

definition demo_host :: "unit host" where
  "demo_host = \<lparr>os_spawn = ret 42, os_configure = (\<lambda>_ _. ret ()), os_waitpid = (\<lambda>_. ret Stopped), os_poll = (\<lambda>_. ret None),
     os_kill = (\<lambda>_. ret ()), os_cont = (\<lambda>_. ret ()), os_wait = (\<lambda>_ _. ret 0), os_pidfd_open = (\<lambda>_. ret 9),
     os_pidfd_close = (\<lambda>_. ret ()), os_pidfd_signal = (\<lambda>_ _. ret ()), os_proc_status = (\<lambda>_. ret ''State: T''),
     os_namespace = (\<lambda>_ _. ret 3), os_disk = ret (), os_time_ns = (\<lambda>_. 5), b_name = ''ebpf'', b_status = ret [],
     b_seed = (\<lambda>_ _. ret ()), b_finish = (\<lambda>_ _. ret ()), b_close = ret ()\<rparr>"

definition demo_row :: "string \<Rightarrow> jdict" where
  "demo_row state = [(''run_id'', JStr ''r''), (''run_epoch'', JInt 3), (''agent_id'', JStr ''x''), (''session_id'', JStr ''y''),
     (''state'', JStr state), (''event_count'', JInt 0), (''processes'', JObj []), (''audit_directory'', JStr ''/a/r''),
     (''cookie'', JInt 8)]"

definition demo_run :: "(string, unit) pworld run" where
  "demo_run = \<lparr>r_row = demo_row ''running'', r_process = Some 42, r_lease = ''t'', r_stop_reason = None, r_done = False,
     r_timer = True, r_exited = True, r_feature = None, r_identity = None, r_target = None, r_plan = None\<rparr>"

definition demo_pstate :: "(string, unit) pworld pstate" where
  "demo_pstate = (new_pstate ''/a'' ''b'' 4)\<lparr>p_runs := [(''r'', demo_run)], p_cookies := [(8, ''r'')]\<rparr>"

definition no_store :: store where
  "no_store = \<lparr>root = ''/s'', root_fstype = None, agent_ls = [], agent_shared_dir = (\<lambda>_. False), sess_ls = (\<lambda>_. None),
     sessions = Map.empty, index_files = Map.empty, txn_files = Map.empty, receipt_files = Map.empty,
     event_logs = (\<lambda>_. []), lock_files = {}, outside = Map.empty, clock = 0, schedule = []\<rparr>"

definition demo_pworld :: "(string, session_key) dict \<Rightarrow> (string, unit) pworld" where
  "demo_pworld ls = \<lparr>pw_store = no_store, pw_reg = empty_registry\<lparr>leases := ls\<rparr>, pw_cg = demo_world,
     pw_audit = [(''/a/r'', \<lparr>state_file = Some (demo_row ''running''), temp_files = 0, event_lines = []\<rparr>)], pw_ext = ()\<rparr>"

definition gone_kernel :: "string cgroupfs" where
  "gone_kernel = demo_kernel\<lparr>k_exists := (\<lambda>_ _. False)\<rparr>"

text \<open>Distinct tokens for distinct Sessions: the length of the first name in unary, then both names.\<close>

definition demo_tok :: "session_key \<Rightarrow> string" where
  "demo_tok k = map (\<lambda>_. CHR ''a'') (fst k) @ CHR ''b'' # fst k @ snd k"

lemma demo_tok_inj: "inj demo_tok"
proof (rule injI)
  fix k k' assume eq: "demo_tok k = demo_tok k'"
  have pre: "takeWhile ((=) (CHR ''a'')) (demo_tok j) = map (\<lambda>_. CHR ''a'') (fst j)" for j
    unfolding demo_tok_def by (subst takeWhile_append2) auto
  have "length (fst k) = length (fst k')" using eq pre by (metis length_map)
  then show "k = k'" using eq by (simp add: demo_tok_def prod_eq_iff)
qed

lemma demo_restart: "(case process_init demo_host demo_tok ''/a'' ''b'' (demo_pworld []) of
    (Inr p, w) \<Rightarrow> p_next_epoch p = 4 \<and> leases (pw_reg w) \<noteq> [] | _ \<Rightarrow> False)"
  by code_simp

lemma demo_watch: "(case watch_commit gone_kernel demo_cg demo_host ''r'' \<lparr>g_quiescent = True, g_tracker = True, g_features = True\<rparr>
      (demo_pstate, demo_pworld [(''t'', (''x'', ''y''))]) of
    (Inr _, (p, w)) \<Rightarrow> leases (pw_reg w) = [] | _ \<Rightarrow> False)"
  by code_simp

lemma demo_fence: "(case launch_fence gone_kernel demo_cg demo_host (upd_run ''r'' (\<lambda>r. r\<lparr>r_done := True\<rparr>)) ''x'' ''y'' True ''why''
      (demo_pstate, demo_pworld []) of (Inr rids, (p, w)) \<Rightarrow> rids = [''r''] \<and>
        map_option (\<lambda>r. run_session (r_row r)) (map_of (p_runs p) ''r'') = Some (Inr (''x'', ''y'')) | _ \<Rightarrow> False)"
  by code_simp

lemma demo_page: "(case process_events ''x'' ''y'' ''r'' (JInt 0) (JInt 10) (demo_pstate, demo_pworld []) of
    (Inr page, st) \<Rightarrow> True | _ \<Rightarrow> False)"
  by code_simp

theorem restart_fences_witness:
  "\<exists>p w. process_init demo_host demo_tok ''/a'' ''b'' (demo_pworld []) = (Inr p, w) \<and> has_lease (pw_reg w) (''x'', ''y'') \<and> 3 < p_next_epoch p"
proof -
  obtain p w where run: "process_init demo_host demo_tok ''/a'' ''b'' (demo_pworld []) = (Inr p, w)"
    using demo_restart by (auto split: prod.splits sum.splits)
  have row: "demo_row ''running'' \<in> set (state_files ''/a'' (pw_audit (demo_pworld [])))" by code_simp
  have "needs_fence (demo_row ''running'') = Inr True" "run_session (demo_row ''running'') = Inr (''x'', ''y'')"
    "jget (demo_row ''running'') ''run_epoch'' = JInt 3" by code_simp+
  with restart_fences [OF demo_tok_inj run row] run show ?thesis by auto
qed

theorem lease_released_with_receipt_witness:
  "\<exists>p w r. watch_commit gone_kernel demo_cg demo_host ''r'' \<lparr>g_quiescent = True, g_tracker = True, g_features = True\<rparr>
      (demo_pstate, demo_pworld [(''t'', (''x'', ''y''))]) = (Inr (), (p, w)) \<and> map_of (p_runs p) ''r'' = Some r \<and>
    leases (pw_reg w) = [] \<and> receipt (r_row r) \<and> state_of ''/a/r'' w = Some (r_row r)"
proof -
  obtain p w where run: "watch_commit gone_kernel demo_cg demo_host ''r'' \<lparr>g_quiescent = True, g_tracker = True, g_features = True\<rparr>
      (demo_pstate, demo_pworld [(''t'', (''x'', ''y''))]) = (Inr (), (p, w))" and gone: "leases (pw_reg w) = []"
    using demo_watch by (auto split: prod.splits sum.splits)
  have "map_of (p_runs demo_pstate) ''r'' = Some demo_run" "row_text (r_row demo_run) ''audit_directory'' = Inr ''/a/r''"
    "leases (pw_reg (demo_pworld [(''t'', (''x'', ''y''))])) \<noteq> []"
    by (simp_all add: demo_pstate_def demo_run_def demo_row_def demo_pworld_def row_text_def row_item_def)
  with lease_released_with_receipt [OF this(1,2) run] run gone show ?thesis by auto
qed

theorem launch_fence_drains_witness:
  "\<exists>p w r. launch_fence gone_kernel demo_cg demo_host (upd_run ''r'' (\<lambda>r. r\<lparr>r_done := True\<rparr>)) ''x'' ''y'' True ''why''
      (demo_pstate, demo_pworld []) = (Inr [''r''], (p, w)) \<and> map_of (p_runs p) ''r'' = Some r \<and> r_done r"
proof -
  obtain p w where run: "launch_fence gone_kernel demo_cg demo_host (upd_run ''r'' (\<lambda>r. r\<lparr>r_done := True\<rparr>)) ''x'' ''y'' True ''why''
      (demo_pstate, demo_pworld []) = (Inr [''r''], (p, w))"
    and known: "map_option (\<lambda>r. run_session (r_row r)) (map_of (p_runs p) ''r'') = Some (Inr (''x'', ''y''))"
    using demo_fence by (auto split: prod.splits sum.splits)
  have adv: "advances (upd_run ''r'' (\<lambda>r. r\<lparr>r_done := True\<rparr>))" by (rule advances_upd_run) simp
  from known launch_fence_drains [OF adv run] run show ?thesis by auto
qed

lemma demo_logs: "logs_ordered (demo_pstate, demo_pworld [])"
  by (simp add: logs_ordered_def logged_run_def demo_pstate_def demo_run_def demo_row_def demo_pworld_def row_text_def row_item_def
      run_dir_def new_pstate_def log_of_def ordered_upto_def numbered_def)

theorem record_event_keeps_order_witness:
  "logs_ordered (snd (record_event demo_host [(''cookie'', JInt 8), (''event'', JStr ''exec'')] (demo_pstate, demo_pworld [])))"
  by (rule record_event_keeps_order [OF demo_logs])

theorem event_pages_cover_log_witness:
  "\<exists>page st. process_events ''x'' ''y'' ''r'' (JInt 0) (JInt 10) (demo_pstate, demo_pworld []) = (Inr page, st) \<and>
     st = (demo_pstate, demo_pworld [])"
proof -
  obtain page st where run: "process_events ''x'' ''y'' ''r'' (JInt 0) (JInt 10) (demo_pstate, demo_pworld []) = (Inr page, st)"
    using demo_page by (auto split: prod.splits sum.splits)
  have "map_of (p_runs demo_pstate) ''r'' = Some demo_run" by (simp add: demo_pstate_def)
  from event_pages_cover_log [OF demo_logs this run] run show ?thesis by auto
qed

theorem durable_save_atomic_witness:
  "state_of ''/a/r'' (snd (save_durable demo_host (demo_row ''failed'') (demo_pworld [])))
     \<in> {Some (demo_row ''running''), Some (demo_row ''failed'')}"
proof -
  have "row_text (demo_row ''failed'') ''audit_directory'' = Inr ''/a/r''" "state_of ''/a/r'' (demo_pworld []) = Some (demo_row ''running'')"
    by (simp_all add: demo_row_def row_text_def row_item_def state_of_def demo_pworld_def)
  with durable_save_atomic [OF this(1), of demo_host "demo_pworld []"] show ?thesis by (metis prod.collapse)
qed

end
