(* ===== verification/Base64_Codec.thy ===== *)
theory Base64_Codec
  imports Allox_Prelude
begin

text \<open>
  The standard Base64 codec of the language library on byte strings: \<open>base64.b64encode\<close>, and
  \<open>base64.b64decode(..., validate=True)\<close>, which accepts whole groups of four characters of the
  alphabet with padding at the very end only. Session sharing sends file contents in this form.
\<close>

definition b64_char :: "nat \<Rightarrow> char" where
  "b64_char n = (if n < 26 then char_of (n + 65) else if n < 52 then char_of (n + 71)
     else if n < 62 then char_of (n - 4) else if n = 62 then CHR ''+'' else CHR ''/'')"

definition b64_val :: "char \<Rightarrow> nat option" where
  "b64_val c = (let n = of_char c in
     if 65 \<le> n \<and> n \<le> 90 then Some (n - 65) else if 97 \<le> n \<and> n \<le> 122 then Some (n - 71)
     else if 48 \<le> n \<and> n \<le> 57 then Some (n + 4) else if n = 43 then Some 62 else if n = 47 then Some 63 else None)"

fun b64encode :: "string \<Rightarrow> string" where
  "b64encode [] = []"
| "b64encode [a] = (let n = of_char a in [b64_char (n div 4), b64_char (n mod 4 * 16), CHR ''='', CHR ''=''])"
| "b64encode [a, b] = (let n = of_char a; m = of_char b in
     [b64_char (n div 4), b64_char (n mod 4 * 16 + m div 16), b64_char (m mod 16 * 4), CHR ''=''])"
| "b64encode (a # b # c # rest) = (let n = of_char a; m = of_char b; k = of_char c in
     b64_char (n div 4) # b64_char (n mod 4 * 16 + m div 16) # b64_char (m mod 16 * 4 + k div 64) # b64_char (k mod 64) # b64encode rest)"

fun b64decode :: "string \<Rightarrow> string option" where
  "b64decode [] = Some []"
| "b64decode (w # x # y # z # rest) =
     (case (b64_val w, b64_val x) of
        (Some p, Some q) \<Rightarrow>
          if rest = [] \<and> z = CHR ''='' \<and> y = CHR ''='' then Some [char_of (p * 4 + q div 16)]
          else (case b64_val y of
              None \<Rightarrow> None
            | Some r \<Rightarrow>
                if rest = [] \<and> z = CHR ''='' then Some [char_of (p * 4 + q div 16), char_of (q mod 16 * 16 + r div 4)]
                else (case (b64_val z, b64decode rest) of
                    (Some t, Some bs) \<Rightarrow>
                      Some (char_of (p * 4 + q div 16) # char_of (q mod 16 * 16 + r div 4) # char_of (r mod 4 * 64 + t) # bs)
                  | _ \<Rightarrow> None))
      | _ \<Rightarrow> None)"
| "b64decode _ = None"

lemma b64_val_char [simp]: "n < 64 \<Longrightarrow> b64_val (b64_char n) = Some n"
  by (auto simp: b64_val_def b64_char_def Let_def)

lemma b64_val_pad: "b64_val (CHR ''='') = None"
  by (simp add: b64_val_def)

lemma b64_char_pad [simp]: "n < 64 \<Longrightarrow> b64_char n \<noteq> CHR ''=''"
  using b64_val_char b64_val_pad by (metis option.distinct(1))

lemma quotients:
  fixes n :: nat
  assumes "n < 256"
  shows "n div 4 < 64" and "n div 16 < 16" and "n div 64 < 4"
  using assms by (simp_all add: less_mult_imp_div_less)

lemma sextets:
  fixes n m k :: nat
  assumes "m < 256" and "k < 256"
  shows "n mod 4 * 16 < 64" and "n mod 4 * 16 + m div 16 < 64" and "m mod 16 * 4 < 64" and "m mod 16 * 4 + k div 64 < 64"
proof -
  have "n mod 4 < 4" "m mod 16 < 16" by simp_all
  with quotients [OF assms(1)] quotients [OF assms(2)]
  show "n mod 4 * 16 < 64" "n mod 4 * 16 + m div 16 < 64" "m mod 16 * 4 < 64" "m mod 16 * 4 + k div 64 < 64" by linarith+
qed

lemma b64_roundtrip: "b64decode (b64encode bs) = Some bs"
  by (induction bs rule: b64encode.induct)
    (simp_all add: Let_def quotients [OF nat_of_char_less_256] sextets [OF nat_of_char_less_256 nat_of_char_less_256])

end
