(* ===== verification/Session_Share.thy ===== *)
theory Session_Share
  imports Base64_Codec Workspace_Scrub Execution_Registry Session_Cgroup Feature_Manager
begin

text \<open>
  The session sharing plugin of \<^verbatim>\<open>src/plugins/session-share/src/allox_session_share\<close>:
  \<open>ShareService\<close> (\<^verbatim>\<open>sharing.py\<close>), the per-Session endpoint (\<^verbatim>\<open>endpoint.py\<close>)
  and the feature adapter (\<^verbatim>\<open>plugin.py\<close>). Its state is the workspace store, the execution
  registry, the policy files and what the file system knows of an inode beyond its content. Policy
  and workspace writes go through the fault schedule of the store.
\<close>

section \<open>State\<close>

record inode =
  i_dev :: int
  i_nlink :: int
  i_size :: int

record share =
  sh_store :: store
  sh_reg :: registry
  sh_policies :: "skey \<rightharpoonup> jfile"
  sh_inodes :: "skey \<times> string list \<Rightarrow> inode"

type_synonym 'a shop = "(share, 'a) op"

definition st_op :: "'a sop \<Rightarrow> 'a shop" where
  "st_op m = (\<lambda>w. case m (sh_store w) of (r, s) \<Rightarrow> (r, w\<lparr>sh_store := s\<rparr>))"

definition rg_op :: "'a rop \<Rightarrow> 'a shop" where
  "rg_op m = (\<lambda>w. case m (sh_reg w) of (r, g) \<Rightarrow> (r, w\<lparr>sh_reg := g\<rparr>))"

text \<open>One durable effect on the whole state, under the fault schedule of the store.\<close>

definition sh_effect :: "(share \<Rightarrow> share) \<Rightarrow> unit shop" where
  "sh_effect f = (\<lambda>w. case schedule (sh_store w) of
      [] \<Rightarrow> (Inr (), f w)
    | x # xs \<Rightarrow> let w' = w\<lparr>sh_store := (sh_store w)\<lparr>schedule := xs\<rparr>\<rparr> in
        (case x of Ok \<Rightarrow> (Inr (), f w')
         | Fails \<Rightarrow> (Inl io_error, w')
         | FailsLate \<Rightarrow> (Inl io_error, f w')
         | Crash \<Rightarrow> (Inl Crashed, w')))"

definition MAX_BYTES :: int where
  "MAX_BYTES = 256 * 1024"

definition MAX_ENTRIES :: int where
  "MAX_ENTRIES = 1000"

section \<open>Paths and policies\<close>

definition relative_parts :: "json \<Rightarrow> string list res" where
  "relative_parts path = (case path of
      JStr p \<Rightarrow>
        if p = [] \<or> CHR 0x00 \<in> set p \<or> CHR 0x5C \<in> set p then Inl (WorkspaceError ''path must be a relative POSIX path'')
        else if p = ''.'' then Inr []
        else let parts = split_on CHR ''/'' p in
          if list_ex (\<lambda>c. c \<in> {[], ''.'', ''..''}) parts
          then Inl (WorkspaceError ''absolute paths and dot components are not allowed'')
          else Inr parts
    | _ \<Rightarrow> Inl (WorkspaceError ''path must be a relative POSIX path''))"

definition policy_path :: "json \<times> json \<Rightarrow> skey res" where
  "policy_path who = (case who of
      (JStr a, JStr s) \<Rightarrow> bindR (validate_id ''agent'' a) (\<lambda>_. bindR (validate_id ''session'' s) (\<lambda>_. Inr (a, s)))
    | _ \<Rightarrow> Inl (WorkspaceError ''Agent and Session IDs must be strings''))"

definition default_policy :: json where
  "default_policy = JObj [(''enabled'', JBool False), (''scope'', JStr ''.''), (''permission'', JStr ''read'')]"

definition policy_of :: "json \<times> json \<Rightarrow> json shop" where
  "policy_of who =
     bind (lift_res (policy_path who)) (\<lambda>k.
     andthen (st_op (describe (fst k) (snd k)))
     (bind (gets (\<lambda>w. sh_policies w k)) (\<lambda>f. case f of
        None \<Rightarrow> ret default_policy
      | Some (JsonFile doc) \<Rightarrow> ret doc
      | Some GarbledFile \<Rightarrow> raise (ValueError ''Expecting value'')
      | Some OddFile \<Rightarrow> raise io_error)))"

text \<open>\<open>policy[key]\<close> and \<open>**policy\<close>.\<close>

definition item :: "json \<Rightarrow> string \<Rightarrow> json res" where
  "item doc k = (case doc of
      JObj d \<Rightarrow> (case map_of d k of None \<Rightarrow> Inl KeyError | Some v \<Rightarrow> Inr v)
    | _ \<Rightarrow> Inl TypeError)"

definition spread :: "json \<Rightarrow> jdict res" where
  "spread doc = (case doc of JObj d \<Rightarrow> Inr d | _ \<Rightarrow> Inl TypeError)"

section \<open>Opening below the workspace\<close>

text \<open>
  \<open>os.open\<close> of one component with \<open>O_NOFOLLOW\<close>: links are refused, sockets cannot be opened, and
  \<open>O_DIRECTORY\<close> refuses everything but directories.
\<close>

definition open_entry :: "bool \<Rightarrow> tree \<Rightarrow> unit res" where
  "open_entry need_dir t = (case t of
      DirEntry d \<Rightarrow> Inr ()
    | LinkEntry _ \<Rightarrow> Inl (OSError ''too many levels of symbolic links'')
    | SockNode \<Rightarrow> Inl (OSError ''no such device or address'')
    | _ \<Rightarrow> if need_dir then Inl (OSError ''not a directory'') else Inr ())"

fun open_walk :: "(string list \<Rightarrow> inode) \<Rightarrow> int \<Rightarrow> bool \<Rightarrow> string list \<Rightarrow> tree \<Rightarrow> string list \<Rightarrow> tree res" where
  "open_walk ino dev directory pre t [] = Inr t"
| "open_walk ino dev directory pre t (part # parts) =
     (case t of
        DirEntry d \<Rightarrow> (case map_of d part of
            None \<Rightarrow> Inl (FileNotFoundError ''no such file or directory'')
          | Some c \<Rightarrow>
              bindR (open_entry (directory \<or> parts \<noteq> []) c) (\<lambda>_.
              if i_dev (ino (pre @ [part])) \<noteq> dev then Inl (WorkspaceError ''cross-filesystem sharing is not supported'')
              else open_walk ino dev directory (pre @ [part]) c parts))
      | _ \<Rightarrow> Inl (OSError ''not a directory''))"

definition open_current :: "node option \<Rightarrow> dirlist res" where
  "open_current n = (case n of
      Some (Subvol d) \<Rightarrow> Inr d
    | None \<Rightarrow> Inl (FileNotFoundError ''no such file or directory'')
    | Some PlainFile \<Rightarrow> Inl (OSError ''not a directory'')
    | Some (node.Symlink _ _) \<Rightarrow> Inl (OSError ''too many levels of symbolic links''))"

definition open_path :: "skey \<Rightarrow> string list \<Rightarrow> bool \<Rightarrow> tree shop" where
  "open_path k parts directory =
     bind (lift_res (current (fst k) (snd k))) (\<lambda>_.
     bind (gets id) (\<lambda>w.
     lift_res (bindR (open_current (current_node (sh_store w) k)) (\<lambda>d.
       open_walk (\<lambda>p. sh_inodes w (k, p)) (i_dev (sh_inodes w (k, []))) directory [] (DirEntry d) parts))))"

section \<open>Changing the workspace\<close>

fun put_at :: "string list \<Rightarrow> string \<Rightarrow> tree option \<Rightarrow> dirlist \<Rightarrow> dirlist" where
  "put_at [] n x d = (case x of None \<Rightarrow> dict_del n d | Some t \<Rightarrow> dict_set n t d)"
| "put_at (p # ps) n x d = (case map_of d p of
      Some (DirEntry e) \<Rightarrow> dict_set p (DirEntry (put_at ps n x e)) d
    | _ \<Rightarrow> d)"

definition upd_current :: "skey \<Rightarrow> (dirlist \<Rightarrow> dirlist) \<Rightarrow> share \<Rightarrow> share" where
  "upd_current k f w = w\<lparr>sh_store := (case current_node (sh_store w) k of
      Some (Subvol d) \<Rightarrow> set_entry k ''current'' (Subvol (f d)) (sh_store w)
    | _ \<Rightarrow> sh_store w)\<rparr>"

definition is_regular :: "tree \<Rightarrow> bool" where
  "is_regular t = (case t of RegFile _ \<Rightarrow> True | _ \<Rightarrow> False)"

definition entry_json :: "(string \<Rightarrow> inode) \<Rightarrow> string \<times> tree \<Rightarrow> json" where
  "entry_json ino e = (case e of (n, t) \<Rightarrow> JObj [(''name'', JStr n),
     (''type'', JStr (case t of DirEntry _ \<Rightarrow> ''directory'' | RegFile _ \<Rightarrow> ''file'' | _ \<Rightarrow> ''unsupported'')),
     (''size'', JInt (case t of RegFile bs \<Rightarrow> int (length bs) | _ \<Rightarrow> i_size (ino n)))])"

definition access_list :: "skey \<Rightarrow> string list \<Rightarrow> json shop" where
  "access_list k parts =
     bind (open_path k parts True) (\<lambda>t. case t of
        DirEntry d \<Rightarrow>
          andthen (require (int (length d) \<le> MAX_ENTRIES) (WorkspaceError ''directory exceeds 1000 entries; list a subdirectory''))
          (bind (gets (\<lambda>w n. sh_inodes w (k, parts @ [n]))) (\<lambda>ino.
           ret (JObj [(''entries'', JList (map (entry_json ino) (sort_key fst d)))])))
      | _ \<Rightarrow> raise (OSError ''not a directory''))"

definition access_read :: "skey \<Rightarrow> string list \<Rightarrow> json shop" where
  "access_read k parts =
     bind (open_path k parts False) (\<lambda>t.
     bind (gets (\<lambda>w. i_nlink (sh_inodes w (k, parts)))) (\<lambda>links. case t of
        RegFile bs \<Rightarrow>
          andthen (require (links = 1) (WorkspaceError ''only regular files without hard links can be shared''))
          (andthen (require (int (length bs) \<le> MAX_BYTES) (WorkspaceError ''file exceeds 256 KiB''))
          (ret (JObj [(''data_base64'', JStr (b64encode bs)), (''size'', JInt (int (length bs)))])))
      | _ \<Rightarrow> raise (WorkspaceError ''only regular files without hard links can be shared'')))"

text \<open>
  The temporary file is written, synced and renamed over the target inside the open directory; it is
  unlinked at the end whatever happened, if it is still there.
\<close>

definition unlink_temporary :: "skey \<Rightarrow> string list \<Rightarrow> string \<Rightarrow> unit shop" where
  "unlink_temporary k parents tmp =
     bind (gets (\<lambda>w. case current_node (sh_store w) k of
        Some (Subvol d) \<Rightarrow> tree_at (parents @ [tmp]) (DirEntry d) | _ \<Rightarrow> None)) (\<lambda>t.
     whenM (t \<noteq> None) (sh_effect (upd_current k (put_at parents tmp None))))"

definition replace_file :: "skey \<Rightarrow> string list \<Rightarrow> string \<Rightarrow> string \<Rightarrow> string \<Rightarrow> share \<Rightarrow> share" where
  "replace_file k parents tmp n bs w =
     (let w1 = upd_current k (\<lambda>d. put_at parents tmp None (put_at parents n (Some (RegFile bs)) d)) w in
      w1\<lparr>sh_inodes := (sh_inodes w1)((k, parents @ [n]) :=
        \<lparr>i_dev = i_dev (sh_inodes w1 (k, parents)), i_nlink = 1, i_size = int (length bs)\<rparr>)\<rparr>)"

definition install_file :: "skey \<Rightarrow> string list \<Rightarrow> string \<Rightarrow> string \<Rightarrow> string \<Rightarrow> jdict \<Rightarrow> unit shop" where
  "install_file k parents tmp n bs audit =
     andthen (sh_effect (upd_current k (put_at parents tmp (Some (RegFile [])))))
     (finally_do
       (andthen (sh_effect (upd_current k (put_at parents tmp (Some (RegFile bs)))))
       (andthen (sh_effect id)
       (andthen (st_op (append_event (dict_merge audit [(''op'', JStr ''share.write_prepared''), (''size'', JInt (int (length bs)))])
            (Some (fst k)) (Some (snd k))))
       (andthen (sh_effect (replace_file k parents tmp n bs))
       (sh_effect id)))))
       (unlink_temporary k parents tmp))"

text \<open>The part of a write below the opened parent directory \<open>t\<close>.\<close>

definition write_below :: "string \<Rightarrow> skey \<Rightarrow> string list \<Rightarrow> string \<Rightarrow> string \<Rightarrow> jdict \<Rightarrow> tree \<Rightarrow> json shop" where
  "write_below uid k parents n bs audit t = (case t of
      DirEntry d \<Rightarrow>
        let tmp = ''.allox-share-'' @ uid in
        bind (gets (\<lambda>w. i_nlink (sh_inodes w (k, parents @ [n])))) (\<lambda>links.
        andthen (require (case map_of d n of None \<Rightarrow> True | Some old \<Rightarrow> is_regular old \<and> links = 1)
          (WorkspaceError ''cannot replace a link, directory or special file''))
        (andthen (require (map_of d tmp = None) (OSError ''file exists''))
        (andthen (install_file k parents tmp n bs audit)
        (ret (JObj [(''written'', JInt (int (length bs)))])))))
    | _ \<Rightarrow> raise (OSError ''not a directory''))"

definition decode_data :: "json \<Rightarrow> string res" where
  "decode_data encoded = (case encoded of
      JStr enc \<Rightarrow>
        if (MAX_BYTES + 2) div 3 * 4 < int (length enc) then Inl (WorkspaceError ''write requires base64 data up to 256 KiB'')
        else (case b64decode enc of
            None \<Rightarrow> Inl (WorkspaceError ''invalid base64 data'')
          | Some bs \<Rightarrow> if MAX_BYTES < int (length bs) then Inl (WorkspaceError ''file exceeds 256 KiB'') else Inr bs)
    | _ \<Rightarrow> Inl (WorkspaceError ''write requires base64 data up to 256 KiB''))"

definition access_write :: "string \<Rightarrow> skey \<Rightarrow> string list \<Rightarrow> json \<Rightarrow> jdict \<Rightarrow> json shop" where
  "access_write uid k parts encoded audit =
     bind (lift_res (decode_data encoded)) (\<lambda>bs.
     bind (open_path k (butlast parts) True) (\<lambda>t.
     write_below uid k (butlast parts) (last parts) bs audit t))"

definition share_data :: "string \<Rightarrow> skey \<Rightarrow> json \<Rightarrow> string \<Rightarrow> jdict \<Rightarrow> jdict \<Rightarrow> json shop" where
  "share_data uid k policy action params audit =
     bind (lift_res (item policy ''scope'')) (\<lambda>scope.
     bind (lift_res (relative_parts scope)) (\<lambda>below.
     bind (lift_res (relative_parts (dict_get params ''path'' (JStr ''.'')))) (\<lambda>rel.
     if action = ''list'' then access_list k (below @ rel)
     else andthen (require (rel \<noteq> []) (WorkspaceError ''read/write requires a file path''))
       (if action = ''read'' then access_read k (below @ rel)
        else access_write uid k (below @ rel) (jget params ''data_base64'') audit))))"

section \<open>Dispatch\<close>

text \<open>\<open>executions.share_access\<close> and \<open>_session_lock\<close> around the access.\<close>

definition fenced_access :: "skey \<Rightarrow> bool \<Rightarrow> 'a shop \<Rightarrow> 'a shop" where
  "fenced_access k for_write body =
     (let locked = bind (lift_res (control_key (fst k) (snd k))) (\<lambda>key.
            andthen (sh_effect (\<lambda>w. w\<lparr>sh_store := (sh_store w)\<lparr>lock_files := insert key (lock_files (sh_store w))\<rparr>\<rparr>)) body) in
      if for_write then bind (rg_op (mutation_enter (fst k) (snd k))) (\<lambda>key. finally_do locked (rg_op (mutation_exit key)))
      else bind (rg_op (share_read_enter (fst k) (snd k))) (\<lambda>key. finally_do locked (rg_op (share_read_exit key))))"

definition caller_json :: "skey \<Rightarrow> json \<times> json" where
  "caller_json c = (JStr (fst c), JStr (snd c))"

definition with_ids :: "skey \<Rightarrow> jdict \<Rightarrow> json" where
  "with_ids c d = JObj (dict_merge [(''agent_id'', JStr (fst c)), (''session_id'', JStr (snd c))] d)"

definition share_event :: "string \<Rightarrow> jdict \<Rightarrow> skey \<Rightarrow> unit shop" where
  "share_event op d k = st_op (append_event (dict_merge [(''op'', JStr op)] d) (Some (fst k)) (Some (snd k)))"

definition share_enable :: "skey \<Rightarrow> jdict \<Rightarrow> jdict shop" where
  "share_enable c params =
     (let scope = dict_get params ''scope'' (JStr ''.''); permission = dict_get params ''permission'' (JStr ''read'') in
      bind (lift_res (relative_parts scope)) (\<lambda>parts.
      bind (lift_res (in_str_set permission [''read'', ''write''])) (\<lambda>ok.
      andthen (require ok (WorkspaceError ''permission must be read or write''))
      (andthen (sh_effect (\<lambda>w. w\<lparr>sh_store := (sh_store w)\<lparr>lock_files := insert c (lock_files (sh_store w))\<rparr>\<rparr>))
      (andthen (open_path c parts True)
      (ret [(''enabled'', JBool True), (''scope'', scope), (''permission'', permission)]))))))"

definition save_policy :: "skey \<Rightarrow> jdict \<Rightarrow> unit shop" where
  "save_policy c d = sh_effect (\<lambda>w. w\<lparr>sh_policies := (sh_policies w)(c \<mapsto> JsonFile (JObj d))\<rparr>)"

definition share_configure :: "skey \<Rightarrow> string \<Rightarrow> jdict \<Rightarrow> json \<Rightarrow> json shop" where
  "share_configure c action params policy =
     bind (if action = ''enable'' then share_enable c params
           else bind (lift_res (spread policy)) (\<lambda>d. ret (dict_set ''enabled'' (JBool False) d))) (\<lambda>d.
     andthen (save_policy c d)
     (andthen (share_event (''share.'' @ action) d c)
     (ret (with_ids c d))))"

definition is_share_failure :: "error \<Rightarrow> bool" where
  "is_share_failure e = (case e of WorkspaceError _ \<Rightarrow> True | _ \<Rightarrow> is_OSError e)"

definition share_transfer :: "string \<Rightarrow> string \<Rightarrow> json \<Rightarrow> skey \<Rightarrow> jdict \<Rightarrow> jdict \<Rightarrow> json shop" where
  "share_transfer uid action policy target params audit =
     bind (policy_of (caller_json target)) (\<lambda>tp.
     bind (lift_res (item policy ''enabled'')) (\<lambda>mine.
     bind (if truthy mine then lift_res (item tp ''enabled'') else ret (JBool False)) (\<lambda>theirs.
     andthen (require (truthy mine \<and> truthy theirs) (WorkspaceError ''both Sessions must enable share''))
     (bind (if action = ''write'' then lift_res (item tp ''permission'') else ret (JStr ''write'')) (\<lambda>perm.
     andthen (require (action = ''write'' \<longrightarrow> perm = JStr ''write'') (WorkspaceError ''target share is read-only''))
     (bind (fenced_access target (action = ''write'') (share_data uid target tp action params audit)) (\<lambda>result.
     andthen (st_op (append_event (dict_set ''result'' (JStr ''success'') audit) (Some (fst target)) (Some (snd target))))
     (ret result))))))))"

definition share_dispatch :: "string \<Rightarrow> skey \<Rightarrow> string \<Rightarrow> jdict \<Rightarrow> json shop" where
  "share_dispatch uid c action params =
     bind (policy_of (caller_json c)) (\<lambda>policy.
     if action = ''status'' then bind (lift_res (spread policy)) (\<lambda>d. ret (with_ids c d))
     else if action \<in> {''enable'', ''disable''} then share_configure c action params policy
     else andthen (require (action \<in> {''list'', ''read'', ''write''}) (WorkspaceError ''unknown share action''))
       (bind (lift_res (policy_path (jget params ''target_agent_id'', jget params ''target_session_id''))) (\<lambda>target.
        let path = dict_get params ''path'' (JStr ''.'') in
        bind (lift_res (relative_parts path)) (\<lambda>_.
        let audit = [(''op'', JStr (''share.'' @ action)), (''caller_agent_id'', JStr (fst c)), (''caller_session_id'', JStr (snd c)),
              (''path'', path)] in
        catch is_share_failure (share_transfer uid action policy target params audit)
          (\<lambda>e. andthen (st_op (append_event (dict_set ''result'' (JStr ''denied_or_failed'') audit) (Some (fst target)) (Some (snd target))))
             (raise (case e of WorkspaceError _ \<Rightarrow> e | _ \<Rightarrow> WorkspaceError ''shared file unavailable or unsupported'')))))))"

section \<open>Endpoint\<close>

definition MAX_REQUEST :: int where
  "MAX_REQUEST = 512 * 1024"

definition in_share :: "'a shop \<Rightarrow> (share \<times> 'k world, 'a) op" where
  "in_share m = (\<lambda>(w, k). case m w of (r, w') \<Rightarrow> (r, (w', k)))"

definition parse_share_request :: "json \<Rightarrow> (string \<times> jdict) res" where
  "parse_share_request doc = (case doc of
      JObj d \<Rightarrow> (case dict_get d ''params'' (JObj []) of
          JObj params \<Rightarrow>
            if list_ex (\<lambda>k. k \<in> set (dict_keys params)) [''agent_id'', ''session_id'', ''caller'']
            then Inl (WorkspaceError ''caller identity cannot be supplied by the Agent'')
            else (case jget d ''action'' of
                JStr act \<Rightarrow> Inr (act, params)
              | _ \<Rightarrow> Inl (WorkspaceError ''invalid share action''))
        | _ \<Rightarrow> Inl (WorkspaceError ''invalid share request''))
    | _ \<Rightarrow> Inl (WorkspaceError ''invalid share request''))"

text \<open>
  One request on the socket of Session \<open>who\<close>; \<open>pid\<close> is the peer the kernel reports, \<open>line\<close> the bytes
  up to the first newline or the size limit, \<open>loads\<close> the JSON parser.
\<close>

definition share_handle ::
  "'k cgroupfs \<Rightarrow> session_cgroup \<Rightarrow> (string \<Rightarrow> json res) \<Rightarrow> string \<Rightarrow> skey \<Rightarrow> int \<Rightarrow> string \<Rightarrow> (share \<times> 'k world, jdict) op" where
  "share_handle K c loads uid who pid line =
     catch (\<lambda>_. True)
       (bind (on_world (owns K c (fst who) (snd who) pid)) (\<lambda>mine.
        andthen (require mine (WorkspaceError ''caller does not belong to this Session''))
        (andthen (require (int (length line) \<le> MAX_REQUEST \<and> line \<noteq> [] \<and> last line = CHR 0x0A)
           (WorkspaceError ''invalid share request size''))
        (bind (lift_res (loads line)) (\<lambda>doc.
         bind (lift_res (parse_share_request doc)) (\<lambda>(act, params).
         bind (in_share (share_dispatch uid who act params)) (\<lambda>result.
         ret [(''ok'', JBool True), (''result'', result)])))))))
       (\<lambda>e. ret [(''ok'', JBool False), (''error'', JStr (case e of
           WorkspaceError m \<Rightarrow> m | ValueError m \<Rightarrow> m | _ \<Rightarrow> ''share request failed''))])"

text \<open>The sockets, one per Session; creating and closing them is the host's.\<close>

record 'w sockets =
  so_mkdir :: "('w, unit) op"
  so_tempdir :: "('w, string) op"
  so_bind :: "string \<Rightarrow> ('w, unit) op"
  so_chmod :: "string \<Rightarrow> ('w, unit) op"
  so_shutdown :: "string \<Rightarrow> ('w, unit) op"
  so_cleanup :: "string \<Rightarrow> ('w, unit) op"

record endpoints =
  ep_directory :: "string option"
  ep_servers :: "(skey, string) dict"

definition no_endpoints :: endpoints where
  "no_endpoints = \<lparr>ep_directory = None, ep_servers = []\<rparr>"

definition endpoint :: "'w sockets \<Rightarrow> string \<Rightarrow> string \<Rightarrow> (endpoints \<times> 'w, string) op" where
  "endpoint S a s =
     bind (own (\<lambda>e. map_of (ep_servers e) (a, s))) (\<lambda>known. case known of
       Some address \<Rightarrow> ret address
     | None \<Rightarrow>
         andthen (on_world (so_mkdir S))
         (bind (own ep_directory) (\<lambda>dir.
          bind (case dir of Some d \<Rightarrow> ret d
            | None \<Rightarrow> bind (on_world (so_tempdir S)) (\<lambda>d.
                andthen (own_modify (\<lambda>e. e\<lparr>ep_directory := Some d\<rparr>)) (ret d))) (\<lambda>d.
          bind (own (\<lambda>e. d @ ''/'' @ int_str (int (length (ep_servers e))) @ ''.sock'')) (\<lambda>path.
          andthen (on_world (so_bind S path))
          (andthen (on_world (so_chmod S path))
          (andthen (own_modify (\<lambda>e. e\<lparr>ep_servers := dict_set (a, s) path (ep_servers e)\<rparr>))
          (ret path))))))))"

definition endpoints_close :: "'w sockets \<Rightarrow> (endpoints \<times> 'w, unit) op" where
  "endpoints_close S =
     bind (own ep_servers) (\<lambda>servers.
     andthen (forM servers (\<lambda>(_, path). on_world (so_shutdown S path)))
     (andthen (own_modify (\<lambda>e. e\<lparr>ep_servers := []\<rparr>))
     (bind (own ep_directory) (\<lambda>dir. case dir of
        None \<Rightarrow> ret ()
      | Some d \<Rightarrow> andthen (on_world (so_cleanup S d)) (own_modify (\<lambda>e. e\<lparr>ep_directory := None\<rparr>))))))"

section \<open>Feature adapter\<close>

definition required_param :: "jdict \<Rightarrow> string \<Rightarrow> string res" where
  "required_param params key = (case jget params key of
      JStr (ch # t) \<Rightarrow> Inr (ch # t)
    | _ \<Rightarrow> Inl (WorkspaceError (''missing string parameter: '' @ key)))"

definition share_prepare :: "'w sockets \<Rightarrow> string \<Rightarrow> string \<Rightarrow> string \<Rightarrow> (endpoints \<times> 'w, contribution) op" where
  "share_prepare S tool a s =
     bind (endpoint S a s) (\<lambda>address.
     bind (lift_res (check_mount address ''/run/allox/share.sock'' True)) (\<lambda>m1.
     bind (lift_res (check_mount tool ''/run/allox/share.py'' True)) (\<lambda>m2.
     ret \<lparr>c_argv_prefix = [], c_environment = [], c_mounts = [m1, m2], c_metadata = [(''session_share'', JBool True)]\<rparr>)))"

definition removeprefix :: "string \<Rightarrow> string \<Rightarrow> string" where
  "removeprefix p t = (if startswith t p then drop (length p) t else t)"

definition share_feature_dispatch :: "string \<Rightarrow> string \<Rightarrow> jdict \<Rightarrow> json shop" where
  "share_feature_dispatch uid action params =
     bind (lift_res (required_param params ''agent_id'')) (\<lambda>a.
     bind (lift_res (required_param params ''session_id'')) (\<lambda>s.
     share_dispatch uid (a, s) (removeprefix ''share.'' action) params))"

section \<open>Trees under a change of one entry\<close>

lemma open_walk_tree_at: "open_walk ino dev directory pre t parts = Inr c \<Longrightarrow> tree_at parts t = Some c"
  by (induction ino dev directory pre t parts rule: open_walk.induct)
    (auto simp: bindR_eq_Inr split: tree.split_asm option.split_asm if_split_asm)

lemma open_walk_dir: "open_walk ino dev True pre (DirEntry d) parts = Inr c \<Longrightarrow> \<exists>e. c = DirEntry e"
  by (induction ino dev True pre "DirEntry d" parts arbitrary: d rule: open_walk.induct)
    (auto simp: bindR_eq_Inr open_entry_def split: tree.split_asm option.split_asm if_split_asm)

lemma tree_at_append: "tree_at (ps @ qs) t = Option.bind (tree_at ps t) (tree_at qs)"
  by (induction ps t rule: tree_at.induct) (auto split: Option.bind_split)

lemma tree_at_put_dir:
  "tree_at ps (DirEntry d) = Some (DirEntry e) \<Longrightarrow> tree_at ps (DirEntry (put_at ps n x d)) = Some (DirEntry (put_at [] n x e))"
proof (induction ps arbitrary: d)
  case (Cons p ps)
  then obtain t where t: "map_of d p = Some t" "tree_at ps t = Some (DirEntry e)" by (auto split: Option.bind_split_asm)
  then obtain d' where d': "t = DirEntry d'" by (cases t; cases ps) auto
  show ?case using t Cons.IH [of d'] unfolding d' by simp
qed simp

lemma tree_at_put:
  assumes "tree_at ps (DirEntry d) = Some (DirEntry e)"
  shows "tree_at (ps @ [n]) (DirEntry (put_at ps n x d)) = x"
  unfolding tree_at_append tree_at_put_dir [OF assms] by (simp split: option.split Option.bind_split)

lemma tree_at_put_other:
  "\<not> is_prefix q (ps @ [n]) \<Longrightarrow> \<not> is_prefix (ps @ [n]) q \<Longrightarrow> tree_at q (DirEntry (put_at ps n x d)) = tree_at q (DirEntry d)"
proof (induction ps arbitrary: d q)
  case Nil
  then show ?case by (cases q) (auto simp: is_prefix_def split: option.split)
next
  case (Cons p ps)
  show ?case
  proof (cases q)
    case (Cons a q')
    then show ?thesis
      using Cons.prems Cons.IH [of q'] by (cases "a = p") (auto simp: is_prefix_def split: option.split tree.split)
  qed (use Cons.prems in \<open>simp add: is_prefix_def\<close>)
qed

section \<open>Effects of an access\<close>

lemma sh_effect_InrE:
  assumes "sh_effect f w = (Inr u, w')"
  obtains xs where "w' = f (w\<lparr>sh_store := (sh_store w)\<lparr>schedule := xs\<rparr>\<rparr>)"
proof (cases "schedule (sh_store w)")
  case Nil
  have "w\<lparr>sh_store := (sh_store w)\<lparr>schedule := schedule (sh_store w)\<rparr>\<rparr> = w" by simp
  then show ?thesis using assms that [of "schedule (sh_store w)"] Nil unfolding sh_effect_def by (metis list.simps(4) prod.inject)
next
  case (Cons x xs)
  then show ?thesis using assms that [of xs] by (simp add: sh_effect_def Let_def split: outcome.split_asm)
qed

text \<open>The workspace of a Session as a tree, and the part of the state an access relies on.\<close>

definition cur_tree :: "share \<Rightarrow> skey \<Rightarrow> dirlist option" where
  "cur_tree w k = (case current_node (sh_store w) k of Some (Subvol d) \<Rightarrow> Some d | _ \<Rightarrow> None)"

lemma cur_tree_schedule [simp]: "cur_tree (w\<lparr>sh_store := (sh_store w)\<lparr>schedule := xs\<rparr>\<rparr>) k = cur_tree w k"
  by (simp add: cur_tree_def sess_entry_def)

lemma cur_tree_upd: "cur_tree (upd_current k f w) k' = (if k' = k then map_option f (cur_tree w k) else cur_tree w k')"
proof (cases "current_node (sh_store w) k")
  case (Some x)
  then obtain sd where "sessions (sh_store w) k = Some sd" "map_of (entries sd) ''current'' = Some x"
    by (auto simp: sess_entry_def bind_eq_Some_conv)
  then show ?thesis
    by (cases x) (simp_all add: cur_tree_def upd_current_def sess_entry_def set_entry_def upd_sess_def)
qed (simp add: cur_tree_def upd_current_def)

lemma inodes_upd [simp]: "sh_inodes (upd_current k f w) = sh_inodes w"
  by (simp add: upd_current_def)

lemma st_op_InrE:
  assumes "st_op m w = (Inr x, w')"
  obtains s where "m (sh_store w) = (Inr x, s)" "w' = w\<lparr>sh_store := s\<rparr>"
  using assms by (auto simp: st_op_def split: prod.splits)

lemma append_event_sessions:
  assumes "append_event ev a s w = (r, w')"
  shows "sessions w' = sessions w"
  using assms by (auto simp: append_event_def effect_def time_ns_def io_defs Let_def split: sum.splits list.splits outcome.splits)

lemma cur_tree_append_event:
  assumes "st_op (append_event ev a s) w = (Inr u, w')"
  shows "cur_tree w' k = cur_tree w k \<and> sh_inodes w' = sh_inodes w"
  using assms by (auto elim!: st_op_InrE dest!: append_event_sessions simp: cur_tree_def sess_entry_def)

lemma sh_effect_upd:
  assumes "sh_effect (upd_current k f) w = (Inr u, w')"
  shows "cur_tree w' k = map_option f (cur_tree w k) \<and> sh_inodes w' = sh_inodes w"
  using assms by (auto elim!: sh_effect_InrE simp: cur_tree_upd)

lemma sh_effect_id:
  assumes "sh_effect id w = (Inr u, w')"
  shows "cur_tree w' k = cur_tree w k \<and> sh_inodes w' = sh_inodes w"
  using assms by (auto elim!: sh_effect_InrE)

lemma install_file_result:
  assumes "install_file k ps tmp n bs audit w = (Inr u, w')" and "cur_tree w k = Some d"
    and "tree_at ps (DirEntry d) = Some (DirEntry e)" and "n \<noteq> tmp"
  shows "cur_tree w' k = Some (put_at ps tmp None (put_at ps n (Some (RegFile bs))
      (put_at ps tmp (Some (RegFile bs)) (put_at ps tmp (Some (RegFile [])) d)))) \<and>
    sh_inodes w' = (sh_inodes w)((k, ps @ [n]) :=
      \<lparr>i_dev = i_dev (sh_inodes w (k, ps)), i_nlink = 1, i_size = int (length bs)\<rparr>)"
proof -
  obtain w1 w2 w3 w4 w5 w6 where s1: "sh_effect (upd_current k (put_at ps tmp (Some (RegFile [])))) w = (Inr (), w1)"
    and s2: "sh_effect (upd_current k (put_at ps tmp (Some (RegFile bs)))) w1 = (Inr (), w2)"
    and s3: "sh_effect id w2 = (Inr (), w3)"
    and s4: "st_op (append_event (dict_merge audit [(''op'', JStr ''share.write_prepared''), (''size'', JInt (int (length bs)))])
            (Some (fst k)) (Some (snd k))) w3 = (Inr (), w4)"
    and s5: "sh_effect (replace_file k ps tmp n bs) w4 = (Inr (), w5)"
    and s6: "sh_effect id w5 = (Inr (), w6)" and s7: "unlink_temporary k ps tmp w6 = (Inr (), w')"
    using assms(1) unfolding install_file_def by (auto elim!: andthen_InrE finally_InrE)
  define d4 where "d4 = put_at ps tmp (Some (RegFile bs)) (put_at ps tmp (Some (RegFile [])) d)"
  define d5 where "d5 = put_at ps tmp None (put_at ps n (Some (RegFile bs)) d4)"
  have w4: "cur_tree w4 k = Some d4" "sh_inodes w4 = sh_inodes w"
    using sh_effect_upd [OF s1] sh_effect_upd [OF s2] sh_effect_id [OF s3, of k] cur_tree_append_event [OF s4, of k] assms(2)
    by (simp_all add: d4_def)
  obtain xs where w5: "w5 = replace_file k ps tmp n bs (w4\<lparr>sh_store := (sh_store w4)\<lparr>schedule := xs\<rparr>\<rparr>)"
    using s5 by (rule sh_effect_InrE)
  have "cur_tree w5 k = cur_tree (upd_current k (\<lambda>d. put_at ps tmp None (put_at ps n (Some (RegFile bs)) d))
      (w4\<lparr>sh_store := (sh_store w4)\<lparr>schedule := xs\<rparr>\<rparr>)) k"
    by (simp add: w5 replace_file_def Let_def cur_tree_def)
  then have t6: "cur_tree w6 k = Some d5" and i6: "sh_inodes w6 = (sh_inodes w)((k, ps @ [n]) :=
      \<lparr>i_dev = i_dev (sh_inodes w (k, ps)), i_nlink = 1, i_size = int (length bs)\<rparr>)"
    using w4 sh_effect_id [OF s6, of k] by (simp_all add: cur_tree_upd d5_def w5 replace_file_def Let_def)
  have "tree_at (ps @ [tmp]) (DirEntry d5) = None"
    unfolding d5_def d4_def using assms(3) by (auto intro!: tree_at_put simp: tree_at_put_dir)
  then have "w' = w6"
    using s7 t6 by (auto simp: unlink_temporary_def cur_tree_def whenM_def split: option.split_asm node.split_asm elim!: run_elims)
  then show ?thesis using t6 i6 by (simp add: d5_def d4_def)
qed

lemma open_path_InrE:
  assumes "open_path k parts directory w = (Inr t, w')"
  obtains d where "w' = w" "cur_tree w k = Some d"
    "open_walk (\<lambda>p. sh_inodes w (k, p)) (i_dev (sh_inodes w (k, []))) directory [] (DirEntry d) parts = Inr t"
proof -
  obtain d where "w' = w" "open_current (current_node (sh_store w) k) = Inr d"
    "open_walk (\<lambda>p. sh_inodes w (k, p)) (i_dev (sh_inodes w (k, []))) directory [] (DirEntry d) parts = Inr t"
    using assms unfolding open_path_def by (auto elim!: run_elims simp: bindR_eq_Inr)
  moreover from this(2) have "cur_tree w k = Some d"
    by (auto simp: open_current_def cur_tree_def split: option.split_asm node.split_asm)
  ultimately show ?thesis by (intro that)
qed

text \<open>The walk to a file whose directory was opened, when only the device of the file itself may differ.\<close>

lemma open_walk_append:
  "open_walk ino dev directory pre t (ps @ [n]) =
     (case open_walk ino dev True pre t ps of
        Inl e \<Rightarrow> Inl e
      | Inr u \<Rightarrow> open_walk ino dev directory (pre @ ps) u [n])"
  by (induction ps arbitrary: pre t) (auto simp: bindR_def split: tree.split option.split sum.split)

lemma open_walk_dev:
  "open_walk ino dev True pre (DirEntry d) ps = Inr t \<Longrightarrow> i_dev (ino pre) = dev \<Longrightarrow> i_dev (ino (pre @ ps)) = dev"
proof (induction ps arbitrary: pre d)
  case (Cons p ps)
  then obtain c where c: "map_of d p = Some c" "open_entry True c = Inr ()" "i_dev (ino (pre @ [p])) = dev"
      "open_walk ino dev True (pre @ [p]) c ps = Inr t"
    by (auto simp: bindR_eq_Inr split: option.split_asm if_split_asm)
  then obtain d' where "c = DirEntry d'" by (auto simp: open_entry_def split: tree.split_asm)
  then show ?case using Cons.IH [of "pre @ [p]" d'] c by simp
qed simp

lemma open_walk_put:
  assumes "open_walk ino dev True pre (DirEntry d) ps = Inr (DirEntry e)"
  shows "open_walk ino dev True pre (DirEntry (put_at ps n x d)) ps = Inr (DirEntry (put_at [] n x e))"
  using assms
proof (induction ps arbitrary: pre d)
  case (Cons p ps)
  then obtain c where c: "map_of d p = Some c" "open_entry True c = Inr ()" "i_dev (ino (pre @ [p])) = dev"
      "open_walk ino dev True (pre @ [p]) c ps = Inr (DirEntry e)"
    by (auto simp: bindR_eq_Inr split: option.split_asm if_split_asm)
  then obtain d' where d': "c = DirEntry d'" by (auto simp: open_entry_def split: tree.split_asm)
  then show ?case using Cons.IH [of "pre @ [p]" d'] c by (simp add: open_entry_def)
qed simp

lemma open_walk_inodes:
  assumes "\<And>q. q \<noteq> [] \<Longrightarrow> is_prefix q ps \<Longrightarrow> ino' (pre @ q) = ino (pre @ q)"
  shows "open_walk ino' dev directory pre t ps = open_walk ino dev directory pre t ps"
  using assms
proof (induction ps arbitrary: pre t)
  case (Cons p ps)
  have "ino' (pre @ [p]) = ino (pre @ [p])" using Cons.prems [of "[p]"] by (simp add: is_prefix_def)
  moreover have "open_walk ino' dev directory (pre @ [p]) u ps = open_walk ino dev directory (pre @ [p]) u ps" for u
    using Cons.prems [of "p # _"] by (intro Cons.IH) (simp add: is_prefix_def)
  ultimately show ?case by (simp split: tree.split option.split)
qed simp

lemma access_write_InrE:
  assumes "access_write uid k (ps @ [n]) encoded audit w = (Inr res, w')"
  obtains enc bs d e where "encoded = JStr enc" "b64decode enc = Some bs" "int (length bs) \<le> MAX_BYTES" "cur_tree w k = Some d"
    "open_walk (\<lambda>p. sh_inodes w (k, p)) (i_dev (sh_inodes w (k, []))) True [] (DirEntry d) ps = Inr (DirEntry e)"
    "case map_of e n of None \<Rightarrow> True | Some old \<Rightarrow> is_regular old" "map_of e (''.allox-share-'' @ uid) = None"
    "install_file k ps (''.allox-share-'' @ uid) n bs audit w = (Inr (), w')" "\<exists>p. current (fst k) (snd k) = Inr p"
proof -
  obtain bs t where dec: "decode_data encoded = Inr bs" and op: "open_path k ps True w = (Inr t, w)"
    and rest: "write_below uid k ps n bs audit t w = (Inr res, w')"
    using assms unfolding access_write_def by (auto elim!: bind_InrE lift_InrE dest: open_path_InrE)
  obtain enc where enc: "encoded = JStr enc" and bs: "b64decode enc = Some bs" "int (length bs) \<le> MAX_BYTES"
    using dec by (auto simp: decode_data_def split: json.split_asm if_split_asm option.split_asm)
  obtain d where d: "cur_tree w k = Some d"
      "open_walk (\<lambda>p. sh_inodes w (k, p)) (i_dev (sh_inodes w (k, []))) True [] (DirEntry d) ps = Inr t"
    using op by (rule open_path_InrE)
  obtain e where e: "t = DirEntry e" using open_walk_dir [OF d(2)] by blast
  have cur: "\<exists>p. current (fst k) (snd k) = Inr p" using op unfolding open_path_def by (auto elim!: run_elims)
  have "(case map_of e n of None \<Rightarrow> True | Some old \<Rightarrow> is_regular old)" "map_of e (''.allox-share-'' @ uid) = None"
    "install_file k ps (''.allox-share-'' @ uid) n bs audit w = (Inr (), w')"
    using rest unfolding e write_below_def by (auto simp: Let_def elim!: run_elims split: option.split)
  from that [OF enc bs d [unfolded e] this cur] show thesis .
qed

lemma write_then_open:
  assumes "install_file k ps tmp n bs audit w = (Inr (), w')" and "n \<noteq> tmp" and d: "cur_tree w k = Some d"
    and walk: "open_walk (\<lambda>p. sh_inodes w (k, p)) (i_dev (sh_inodes w (k, []))) True [] (DirEntry d) ps = Inr (DirEntry e)"
    and "current (fst k) (snd k) = Inr p"
  shows "open_path k (ps @ [n]) False w' = (Inr (RegFile bs), w')" and "i_nlink (sh_inodes w' (k, ps @ [n])) = 1"
proof -
  let ?dev = "i_dev (sh_inodes w (k, []))"
  define d' where "d' = put_at ps tmp None (put_at ps n (Some (RegFile bs))
      (put_at ps tmp (Some (RegFile bs)) (put_at ps tmp (Some (RegFile [])) d)))"
  have res: "cur_tree w' k = Some d'" "sh_inodes w' = (sh_inodes w)((k, ps @ [n]) :=
      \<lparr>i_dev = i_dev (sh_inodes w (k, ps)), i_nlink = 1, i_size = int (length bs)\<rparr>)"
    using install_file_result [OF assms(1) d open_walk_tree_at [OF walk] assms(2)] by (simp_all add: d'_def)
  have dev: "i_dev (sh_inodes w (k, ps)) = ?dev" using open_walk_dev [OF walk] by simp
  have "open_walk (\<lambda>p. sh_inodes w' (k, p)) ?dev True [] (DirEntry d') ps = open_walk (\<lambda>p. sh_inodes w (k, p)) ?dev True [] (DirEntry d') ps"
    by (rule open_walk_inodes) (auto simp: res(2) is_prefix_def)
  also have "\<dots> = Inr (DirEntry (put_at [] tmp None (put_at [] n (Some (RegFile bs))
      (put_at [] tmp (Some (RegFile bs)) (put_at [] tmp (Some (RegFile [])) e)))))"
    unfolding d'_def by (intro open_walk_put walk)
  finally have "open_walk (\<lambda>p. sh_inodes w' (k, p)) ?dev False [] (DirEntry d') (ps @ [n]) = Inr (RegFile bs)"
    using assms(2) dev by (simp add: open_walk_append res(2) open_entry_def)
  moreover have "open_current (current_node (sh_store w') k) = Inr d'"
    using res(1) by (auto simp: cur_tree_def open_current_def split: option.split_asm node.split_asm)
  ultimately show "open_path k (ps @ [n]) False w' = (Inr (RegFile bs), w')"
    using assms(5) by (simp add: open_path_def bind_def gets_def lift_res_def res(2))
  show "i_nlink (sh_inodes w' (k, ps @ [n])) = 1" by (simp add: res(2))
qed

section \<open>What an access leaves alone\<close>

lemma tree_at_below:
  assumes "tree_at ps (DirEntry d) = Some (DirEntry e)" and "is_prefix (ps @ [n]) q"
  shows "tree_at q (DirEntry d) = Option.bind (map_of e n) (tree_at (drop (length ps + 1) q))"
proof -
  have "q = (ps @ [n]) @ drop (length ps + 1) q"
    using assms(2) append_take_drop_id [of "length ps + 1" q] unfolding is_prefix_def by simp
  then have "tree_at q (DirEntry d) = Option.bind (tree_at (ps @ [n]) (DirEntry d)) (tree_at (drop (length ps + 1) q))"
    by (metis tree_at_append)
  then show ?thesis by (simp add: tree_at_append assms(1) split: Option.bind_split)
qed

lemma tree_at_regular: "is_regular t \<Longrightarrow> q \<noteq> [] \<Longrightarrow> tree_at q t = None"
  by (cases t; cases q) (auto simp: is_regular_def)

lemma installed_elsewhere:
  assumes at: "tree_at ps (DirEntry d) = Some (DirEntry e)" and old: "case map_of e n of None \<Rightarrow> True | Some old \<Rightarrow> is_regular old"
    and fresh: "map_of e tmp = None" and q: "\<not> is_prefix q (ps @ [n])"
  shows "tree_at q (DirEntry (put_at ps tmp None (put_at ps n (Some (RegFile bs))
      (put_at ps tmp (Some (RegFile bs)) (put_at ps tmp (Some (RegFile [])) d))))) = tree_at q (DirEntry d)"
    (is "tree_at q (DirEntry ?d') = _")
proof -
  have at': "tree_at ps (DirEntry ?d') = Some (DirEntry (put_at [] tmp None (put_at [] n (Some (RegFile bs))
      (put_at [] tmp (Some (RegFile bs)) (put_at [] tmp (Some (RegFile [])) e)))))"
    by (intro tree_at_put_dir at)
  consider (scratch) "is_prefix (ps @ [tmp]) q" | (leaf) "is_prefix (ps @ [n]) q" "n \<noteq> tmp"
    | (rest) "\<not> is_prefix (ps @ [tmp]) q" "\<not> is_prefix (ps @ [n]) q" by blast
  then show ?thesis
  proof cases
    case scratch
    then show ?thesis using tree_at_below [OF at scratch] tree_at_below [OF at' scratch] fresh by simp
  next
    case leaf
    have ne: "drop (length ps + 1) q \<noteq> []" using leaf(1) q by (auto simp: is_prefix_def)
    then show ?thesis
      using tree_at_below [OF at leaf(1)] tree_at_below [OF at' leaf(1)] old leaf(2) tree_at_regular
      by (auto simp: is_regular_def split: option.split_asm Option.bind_split)
  next
    case rest
    have "\<not> is_prefix q (ps @ [m])" if "m \<in> {tmp, n}" for m
      using q rest that by (auto simp: is_prefix_def take_Cons' split: if_splits)
    then show ?thesis using rest by (simp add: tree_at_put_other)
  qed
qed

lemma keeps_effect:
  assumes "\<And>w. g (f w) = g w" and "\<And>w xs. g (w\<lparr>sh_store := (sh_store w)\<lparr>schedule := xs\<rparr>\<rparr>) = g w"
  shows "keeps g (sh_effect f)"
  using assms by (auto simp: keeps_def sh_effect_def Let_def split: list.split outcome.split)

lemma keeps_st_op: "keeps g m \<Longrightarrow> (\<And>w s. g s = g (sh_store w) \<Longrightarrow> h (w\<lparr>sh_store := s\<rparr>) = h w) \<Longrightarrow> keeps h (st_op m)"
  by (auto simp: keeps_def st_op_def split: prod.split) (metis snd_conv)

text \<open>The Sessions other than \<open>k\<close>.\<close>

definition elsewhere :: "skey \<Rightarrow> share \<Rightarrow> skey \<Rightarrow> sess option" where
  "elsewhere k w = (sessions (sh_store w))(k := None)"

lemma elsewhere_simps [simp]:
  "elsewhere k (upd_current k f w) = elsewhere k w" "elsewhere k (w\<lparr>sh_inodes := i\<rparr>) = elsewhere k w"
  "elsewhere k (w\<lparr>sh_store := (sh_store w)\<lparr>schedule := xs\<rparr>\<rparr>) = elsewhere k w"
  by (auto simp: elsewhere_def upd_current_def set_entry_def upd_sess_def fun_eq_iff split: option.split node.split)

lemma keeps_append_event: "keeps sessions (append_event ev a s)"
  unfolding keeps_def by (metis append_event_sessions prod.collapse)

lemma keeps_sessions_event [keeps_intros]: "keeps (\<lambda>w. sessions (sh_store w)) (st_op (append_event ev a s))"
  by (rule keeps_st_op [OF keeps_append_event]) simp

lemma keeps_elsewhere_event [keeps_intros]: "keeps (elsewhere k) (st_op (append_event ev a s))"
  by (rule keeps_st_op [OF keeps_append_event]) (simp add: elsewhere_def)

lemma keeps_elsewhere_install: "keeps (elsewhere k) (install_file k ps tmp n bs audit)"
  unfolding install_file_def unlink_temporary_def replace_file_def Let_def
  by (intro keeps_intros keeps_effect) simp_all

lemma keeps_open [keeps_intros]: "keeps g (open_path k parts directory)"
  unfolding open_path_def by (intro keeps_intros)

lemma keeps_case_tree [keeps_intros]:
  "(\<And>d. keeps g (f d)) \<Longrightarrow> keeps g r \<Longrightarrow> keeps g (case t of DirEntry d \<Rightarrow> f d | _ \<Rightarrow> r)"
  "(\<And>bs. keeps g (h bs)) \<Longrightarrow> keeps g r \<Longrightarrow> keeps g (case t of RegFile bs \<Rightarrow> h bs | _ \<Rightarrow> r)"
  by (cases t; simp)+

lemma keeps_data_read: "action \<in> {''list'', ''read''} \<Longrightarrow> keeps g (share_data uid k policy action params audit)"
  unfolding share_data_def access_list_def access_read_def by (auto intro!: keeps_intros)

lemma keeps_data_elsewhere: "keeps (elsewhere k) (share_data uid k policy action params audit)"
  unfolding share_data_def access_list_def access_read_def access_write_def write_below_def Let_def
  by (auto intro!: keeps_intros keeps_elsewhere_install)

section \<open>The fence around an access\<close>

text \<open>The registry as its clients see it.\<close>

definition same_fence :: "registry \<Rightarrow> registry \<Rightarrow> bool" where
  "same_fence g g' = (leases g' = leases g \<and> recovery_leases g' = recovery_leases g \<and> mutating g' = mutating g \<and>
     background g' = background g \<and> resets g' = resets g \<and> (\<forall>k. has_readers g' k = has_readers g k))"

lemma keeps_reg_data [keeps_intros]: "keeps sh_reg (share_data uid k policy action params audit)"
  unfolding share_data_def access_list_def access_read_def access_write_def write_below_def install_file_def unlink_temporary_def
    replace_file_def Let_def
  by (auto intro!: keeps_intros keeps_effect keeps_st_op [where g = "\<lambda>_. ()"] simp: upd_current_def) (simp_all add: keeps_def)

lemma rg_op_InrE:
  assumes "rg_op m w = (Inr x, w')"
  obtains g where "m (sh_reg w) = (Inr x, g)" "w' = w\<lparr>sh_reg := g\<rparr>"
  using assms by (auto simp: rg_op_def split: prod.splits)

lemma has_readers_set: "has_readers (g\<lparr>share_readers := dict_set k n rs\<rparr>) k' = (if k' = k then n \<noteq> 0 else has_readers (g\<lparr>share_readers := rs\<rparr>) k')"
  by (simp add: has_readers_def)

lemma share_read_bracket:
  assumes "share_read_enter a s g = (Inr k, g1)" and "share_read_exit k g1 = (Inr u, g2)"
  shows "k = (a, s) \<and> k \<notin> mutating g \<and> same_fence g g2"
proof -
  have enter: "k = (a, s)" "k \<notin> mutating g" "g1 = g\<lparr>share_readers := dict_set k (dict_get (share_readers g) k 0 + 1) (share_readers g)\<rparr>"
    using assms(1) by (auto simp: share_read_enter_def reg_key_def bindR_eq_Inr modify_def elim!: run_elims)
  have "g2 = g1\<lparr>share_readers := (if dict_get (share_readers g) k 0 = 0 then dict_del k (share_readers g1)
      else dict_set k (dict_get (share_readers g) k 0) (share_readers g1))\<rparr>"
    using assms(2) unfolding share_read_exit_def by (auto simp: enter(3) modify_def elim!: run_elims)
  then have "same_fence g g2"
    by (auto simp: same_fence_def enter(3) has_readers_def dict_get_def split: option.split)
  with enter show ?thesis by blast
qed

lemma mutation_bracket:
  assumes "mutation_enter a s g = (Inr k, g1)"
  shows "k = (a, s) \<and> k \<notin> mutating g \<and> \<not> has_lease g k \<and> \<not> has_readers g k \<and> snd (mutation_exit k g1) = g"
proof -
  have enter: "k = (a, s)" "k \<notin> mutating g" "\<not> has_lease g k" "\<not> has_readers g k" "g1 = g\<lparr>mutating := insert k (mutating g)\<rparr>"
    using assms by (auto simp: mutation_enter_def reg_key_def bindR_eq_Inr modify_def elim!: run_elims)
  have "g\<lparr>mutating := mutating g\<rparr> = g" by simp
  with enter show ?thesis by (auto simp: mutation_exit_def modify_def)
qed

lemma fenced_access_InrE:
  assumes "fenced_access k for_write body w = (Inr x, w')" and "keeps sh_reg body"
  obtains w1 w2 where "body w1 = (Inr x, w2)" "sessions (sh_store w1) = sessions (sh_store w)" "sh_store w' = sh_store w2"
    "k \<notin> mutating (sh_reg w)" "same_fence (sh_reg w) (sh_reg w')" "for_write \<longrightarrow> \<not> has_lease (sh_reg w) k \<and> \<not> has_readers (sh_reg w) k"
proof -
  obtain ks g1 w1 w2 u g3 where
    enter: "(if for_write then mutation_enter (fst k) (snd k) else share_read_enter (fst k) (snd k)) (sh_reg w) = (Inr ks, g1)"
    and lock: "sh_effect (\<lambda>w. w\<lparr>sh_store := (sh_store w)\<lparr>lock_files := insert k (lock_files (sh_store w))\<rparr>\<rparr>) (w\<lparr>sh_reg := g1\<rparr>) = (Inr (), w1)"
    and body: "body w1 = (Inr x, w2)"
    and leave: "(if for_write then mutation_exit ks else share_read_exit ks) (sh_reg w2) = (Inr u, g3)" "w' = w2\<lparr>sh_reg := g3\<rparr>"
    using assms(1) unfolding fenced_access_def Let_def
    by (cases for_write) (auto elim!: bind_InrE andthen_InrE lift_InrE finally_InrE rg_op_InrE)
  have w1: "sessions (sh_store w1) = sessions (sh_store w)" "sh_reg w1 = g1"
    using lock by (auto elim!: sh_effect_InrE)
  have w2: "sh_reg w2 = g1" using keepsD [OF assms(2) body] w1 by simp
  note g3 = leave [unfolded w2]
  have "k \<notin> mutating (sh_reg w)" "same_fence (sh_reg w) g3" "for_write \<longrightarrow> \<not> has_lease (sh_reg w) k \<and> \<not> has_readers (sh_reg w) k"
    using enter g3(1) mutation_bracket [of "fst k" "snd k" "sh_reg w" ks g1] share_read_bracket [of "fst k" "snd k" "sh_reg w" ks g1 u g3]
    by (cases for_write; auto simp: same_fence_def)+
  with that [OF body w1(1)] g3(2) show thesis by simp
qed

lemma keeps_sessions_describe: "keeps sessions (describe a s)"
proof -
  have "keeps sessions (effect e (write_index_file k i))" for e k i
    by (auto simp: keeps_def effect_def write_index_file_def Let_def split: list.split outcome.split)
  then show ?thesis
    unfolding describe_def require_managed_directory_def list_checkpoints_def actual_checkpoint_ids_def load_index_def save_index_def
    by (auto intro!: keeps_intros split: option.split cps_node.split sum.split prod.split)
qed

lemma policy_of_InrE:
  assumes "policy_of who w = (Inr doc, w')"
  obtains k where "policy_path who = Inr k" "sh_policies w' = sh_policies w" "sh_reg w' = sh_reg w"
    "sessions (sh_store w') = sessions (sh_store w)" "sh_policies w k = Some (JsonFile doc) \<or> doc = default_policy"
proof -
  obtain k d w1 where k: "policy_path who = Inr k" and desc: "st_op (describe (fst k) (snd k)) w = (Inr d, w1)"
    and rd: "(case sh_policies w1 k of None \<Rightarrow> ret default_policy | Some (JsonFile doc) \<Rightarrow> ret doc
      | Some GarbledFile \<Rightarrow> raise (ValueError ''Expecting value'') | Some OddFile \<Rightarrow> raise io_error) w1 = (Inr doc, w')"
    using assms unfolding policy_of_def by (elim bind_InrE andthen_InrE lift_InrE gets_InrE) simp
  obtain s where s: "describe (fst k) (snd k) (sh_store w) = (Inr d, s)" "w1 = w\<lparr>sh_store := s\<rparr>"
    using desc by (rule st_op_InrE)
  have "sessions s = sessions (sh_store w)" using keepsD [OF keeps_sessions_describe s(1)] .
  moreover have "w' = w1 \<and> (sh_policies w1 k = Some (JsonFile doc) \<or> doc = default_policy)"
    using rd by (auto split: option.split_asm jfile.split_asm elim!: run_elims)
  ultimately show thesis using that [OF k] s(2) by auto
qed

lemma policy_of_same:
  assumes "policy_of (caller_json c) w = (Inr doc, w')"
  shows "sh_policies w' = sh_policies w \<and> sh_reg w' = sh_reg w \<and> sessions (sh_store w') = sessions (sh_store w) \<and>
    (sh_policies w c = Some (JsonFile doc) \<or> doc = default_policy)"
  using assms by (auto elim!: policy_of_InrE simp: policy_path_def caller_json_def bindR_eq_Inr)

section \<open>Properties\<close>

definition consents :: "share \<Rightarrow> skey \<Rightarrow> bool" where
  "consents w k = (\<exists>doc v. sh_policies w k = Some (JsonFile doc) \<and> item doc ''enabled'' = Inr v \<and> truthy v)"

definition permits_writing :: "share \<Rightarrow> skey \<Rightarrow> bool" where
  "permits_writing w k = (\<exists>doc. sh_policies w k = Some (JsonFile doc) \<and> item doc ''permission'' = Inr (JStr ''write''))"

lemma share_transfer_InrE:
  assumes "share_transfer uid action policy target params audit w = (Inr res, w')"
  obtains tp mine theirs perm w1 w2 where "policy_of (caller_json target) w = (Inr tp, w1)"
    "item policy ''enabled'' = Inr mine" "truthy mine" "item tp ''enabled'' = Inr theirs" "truthy theirs"
    "action = ''write'' \<longrightarrow> item tp ''permission'' = Inr (JStr ''write'')"
    "fenced_access target (action = ''write'') (share_data uid target tp action params audit) w1 = (Inr res, w2)"
    "sh_reg w' = sh_reg w2" "sessions (sh_store w') = sessions (sh_store w2)"
  using assms unfolding share_transfer_def
  apply (elim bind_InrE andthen_InrE lift_InrE require_InrE ret_InrE st_op_InrE)
  by (auto elim!: run_elims dest!: append_event_sessions split: if_split_asm)

text \<open>
  C23. Sharing needs the consent of both sides: a list, read or write that succeeds found sharing
  enabled in the policy files of the caller and of the target, for a write also the write permission
  of the target; the target was not being checkpointed or restored and, for a write, not running and
  not being read. The registry is left as it was found, every Session other than the target is
  untouched, and listing and reading change no Session at all.
\<close>

theorem share_needs_consent:
  assumes "share_dispatch uid c action params w = (Inr res, w')" and "action \<in> {''list'', ''read'', ''write''}"
  shows "\<exists>target. policy_path (jget params ''target_agent_id'', jget params ''target_session_id'') = Inr target \<and>
    consents w c \<and> consents w target \<and> target \<notin> mutating (sh_reg w) \<and>
    (action = ''write'' \<longrightarrow> permits_writing w target \<and> \<not> has_lease (sh_reg w) target \<and> \<not> has_readers (sh_reg w) target) \<and>
    same_fence (sh_reg w) (sh_reg w') \<and> elsewhere target w' = elsewhere target w \<and>
    (action \<noteq> ''write'' \<longrightarrow> sessions (sh_store w') = sessions (sh_store w))"
proof -
  obtain policy w1 target audit where pol: "policy_of (caller_json c) w = (Inr policy, w1)"
    and tgt: "policy_path (jget params ''target_agent_id'', jget params ''target_session_id'') = Inr target"
    and tr: "share_transfer uid action policy target params audit w1 = (Inr res, w')"
    using assms unfolding share_dispatch_def Let_def
    by (auto elim!: bind_InrE andthen_InrE lift_InrE require_InrE catch_cases elim: raise_InrE)
  obtain tp mine theirs w2 w3 where tpol: "policy_of (caller_json target) w1 = (Inr tp, w2)"
    and on: "item policy ''enabled'' = Inr mine" "truthy mine" "item tp ''enabled'' = Inr theirs" "truthy theirs"
    and perm: "action = ''write'' \<longrightarrow> item tp ''permission'' = Inr (JStr ''write'')"
    and acc: "fenced_access target (action = ''write'') (share_data uid target tp action params audit) w2 = (Inr res, w3)"
    and last: "sh_reg w' = sh_reg w3" "sessions (sh_store w') = sessions (sh_store w3)"
    using tr by (rule share_transfer_InrE)
  note p1 = policy_of_same [OF pol] and p2 = policy_of_same [OF tpol]
  have files: "sh_policies w c = Some (JsonFile policy)" "sh_policies w target = Some (JsonFile tp)"
    using p1 p2 on by (auto simp: default_policy_def item_def)
  obtain u v where body: "share_data uid target tp action params audit u = (Inr res, v)"
    and fence: "sessions (sh_store u) = sessions (sh_store w2)" "sh_store w3 = sh_store v" "target \<notin> mutating (sh_reg w2)"
      "same_fence (sh_reg w2) (sh_reg w3)" "action = ''write'' \<longrightarrow> \<not> has_lease (sh_reg w2) target \<and> \<not> has_readers (sh_reg w2) target"
    using acc keeps_reg_data by (rule fenced_access_InrE)
  have "elsewhere target v = elsewhere target u" using keepsD [OF keeps_data_elsewhere body] .
  then have "elsewhere target w' = elsewhere target w" using fence p1 p2 last by (simp add: elsewhere_def)
  moreover have "sessions (sh_store w') = sessions (sh_store w)" if "action \<noteq> ''write''"
    using keepsD [OF keeps_data_read [where g = "\<lambda>w. sessions (sh_store w)"] body] that assms(2) fence p1 p2 last by simp
  ultimately show ?thesis
    using tgt on perm files fence p1 p2 last by (auto simp: consents_def permits_writing_def)
qed

text \<open>
  C24. What is written is what is read: after a write that returned, a read of the same path under the
  same policy returns the written bytes, in an encoding that decodes to them. The name drawn for the
  temporary file is not the name of the target.
\<close>

theorem share_write_then_read:
  assumes "share_data uid k policy ''write'' params audit w = (Inr res, w')"
    and "dict_get params' ''path'' (JStr ''.'') = dict_get params ''path'' (JStr ''.'')"
    and "relative_parts (dict_get params ''path'' (JStr ''.'')) = Inr rel" and "last rel \<noteq> ''.allox-share-'' @ uid"
  shows "\<exists>enc bs. jget params ''data_base64'' = JStr enc \<and> b64decode enc = Some bs \<and> b64decode (b64encode bs) = Some bs \<and>
    share_data uid' k policy ''read'' params' audit' w' =
      (Inr (JObj [(''data_base64'', JStr (b64encode bs)), (''size'', JInt (int (length bs)))]), w')"
proof -
  obtain scope below where scope: "item policy ''scope'' = Inr scope" "relative_parts scope = Inr below" and rel: "rel \<noteq> []"
    and wr: "access_write uid k (below @ rel) (jget params ''data_base64'') audit w = (Inr res, w')"
    using assms(1,3) unfolding share_data_def by (auto elim!: bind_InrE lift_InrE andthen_InrE require_InrE)
  have parts: "below @ rel = (below @ butlast rel) @ [last rel]" using rel by simp
  obtain enc bs d e where w: "jget params ''data_base64'' = JStr enc" "b64decode enc = Some bs" "int (length bs) \<le> MAX_BYTES"
    and d: "cur_tree w k = Some d"
    and walk: "open_walk (\<lambda>p. sh_inodes w (k, p)) (i_dev (sh_inodes w (k, []))) True [] (DirEntry d) (below @ butlast rel) = Inr (DirEntry e)"
    and inst: "install_file k (below @ butlast rel) (''.allox-share-'' @ uid) (last rel) bs audit w = (Inr (), w')"
    and cur: "\<exists>p. current (fst k) (snd k) = Inr p"
    using wr unfolding parts by (rule access_write_InrE)
  obtain p where "current (fst k) (snd k) = Inr p" using cur by blast
  note opened = write_then_open [OF inst assms(4) d walk this]
  have "access_read k (below @ rel) w' = (Inr (JObj [(''data_base64'', JStr (b64encode bs)), (''size'', JInt (int (length bs)))]), w')"
    unfolding parts access_read_def using opened w(3) by (simp add: bind_def andthen_def gets_def require_def ret_def)
  then have "share_data uid' k policy ''read'' params' audit' w' =
      (Inr (JObj [(''data_base64'', JStr (b64encode bs)), (''size'', JInt (int (length bs)))]), w')"
    using scope assms(2,3) rel by (simp add: share_data_def bind_def lift_res_def andthen_def require_def ret_def)
  then show ?thesis using w b64_roundtrip by blast
qed

text \<open>
  C25. A write stays below the shared directory: after a write that returned, every path of the target
  workspace that is not on the way to the written file has the content it had before, temporary
  files included, and every other Session is untouched.
\<close>

theorem share_write_confined:
  assumes "share_data uid k policy ''write'' params audit w = (Inr res, w')"
    and "item policy ''scope'' = Inr scope" and "relative_parts scope = Inr below"
    and "relative_parts (dict_get params ''path'' (JStr ''.'')) = Inr rel" and "last rel \<noteq> ''.allox-share-'' @ uid"
  shows "\<exists>d d'. cur_tree w k = Some d \<and> cur_tree w' k = Some d' \<and> elsewhere k w' = elsewhere k w \<and>
    (\<forall>q. \<not> is_prefix q (below @ rel) \<longrightarrow> tree_at q (DirEntry d') = tree_at q (DirEntry d))"
proof -
  have rel: "rel \<noteq> []"
    and wr: "access_write uid k (below @ rel) (jget params ''data_base64'') audit w = (Inr res, w')"
    using assms(1-4) unfolding share_data_def by (auto elim!: bind_InrE lift_InrE andthen_InrE require_InrE)
  define ps where "ps = below @ butlast rel"
  define n where "n = last rel"
  define tmp where "tmp = ''.allox-share-'' @ uid"
  have parts: "below @ rel = ps @ [n]" using rel by (simp add: ps_def n_def)
  obtain enc bs d e where d: "cur_tree w k = Some d"
    and walk: "open_walk (\<lambda>p. sh_inodes w (k, p)) (i_dev (sh_inodes w (k, []))) True [] (DirEntry d) ps = Inr (DirEntry e)"
    and old: "case map_of e n of None \<Rightarrow> True | Some old \<Rightarrow> is_regular old" and fresh: "map_of e tmp = None"
    and inst: "install_file k ps tmp n bs audit w = (Inr (), w')"
    using wr unfolding parts tmp_def by (rule access_write_InrE)
  have at: "tree_at ps (DirEntry d) = Some (DirEntry e)" using open_walk_tree_at [OF walk] .
  have "n \<noteq> tmp" using assms(5) by (simp add: n_def tmp_def)
  note res = install_file_result [OF inst d at this]
  have "elsewhere k w' = elsewhere k w" using keepsD [OF keeps_elsewhere_install inst] .
  moreover have "tree_at q (DirEntry (put_at ps tmp None (put_at ps n (Some (RegFile bs))
      (put_at ps tmp (Some (RegFile bs)) (put_at ps tmp (Some (RegFile [])) d))))) = tree_at q (DirEntry d)"
    if "\<not> is_prefix q (ps @ [n])" for q
    using installed_elsewhere [OF at old fresh that] .
  ultimately show ?thesis using d res unfolding parts by blast
qed

section \<open>Two Sessions that share\<close>

definition share_node :: "dirlist \<Rightarrow> sess" where
  "share_node d = \<lparr>entries = [(''current'', Subvol d)], cps = CpsAbsent\<rparr>"

definition open_policy :: jfile where
  "open_policy = JsonFile (JObj [(''enabled'', JBool True), (''scope'', JStr ''pub''), (''permission'', JStr ''write'')])"

definition demo_share :: share where
  "demo_share = \<lparr>
     sh_store = \<lparr>root = ''/s'', root_fstype = Some ''btrfs'', agent_ls = [], agent_shared_dir = (\<lambda>_. True), sess_ls = (\<lambda>_. None),
       sessions = [(''x'', ''y'') \<mapsto> share_node [], (''x'', ''z'') \<mapsto> share_node [(''pub'', DirEntry [(''f'', RegFile ''old'')])]],
       index_files = Map.empty, txn_files = Map.empty, receipt_files = Map.empty, event_logs = (\<lambda>_. []), lock_files = {},
       outside = Map.empty, clock = 0, schedule = []\<rparr>,
     sh_reg = empty_registry,
     sh_policies = [(''x'', ''y'') \<mapsto> open_policy, (''x'', ''z'') \<mapsto> open_policy],
     sh_inodes = (\<lambda>_. \<lparr>i_dev = 1, i_nlink = 1, i_size = 0\<rparr>)\<rparr>"

definition demo_params :: jdict where
  "demo_params = [(''target_agent_id'', JStr ''x''), (''target_session_id'', JStr ''z''), (''path'', JStr ''f''),
     (''data_base64'', JStr ''bmV3'')]"

definition policy_json :: json where
  "policy_json = (case open_policy of JsonFile doc \<Rightarrow> doc | _ \<Rightarrow> JNull)"

lemma demo_dispatch: "(case share_dispatch ''u'' (''x'', ''y'') ''write'' demo_params demo_share of
    (Inr res, w) \<Rightarrow> res = JObj [(''written'', JInt 3)] | _ \<Rightarrow> False)"
  by code_simp

lemma demo_write: "(case share_data ''u'' (''x'', ''z'') policy_json ''write'' demo_params [] demo_share of
    (Inr res, w) \<Rightarrow> res = JObj [(''written'', JInt 3)] | _ \<Rightarrow> False)"
  by code_simp

lemma demo_paths:
  "relative_parts (dict_get demo_params ''path'' (JStr ''.'')) = Inr [''f'']" "item policy_json ''scope'' = Inr (JStr ''pub'')"
  "relative_parts (JStr ''pub'') = Inr [''pub'']"
  by code_simp+

theorem share_needs_consent_witness:
  "\<exists>res w. share_dispatch ''u'' (''x'', ''y'') ''write'' demo_params demo_share = (Inr res, w) \<and>
     consents demo_share (''x'', ''y'') \<and> same_fence (sh_reg demo_share) (sh_reg w)"
proof -
  obtain res w where run: "share_dispatch ''u'' (''x'', ''y'') ''write'' demo_params demo_share = (Inr res, w)"
    using demo_dispatch by (auto split: prod.splits sum.splits)
  from share_needs_consent [OF run] run show ?thesis by auto
qed

theorem share_write_then_read_witness:
  "\<exists>res w. share_data ''u'' (''x'', ''z'') policy_json ''write'' demo_params [] demo_share = (Inr res, w) \<and>
     share_data ''v'' (''x'', ''z'') policy_json ''read'' demo_params [] w =
       (Inr (JObj [(''data_base64'', JStr (b64encode ''new'')), (''size'', JInt 3)]), w)"
proof -
  obtain res w where run: "share_data ''u'' (''x'', ''z'') policy_json ''write'' demo_params [] demo_share = (Inr res, w)"
    using demo_write by (auto split: prod.splits sum.splits)
  have "last [''f''] \<noteq> ''.allox-share-'' @ ''u''" by simp
  from share_write_then_read [OF run refl demo_paths(1) this, of "''v''" "[]"]
  obtain enc bs where "jget demo_params ''data_base64'' = JStr enc" "b64decode enc = Some bs"
    and rd: "share_data ''v'' (''x'', ''z'') policy_json ''read'' demo_params [] w =
      (Inr (JObj [(''data_base64'', JStr (b64encode bs)), (''size'', JInt (int (length bs)))]), w)" by blast
  moreover have "jget demo_params ''data_base64'' = JStr ''bmV3''" "b64decode ''bmV3'' = Some ''new''" by code_simp+
  ultimately have "bs = ''new''" by simp
  then show ?thesis using run rd by simp
qed

theorem share_write_confined_witness:
  "\<exists>res w d d'. share_data ''u'' (''x'', ''z'') policy_json ''write'' demo_params [] demo_share = (Inr res, w) \<and>
     cur_tree demo_share (''x'', ''z'') = Some d \<and> cur_tree w (''x'', ''z'') = Some d' \<and>
     tree_at [''pub'', ''g''] (DirEntry d') = tree_at [''pub'', ''g''] (DirEntry d)"
proof -
  obtain res w where run: "share_data ''u'' (''x'', ''z'') policy_json ''write'' demo_params [] demo_share = (Inr res, w)"
    using demo_write by (auto split: prod.splits sum.splits)
  have "last [''f''] \<noteq> ''.allox-share-'' @ ''u''" "\<not> is_prefix [''pub'', ''g''] ([''pub''] @ [''f''])" by (simp_all add: is_prefix_def)
  with share_write_confined [OF run demo_paths(2,3,1) this(1)] run show ?thesis by blast
qed

end
