(* ===== verification/Session_Network.thy ===== *)
theory Session_Network
  imports Session_Share
begin

text \<open>
  The session network plugin of \<^verbatim>\<open>src/plugins/session-network/src/allox_session_network\<close>:
  the manager of the per-Session network namespaces and the egress broker
  (\<^verbatim>\<open>networking.py\<close>), and the feature adapter (\<^verbatim>\<open>plugin.py\<close>). Processes, sockets,
  name resolution, the digest and the JSON parser are a host given as a parameter; the configuration
  file and the clock are part of the world.
\<close>

section \<open>Modes\<close>

definition NETWORK_MODES :: "string list" where
  "NETWORK_MODES = [''inherit'', ''isolated'', ''proxy'']"

definition PROXY_PORT :: int where
  "PROXY_PORT = 3128"

definition MAX_CONTROL :: int where
  "MAX_CONTROL = 4096"

definition MAX_HEADER :: int where
  "MAX_HEADER = 64 * 1024"

definition bad_mode :: error where
  "bad_mode = WorkspaceError ''network mode must be inherit, isolated, or proxy''"

definition validate_network_mode :: "json \<Rightarrow> string res" where
  "validate_network_mode v = (case v of
      JStr t \<Rightarrow> let m = map to_lower (strip t) in if m \<in> set NETWORK_MODES then Inr m else Inl bad_mode
    | _ \<Rightarrow> Inl bad_mode)"

section \<open>Manager\<close>

record network_launch =
  nl_mode :: string
  nl_argv_prefix :: "string list"
  nl_environment :: "(string \<times> string) list"
  nl_namespace_pid :: "int option"
  nl_broker_socket :: "string option"

record netrun =
  nr_mode :: string
  nr_process :: int
  nr_broker :: "string option"
  nr_log :: string

record netman =
  nm_root :: string
  nm_socket_root :: string
  nm_default :: string
  nm_python :: string
  nm_unshare :: string
  nm_nsenter :: string
  nm_runtime :: "(skey, netrun) dict"
  nm_config :: "(string, string) dict"

record 'e nworld =
  nw_ext :: 'e
  nw_now :: rat
  nw_file :: "jfile option"

text \<open>
  The host. \<open>nh_digest\<close> is the text of the truncated digest of a Session, \<open>nh_lag\<close> the time that
  passes between two looks at the clock.
\<close>

record 'e nhost =
  nh_which :: "string \<Rightarrow> 'e \<Rightarrow> bool"
  nh_digest :: "skey \<Rightarrow> string"
  nh_lag :: "'e \<Rightarrow> rat"
  nh_mkdir :: "string \<Rightarrow> ('e, unit) op"
  nh_write :: "string \<Rightarrow> json \<Rightarrow> ('e, unit) op"
  nh_rename :: "('e, unit) op"
  nh_unlink :: "string \<Rightarrow> ('e, unit) op"
  nh_broker_open :: "string \<Rightarrow> string \<Rightarrow> ('e, unit) op"
  nh_broker_close :: "string \<Rightarrow> ('e, unit) op"
  nh_open_log :: "string \<Rightarrow> ('e, unit) op"
  nh_read_log :: "string \<Rightarrow> ('e, string) op"
  nh_close_log :: "string \<Rightarrow> ('e, unit) op"
  nh_popen :: "string list \<Rightarrow> ('e, int) op"
  nh_poll :: "int \<Rightarrow> ('e, int option) op"
  nh_terminate :: "int \<Rightarrow> ('e, unit) op"
  nh_kill :: "int \<Rightarrow> ('e, unit) op"
  nh_wait :: "int \<Rightarrow> rat \<Rightarrow> ('e, unit) op"
  nh_select :: "int \<Rightarrow> rat \<Rightarrow> ('e, bool) op"
  nh_readline :: "int \<Rightarrow> ('e, string) op"
  nh_close_stdout :: "int \<Rightarrow> ('e, unit) op"
  nh_loads :: "string \<Rightarrow> json res"

type_synonym ('e, 'a) nop = "(netman \<times> 'e nworld, 'a) op"

definition n_ext :: "('e, 'a) op \<Rightarrow> ('e nworld, 'a) op" where
  "n_ext m = (\<lambda>w. case m (nw_ext w) of (r, e) \<Rightarrow> (r, w\<lparr>nw_ext := e\<rparr>))"

abbreviation n_host :: "('e, 'a) op \<Rightarrow> ('e, 'a) nop" where
  "n_host m \<equiv> on_world (n_ext m)"

definition world_is :: "('e \<Rightarrow> 'a) \<Rightarrow> ('e, 'a) nop" where
  "world_is f = gets (\<lambda>(_, w). f (nw_ext w))"

definition bad_configuration :: error where
  "bad_configuration = WorkspaceError ''invalid Session network configuration''"

definition load_configuration :: "jfile option \<Rightarrow> (string, string) dict res" where
  "load_configuration f = (case f of
      None \<Rightarrow> Inr []
    | Some (JsonFile (JObj d)) \<Rightarrow> mapR (\<lambda>(k, v). bindR (validate_network_mode v) (\<lambda>m. Inr (k, m))) d
    | _ \<Rightarrow> Inl bad_configuration)"

definition netman_init :: "'e nhost \<Rightarrow> string \<Rightarrow> string \<Rightarrow> json \<Rightarrow> string \<Rightarrow> string \<Rightarrow> string \<Rightarrow> ('e nworld, netman) op" where
  "netman_init H base socket_root mode python unshare nsenter =
     andthen (n_ext (nh_mkdir H base))
     (andthen (n_ext (nh_mkdir H socket_root))
     (bind (lift_res (validate_network_mode mode)) (\<lambda>m.
      bind (gets nw_file) (\<lambda>f.
      bind (lift_res (load_configuration f)) (\<lambda>c.
      ret \<lparr>nm_root = base, nm_socket_root = socket_root, nm_default = m, nm_python = python, nm_unshare = unshare,
           nm_nsenter = nsenter, nm_runtime = [], nm_config = c\<rparr>)))))"

definition net_key :: "string \<Rightarrow> string \<Rightarrow> skey res" where
  "net_key a s = bindR (validate_id ''agent'' a) (\<lambda>a. bindR (validate_id ''session'' s) (\<lambda>s. Inr (a, s)))"

definition storage_key :: "skey \<Rightarrow> string" where
  "storage_key k = fst k @ ''/'' @ snd k"

definition mode_of :: "netman \<Rightarrow> skey \<Rightarrow> string" where
  "mode_of n k = dict_get (nm_config n) (storage_key k) (nm_default n)"

definition net_mode :: "string \<Rightarrow> string \<Rightarrow> ('e, string) nop" where
  "net_mode a s = bind (lift_res (net_key a s)) (\<lambda>k. own (\<lambda>n. mode_of n k))"

definition proxy_url :: string where
  "proxy_url = ''http://127.0.0.1:'' @ int_str PROXY_PORT"

definition net_status :: "'e nhost \<Rightarrow> string \<Rightarrow> string \<Rightarrow> ('e, json) nop" where
  "net_status H a s =
     bind (lift_res (net_key a s)) (\<lambda>k.
     bind (own (\<lambda>n. map_of (nm_runtime n) k)) (\<lambda>rt.
     bind (case rt of None \<Rightarrow> ret False
       | Some r \<Rightarrow> bind (n_host (nh_poll H (nr_process r))) (\<lambda>st. ret (st = None))) (\<lambda>alive.
     bind (own (\<lambda>n. mode_of n k)) (\<lambda>m.
     ret (JObj [(''agent_id'', JStr (fst k)), (''session_id'', JStr (snd k)), (''mode'', JStr m), (''active'', JBool alive),
       (''namespace_pid'', (case rt of Some r \<Rightarrow> if alive then JInt (nr_process r) else JNull | None \<Rightarrow> JNull)),
       (''proxy_url'', (case rt of Some r \<Rightarrow> if alive \<and> nr_mode r = ''proxy'' then JStr proxy_url else JNull | None \<Rightarrow> JNull))])))))"

definition is_timeout :: "error \<Rightarrow> bool" where
  "is_timeout e = (e = TimeoutExpired)"

definition stop_process :: "'e nhost \<Rightarrow> int \<Rightarrow> rat \<Rightarrow> ('e, unit) nop" where
  "stop_process H pid t =
     andthen (n_host (nh_terminate H pid))
     (catch is_timeout (n_host (nh_wait H pid t))
       (\<lambda>_. andthen (n_host (nh_kill H pid)) (n_host (nh_wait H pid t))))"

definition stop_locked :: "'e nhost \<Rightarrow> skey \<Rightarrow> ('e, unit) nop" where
  "stop_locked H k =
     bind (own (\<lambda>n. map_of (nm_runtime n) k)) (\<lambda>rt. case rt of
       None \<Rightarrow> ret ()
     | Some r \<Rightarrow>
         andthen (own_modify (\<lambda>n. n\<lparr>nm_runtime := dict_del k (nm_runtime n)\<rparr>))
         (bind (n_host (nh_poll H (nr_process r))) (\<lambda>st.
          andthen (whenM (st = None) (stop_process H (nr_process r) 3))
          (andthen (case nr_broker r of None \<Rightarrow> ret () | Some p \<Rightarrow> n_host (nh_broker_close H p))
          (andthen (n_host (nh_close_stdout H (nr_process r)))
          (n_host (nh_close_log H (nr_log r))))))))"

definition write_configuration :: "'e nhost \<Rightarrow> ('e, unit) nop" where
  "write_configuration H =
     bind (own (\<lambda>n. JObj (map (\<lambda>(k, m). (k, JStr m)) (nm_config n)))) (\<lambda>doc.
     bind (own nm_root) (\<lambda>r.
     andthen (n_host (nh_write H (r @ ''/sessions.json.tmp'') doc))
     (andthen (n_host (nh_rename H))
     (on_world (modify (\<lambda>w. w\<lparr>nw_file := Some (JsonFile doc)\<rparr>))))))"

definition net_configure :: "'e nhost \<Rightarrow> string \<Rightarrow> string \<Rightarrow> json \<Rightarrow> ('e, json) nop" where
  "net_configure H a s mode =
     bind (lift_res (net_key a s)) (\<lambda>k.
     bind (lift_res (validate_network_mode mode)) (\<lambda>m.
     bind (own (\<lambda>n. mode_of n k)) (\<lambda>cur.
     if cur = m then net_status H a s
     else andthen (stop_locked H k)
       (andthen (own_modify (\<lambda>n. n\<lparr>nm_config := (if m = nm_default n then dict_del (storage_key k) (nm_config n)
            else dict_set (storage_key k) m (nm_config n))\<rparr>))
       (andthen (write_configuration H) (net_status H a s))))))"

section \<open>Starting a namespace\<close>

text \<open>
  \<open>_readline_with_timeout\<close>: one turn of its loop, in which the timeout of \<open>select\<close> is computed from a
  second look at the clock; \<open>None\<close> where the loop goes on.
\<close>

definition line_probe :: "'e nhost \<Rightarrow> int \<Rightarrow> rat \<Rightarrow> ('e nworld, string option) op" where
  "line_probe H pid deadline =
     bind (gets (\<lambda>w. nw_now w + \<bar>nh_lag H (nw_ext w)\<bar>)) (\<lambda>t.
     let d = min (1/10) (deadline - t) in
     andthen (require (0 \<le> d) (ValueError ''timeout must be non-negative''))
     (bind (n_ext (nh_select H pid d)) (\<lambda>readable.
      if readable
      then bind (n_ext (nh_readline H pid)) (\<lambda>line.
        andthen (require (line \<noteq> []) (WorkspaceError ''Session network helper failed to start'')) (ret (Some line)))
      else andthen (modify (\<lambda>w. w\<lparr>nw_now := t + d\<rparr>))
        (bind (n_ext (nh_poll H pid)) (\<lambda>st.
         andthen (require (st = None) (WorkspaceError ''Session network helper failed to start'')) (ret None))))))"

function (sequential) await_line :: "'e nhost \<Rightarrow> int \<Rightarrow> rat \<Rightarrow> ('e nworld, string) op" where
  "await_line H pid deadline w =
     (if nw_now w < deadline
      then (case line_probe H pid deadline w of
          (Inl e, w1) \<Rightarrow> (Inl e, w1)
        | (Inr (Some line), w1) \<Rightarrow> (Inr line, w1)
        | (Inr None, w1) \<Rightarrow> await_line H pid deadline w1)
      else (Inl (WorkspaceError ''Session network helper failed to start''), w))"
  by pat_completeness auto

lemma n_ext_now: "n_ext m w = (r, w') \<Longrightarrow> nw_now w' = nw_now w"
  by (auto simp: n_ext_def split: prod.splits)

lemma rounds_advance:
  assumes "t < deadline" and "t \<le> u" and "v = u + min (1/10) (deadline - u)"
  shows "rounds (1/10) deadline v < rounds (1/10) deadline t"
proof (cases "1/10 \<le> deadline - u")
  case True
  then show ?thesis using assms by (intro rounds_decrease) simp_all
next
  case False
  then have "v = deadline" using assms(3) by simp
  then show ?thesis using assms(1) by (simp add: rounds_def)
qed

lemma line_probe_advance:
  assumes "line_probe H pid deadline w = (Inr None, w')" and "nw_now w < deadline"
  shows "rounds (1/10) deadline (nw_now w') < rounds (1/10) deadline (nw_now w)"
proof -
  let ?t = "nw_now w + \<bar>nh_lag H (nw_ext w)\<bar>"
  have "nw_now w' = ?t + min (1/10) (deadline - ?t)"
    using assms(1) unfolding line_probe_def Let_def
    by (auto simp: modify_def dest!: n_ext_now split: if_split_asm elim!: run_elims)
  then show ?thesis using assms(2) by (intro rounds_advance [where u = ?t]) simp_all
qed

termination await_line
  by (relation "measure (\<lambda>(H, pid, deadline, w). rounds (1/10) deadline (nw_now w))") (auto intro: line_probe_advance)

declare await_line.simps [simp del]

definition readline_with_timeout :: "'e nhost \<Rightarrow> int \<Rightarrow> rat \<Rightarrow> ('e nworld, string) op" where
  "readline_with_timeout H pid timeout = bind (gets nw_now) (\<lambda>t. await_line H pid (t + timeout))"

definition helper_command :: "netman \<Rightarrow> string \<Rightarrow> string option \<Rightarrow> string list" where
  "helper_command n mode broker =
     [nm_unshare n, ''--net'', ''--'', nm_python n, ''-m'', ''allox_session_network.networking'', ''_namespace_helper'', ''--mode'', mode] @
     (case broker of None \<Rightarrow> [] | Some p \<Rightarrow> [''--broker-socket'', p, ''--proxy-port'', int_str PROXY_PORT])"

text \<open>The handler of a failed start: stop the helper, close the log and the broker, quote the log.\<close>

definition start_failed :: "'e nhost \<Rightarrow> int \<Rightarrow> string option \<Rightarrow> string \<Rightarrow> error \<Rightarrow> ('e, 'a) nop" where
  "start_failed H pid broker logfile e =
     andthen (stop_process H pid 2)
     (andthen (n_host (nh_close_log H logfile))
     (andthen (case broker of None \<Rightarrow> ret () | Some p \<Rightarrow> n_host (nh_broker_close H p))
     (bind (catch is_OSError (bind (n_host (nh_read_log H logfile)) (\<lambda>t. ret (strip t))) (\<lambda>_. ret [])) (\<lambda>detail.
      raise (if detail \<noteq> [] then WorkspaceError (''Session network helper failed: '' @ drop (length detail - 500) detail) else e)))))"

definition open_broker :: "'e nhost \<Rightarrow> string \<Rightarrow> string \<Rightarrow> string \<Rightarrow> ('e, string option) nop" where
  "open_broker H mode socket directory =
     (if mode \<noteq> ''proxy'' then ret None
      else andthen (require (length socket < 108)
          (WorkspaceError ''network socket root is too long; use a short tmpfs path such as /dev/shm''))
        (andthen (catch (\<lambda>e. case e of FileNotFoundError _ \<Rightarrow> True | _ \<Rightarrow> False) (n_host (nh_unlink H socket)) (\<lambda>_. ret ()))
        (andthen (n_host (nh_broker_open H socket (directory @ ''/egress.jsonl'')))
        (ret (Some socket)))))"

definition helper_ready :: "'e nhost \<Rightarrow> int \<Rightarrow> ('e, unit) nop" where
  "helper_ready H pid =
     bind (on_world (readline_with_timeout H pid 10)) (\<lambda>line.
     bind (lift_res (nh_loads H line)) (\<lambda>doc.
     bind (lift_res (case doc of JObj d \<Rightarrow> Inr (jget d ''ready'') | _ \<Rightarrow> Inl AttributeError)) (\<lambda>v.
     require (v = JBool True) (WorkspaceError ''Session network helper did not become ready''))))"

definition start_locked :: "'e nhost \<Rightarrow> skey \<Rightarrow> string \<Rightarrow> ('e, netrun) nop" where
  "start_locked H k mode =
     bind (own id) (\<lambda>n.
     andthen (forM [nm_unshare n, nm_nsenter n] (\<lambda>c.
        bind (world_is (nh_which H c)) (\<lambda>there.
        require there (WorkspaceError (''Session network isolation requires '' @ c)))))
     (let directory = nm_root n @ ''/'' @ nh_digest H k; socket_directory = nm_socket_root n @ ''/'' @ nh_digest H k;
          logfile = directory @ ''/namespace.log'' in
      andthen (n_host (nh_mkdir H directory))
      (andthen (n_host (nh_write H (directory @ ''/session.json'')
          (JObj [(''agent_id'', JStr (fst k)), (''session_id'', JStr (snd k)), (''mode'', JStr mode)])))
      (andthen (n_host (nh_mkdir H socket_directory))
      (bind (open_broker H mode (socket_directory @ ''/broker.sock'') directory) (\<lambda>broker.
       andthen (n_host (nh_open_log H logfile))
       (bind (n_host (nh_popen H (helper_command n mode broker))) (\<lambda>pid.
        andthen (catch (\<lambda>_. True) (helper_ready H pid) (start_failed H pid broker logfile))
        (let r = \<lparr>nr_mode = mode, nr_process = pid, nr_broker = broker, nr_log = logfile\<rparr> in
         andthen (own_modify (\<lambda>n. n\<lparr>nm_runtime := dict_set k r (nm_runtime n)\<rparr>)) (ret r))))))))))"

definition proxy_environment :: "(string \<times> string) list" where
  "proxy_environment = [(''HTTP_PROXY'', proxy_url), (''HTTPS_PROXY'', proxy_url), (''http_proxy'', proxy_url), (''https_proxy'', proxy_url),
     (''NO_PROXY'', ''127.0.0.1,localhost,::1''), (''no_proxy'', ''127.0.0.1,localhost,::1'')]"

definition net_prepare :: "'e nhost \<Rightarrow> string \<Rightarrow> string \<Rightarrow> ('e, network_launch) nop" where
  "net_prepare H a s =
     bind (lift_res (net_key a s)) (\<lambda>k.
     bind (own (\<lambda>n. mode_of n k)) (\<lambda>mode.
     if mode = ''inherit''
     then ret \<lparr>nl_mode = mode, nl_argv_prefix = [], nl_environment = [], nl_namespace_pid = None, nl_broker_socket = None\<rparr>
     else bind (own (\<lambda>n. map_of (nm_runtime n) k)) (\<lambda>known.
       bind (case known of None \<Rightarrow> ret None
         | Some r \<Rightarrow> bind (n_host (nh_poll H (nr_process r))) (\<lambda>st. ret (if st = None then Some r else None))) (\<lambda>live.
       bind (case live of Some r \<Rightarrow> ret r
         | None \<Rightarrow> andthen (whenM (known \<noteq> None) (stop_locked H k)) (start_locked H k mode)) (\<lambda>r.
       bind (own nm_nsenter) (\<lambda>nsenter.
       ret \<lparr>nl_mode = mode, nl_argv_prefix = [nsenter, ''--target'', int_str (nr_process r), ''--net'', ''--''],
            nl_environment = (if mode = ''proxy'' then proxy_environment else []),
            nl_namespace_pid = Some (nr_process r), nl_broker_socket = nr_broker r\<rparr>))))))"

definition net_close :: "'e nhost \<Rightarrow> ('e, unit) nop" where
  "net_close H = bind (own (\<lambda>n. dict_keys (nm_runtime n))) (\<lambda>ks. forM ks (stop_locked H))"

section \<open>Control frames\<close>

text \<open>\<open>marker in data\<close> and \<open>data.index(marker)\<close>.\<close>

fun contains :: "string \<Rightarrow> string \<Rightarrow> bool" where
  "contains m [] = (m = [])"
| "contains m (c # s) = (startswith (c # s) m \<or> contains m s)"

fun index_of :: "string \<Rightarrow> string \<Rightarrow> nat" where
  "index_of m [] = 0"
| "index_of m (c # s) = (if startswith (c # s) m then 0 else Suc (index_of m s))"

text \<open>
  The loop of \<open>_receive_until\<close>, one byte at a time; the stream is the list of the bytes still to come,
  empty where the peer has closed.
\<close>

fun receive_loop :: "string \<Rightarrow> int \<Rightarrow> string \<Rightarrow> string \<Rightarrow> (string \<times> string) res" where
  "receive_loop m limit data [] = (if contains m data then Inr (data, []) else Inl (OSError ''unexpected end of stream''))"
| "receive_loop m limit data (c # s) =
     (if contains m data then Inr (data, c # s)
      else if limit \<le> int (length (data @ [c])) \<and> \<not> contains m (data @ [c]) then Inl (ValueError ''request header too large'')
      else receive_loop m limit (data @ [c]) s)"

definition receive_until :: "string \<Rightarrow> int \<Rightarrow> string \<Rightarrow> (string \<times> string) res" where
  "receive_until m limit s =
     bindR (receive_loop m limit [] s) (\<lambda>(data, rest).
     let position = index_of m data + length m in
     if position \<noteq> length data then Inl (ValueError ''control request has trailing bytes'')
     else Inr (take position data, rest))"

text \<open>
  \<open>_receive_header\<close> reads in pieces: \<open>recv\<close> returns at most the requested number of bytes of the next
  segment that has arrived.
\<close>

definition header_end :: string where
  "header_end = [CHR 0x0D, CHR 0x0A, CHR 0x0D, CHR 0x0A]"

function (sequential) receive_header_loop :: "string \<Rightarrow> string list \<Rightarrow> string res" where
  "receive_header_loop data segs =
     (if contains header_end data then Inr data
      else (case segs of
          [] \<Rightarrow> Inl (OSError ''unexpected end of HTTP headers'')
        | seg # rest \<Rightarrow>
            let n = nat (min 4096 (MAX_HEADER - int (length data))); data' = data @ take n seg in
            if take n seg = [] then Inl (OSError ''unexpected end of HTTP headers'')
            else if MAX_HEADER \<le> int (length data') \<and> \<not> contains header_end data' then Inl (ValueError ''HTTP header too large'')
            else receive_header_loop data' (if drop n seg = [] then rest else drop n seg # rest)))"
  by pat_completeness auto

termination receive_header_loop
  by (relation "measure (\<lambda>(data, segs). sum_list (map (\<lambda>s. Suc (length s)) segs))")
    (auto simp: min_def split: if_splits)

declare receive_header_loop.simps [simp del]

definition receive_header :: "string list \<Rightarrow> string res" where
  "receive_header segs = receive_header_loop [] segs"

section \<open>Egress broker\<close>

text \<open>
  The broker's part of the world: addresses and connections belong to the host, the audit file and
  the bytes sent to the client are kept here. \<open>bk_clock\<close> is the wall clock.
\<close>

record 'e broker =
  bk_ext :: 'e
  bk_audit :: "jdict list"
  bk_sent :: string

record ('e, 'a) bhost =
  bh_resolve :: "string \<Rightarrow> int \<Rightarrow> ('e, 'a list) op"
  bh_connect :: "'a \<Rightarrow> ('e, int) op"
  bh_time_ns :: "'e \<Rightarrow> int"
  bh_append :: "('e, unit) op"
  bh_send :: "string \<Rightarrow> ('e, unit) op"
  bh_loads :: "string \<Rightarrow> json res"

type_synonym ('e, 'x) bop = "('e broker, 'x) op"

definition b_ext :: "('e, 'x) op \<Rightarrow> ('e, 'x) bop" where
  "b_ext m = (\<lambda>w. case m (bk_ext w) of (r, e) \<Rightarrow> (r, w\<lparr>bk_ext := e\<rparr>))"

text \<open>The addresses are tried in order; the last error is raised when none accepts.\<close>

fun connect_first :: "('e, 'a) bhost \<Rightarrow> error option \<Rightarrow> 'a list \<Rightarrow> ('e, int) bop" where
  "connect_first H last_error [] = raise (case last_error of Some e \<Rightarrow> e | None \<Rightarrow> OSError ''destination has no usable address'')"
| "connect_first H last_error (x # xs) =
     bind (catch is_OSError (bind (b_ext (bh_connect H x)) (\<lambda>c. ret (Inr c))) (\<lambda>e. ret (Inl e))) (\<lambda>r. case r of
        Inr c \<Rightarrow> ret c
      | Inl e \<Rightarrow> connect_first H (Some e) xs)"

definition destination :: "('e, 'a) bhost \<Rightarrow> json \<Rightarrow> json \<Rightarrow> ('e, int) bop" where
  "destination H host port = (case host of
      JStr h \<Rightarrow>
        andthen (require (h \<noteq> [] \<and> length h \<le> 253) (ValueError ''invalid host''))
        (case port of
           JInt p \<Rightarrow>
             andthen (require (1 \<le> p \<and> p \<le> 65535) (ValueError ''invalid port''))
             (bind (b_ext (bh_resolve H h p)) (connect_first H None))
         | _ \<Rightarrow> raise (ValueError ''invalid port''))
    | _ \<Rightarrow> raise (ValueError ''invalid host''))"

definition audit_row :: "int \<Rightarrow> json \<Rightarrow> json \<Rightarrow> bool \<Rightarrow> string \<Rightarrow> jdict" where
  "audit_row t host port allowed err = [(''timestamp_ns'', JInt t), (''host'', host), (''port'', port), (''allowed'', JBool allowed)] @
     (if err \<noteq> [] then [(''error'', JStr err)] else [])"

definition broker_audit :: "('e, 'a) bhost \<Rightarrow> json \<Rightarrow> json \<Rightarrow> bool \<Rightarrow> string \<Rightarrow> ('e, unit) bop" where
  "broker_audit H host port allowed err =
     bind (gets (\<lambda>w. bh_time_ns H (bk_ext w))) (\<lambda>t.
     andthen (b_ext (bh_append H))
     (modify (\<lambda>w. w\<lparr>bk_audit := bk_audit w @ [audit_row t host port allowed err]\<rparr>)))"

definition broker_send :: "('e, 'a) bhost \<Rightarrow> string \<Rightarrow> ('e, unit) bop" where
  "broker_send H t = andthen (b_ext (bh_send H t)) (modify (\<lambda>w. w\<lparr>bk_sent := bk_sent w @ t\<rparr>))"

definition allow_line :: string where
  "allow_line = ''{'' @ [CHR 0x22] @ ''ok'' @ [CHR 0x22] @ '':true}'' @ [CHR 0x0A]"

definition deny_line :: string where
  "deny_line = ''{'' @ [CHR 0x22] @ ''ok'' @ [CHR 0x22] @ '':false}'' @ [CHR 0x0A]"

text \<open>
  \<open>_handle\<close> up to the relay: \<open>Some (remote, rest)\<close> is the open tunnel with the bytes of the client
  not yet read, \<open>None\<close> a denial. The names \<open>host\<close> and \<open>port\<close> in the handler are those read so far.
\<close>

definition read_control :: "('e, 'a) bhost \<Rightarrow> string \<Rightarrow> (json \<times> json \<times> string) res" where
  "read_control H input =
     bindR (receive_until [CHR 0x0A] MAX_CONTROL input) (\<lambda>(control, rest).
     bindR (bh_loads H control) (\<lambda>doc. case doc of
        JObj d \<Rightarrow> Inr (jget d ''host'', jget d ''port'', rest)
      | _ \<Rightarrow> Inl AttributeError))"

definition broker_deny :: "('e, 'a) bhost \<Rightarrow> json \<Rightarrow> json \<Rightarrow> error \<Rightarrow> ('e, (int \<times> string) option) bop" where
  "broker_deny H host port e =
     andthen (catch is_OSError (andthen (broker_audit H host port False (exc_class e)) (broker_send H deny_line)) (\<lambda>_. ret ()))
     (ret None)"

definition broker_handle :: "('e, 'a) bhost \<Rightarrow> string \<Rightarrow> ('e, (int \<times> string) option) bop" where
  "broker_handle H input = (case read_control H input of
      Inl e \<Rightarrow> broker_deny H JNull JNull e
    | Inr (host, port, rest) \<Rightarrow>
        catch (\<lambda>_. True)
          (bind (destination H host port) (\<lambda>remote.
           andthen (broker_audit H host port True [])
           (andthen (broker_send H allow_line)
           (ret (Some (remote, rest))))))
          (broker_deny H host port))"

text \<open>
  \<open>_relay\<close>: an event is a side found readable, what \<open>recv\<close> returned there (nothing on end of stream or
  error), and whether the other side accepted it.
\<close>

datatype side = LeftSide | RightSide

record relay =
  rl_left :: bool
  rl_right :: bool
  rl_to_left :: string
  rl_to_right :: string
  rl_over :: bool

definition relay_init :: relay where
  "relay_init = \<lparr>rl_left = True, rl_right = True, rl_to_left = [], rl_to_right = [], rl_over = False\<rparr>"

definition relay_event :: "side \<times> string \<times> bool \<Rightarrow> relay \<Rightarrow> relay" where
  "relay_event ev r = (case ev of
      (LeftSide, chunk, ok) \<Rightarrow>
        if \<not> rl_left r then r
        else if chunk = [] then r\<lparr>rl_left := False\<rparr>
        else if ok then r\<lparr>rl_to_right := rl_to_right r @ chunk\<rparr> else r\<lparr>rl_over := True\<rparr>
    | (RightSide, chunk, ok) \<Rightarrow>
        if \<not> rl_right r then r
        else if chunk = [] then r\<lparr>rl_right := False\<rparr>
        else if ok then r\<lparr>rl_to_left := rl_to_left r @ chunk\<rparr> else r\<lparr>rl_over := True\<rparr>)"

fun relay_run :: "(side \<times> string \<times> bool) list \<Rightarrow> relay \<Rightarrow> relay" where
  "relay_run [] r = r"
| "relay_run (ev # evs) r = (if rl_over r \<or> \<not> (rl_left r \<or> rl_right r) then r else relay_run evs (relay_event ev r))"

section \<open>Feature adapter\<close>

definition net_feature_prepare :: "'e nhost \<Rightarrow> string \<Rightarrow> string \<Rightarrow> string \<Rightarrow> ('e, contribution) nop" where
  "net_feature_prepare H tool a s =
     bind (net_prepare H a s) (\<lambda>l.
     bind (case nl_broker_socket l of
         None \<Rightarrow> ret []
       | Some p \<Rightarrow>
           bind (lift_res (check_mount p ''/run/allox/network.sock'' True)) (\<lambda>m1.
           bind (lift_res (check_mount tool ''/run/allox/network.py'' True)) (\<lambda>m2. ret [m1, m2]))) (\<lambda>mounts.
     ret \<lparr>c_argv_prefix = nl_argv_prefix l,
          c_environment = nl_environment l @
            (if nl_broker_socket l = None then [] else [(''ALLOX_NETWORK_SOCKET'', ''/run/allox/network.sock'')]),
          c_mounts = mounts,
          c_metadata = [(''network_mode'', JStr (nl_mode l)),
            (''network_namespace_pid'', case nl_namespace_pid l of None \<Rightarrow> JNull | Some p \<Rightarrow> JInt p)]\<rparr>))"

text \<open>The paths of the plugin must lie outside the store.\<close>

definition check_network_roots :: "path \<Rightarrow> path list \<Rightarrow> unit res" where
  "check_network_roots store_root candidates =
     checkR (list_all (\<lambda>p. \<not> is_prefix store_root p) candidates)
       (WorkspaceError ''Session network state and sockets must be outside the workspace store'')"

text \<open>
  \<open>dispatch\<close>: the state is the manager and its world beside the store and the registry; configuring
  happens inside \<open>executions.mutation\<close>.
\<close>

definition in_net :: "('e, 'a) nop \<Rightarrow> ((netman \<times> 'e nworld) \<times> share, 'a) op" where
  "in_net m = (\<lambda>(n, w). case m n of (r, n') \<Rightarrow> (r, (n', w)))"

definition net_dispatch :: "'e nhost \<Rightarrow> string \<Rightarrow> jdict \<Rightarrow> ((netman \<times> 'e nworld) \<times> share, json) op" where
  "net_dispatch H action params =
     bind (lift_res (required_param params ''agent_id'')) (\<lambda>a.
     bind (lift_res (required_param params ''session_id'')) (\<lambda>s.
     andthen (on_world (st_op (describe a s)))
     (if action = ''network.status'' then in_net (net_status H a s)
      else if action = ''network.configure'' then
        bind (lift_res (required_param params ''mode'')) (\<lambda>m.
        bind (on_world (rg_op (mutation_enter a s))) (\<lambda>k.
        finally_do (in_net (net_configure H a s (JStr m))) (on_world (rg_op (mutation_exit k)))))
      else raise (WorkspaceError (''unknown action: '' @ action)))))"

section \<open>Control frames are exact\<close>

lemma contains_iff: "contains m s \<longleftrightarrow> (\<exists>p q. s = p @ m @ q)"
proof (induction s)
  case (Cons c s)
  show ?case
  proof
    assume "contains m (c # s)"
    then consider "startswith (c # s) m" | "contains m s" by auto
    then show "\<exists>p q. c # s = p @ m @ q"
    proof cases
      case 1
      then obtain q where "c # s = [] @ m @ q" by (auto simp: startswith_iff)
      then show ?thesis by blast
    next
      case 2
      then obtain p q where "s = p @ m @ q" using Cons.IH by blast
      then have "c # s = (c # p) @ m @ q" by simp
      then show ?thesis by blast
    qed
  next
    assume "\<exists>p q. c # s = p @ m @ q"
    then obtain p q where "c # s = p @ m @ q" by blast
    then have "startswith (c # s) m \<or> contains m s" using Cons.IH unfolding startswith_iff by (cases p) auto
    then show "contains m (c # s)" by simp
  qed
qed simp

lemma contains_mono: "contains m s \<Longrightarrow> contains m (s @ t)"
  unfolding contains_iff by (metis append.assoc)

lemma index_of_first: "contains m s \<Longrightarrow> \<exists>q. s = take (index_of m s) s @ m @ q"
proof (induction s)
  case (Cons c s)
  then show ?case by (cases "startswith (c # s) m") (auto simp: startswith_iff)
qed simp

text \<open>A text that ends with the first occurrence of the marker.\<close>

definition frame :: "string \<Rightarrow> string \<Rightarrow> bool" where
  "frame m s = (contains m s \<and> \<not> contains m (butlast s))"

lemma frame_end:
  assumes "frame m s"
  shows "index_of m s + length m = length s"
proof -
  obtain q where q: "s = take (index_of m s) s @ m @ q" using index_of_first assms by (auto simp: frame_def)
  have "q = []"
  proof (rule ccontr)
    assume "q \<noteq> []"
    then have "butlast s = take (index_of m s) s @ m @ butlast q" using q by (metis append.assoc append_is_Nil_conv butlast_append)
    then show False using assms contains_iff by (metis frame_def)
  qed
  then have "length s = length (take (index_of m s) s @ m)" using q by (metis append_Nil2)
  moreover have "index_of m s \<le> length s" by (induction s) auto
  ultimately show ?thesis by simp
qed

lemma receive_loop_frame:
  assumes "\<not> contains m data" and "int (length data) < limit"
  shows "receive_loop m limit data s = Inr (d, r) \<longleftrightarrow>
    (\<exists>x. d = data @ x \<and> s = x @ r \<and> frame m d \<and> int (length d) \<le> limit)"
  using assms
proof (induction s arbitrary: data)
  case Nil
  then show ?case by (auto simp: frame_def)
next
  case (Cons c s)
  have one: "x = [c]" if fr: "frame m (data @ x)" and eq: "c # s = x @ r" and hit: "contains m (data @ [c])" for x
  proof -
    have "x \<noteq> []" using fr Cons.prems(1) by (auto simp: frame_def)
    then obtain x' where x: "x = c # x'" using eq by (cases x) auto
    have "x' = []"
    proof (rule ccontr)
      assume "x' \<noteq> []"
      then have "butlast (data @ x) = (data @ [c]) @ butlast x'" by (simp add: x butlast_append)
      then show False using fr hit contains_mono by (metis frame_def)
    qed
    then show ?thesis by (simp add: x)
  qed
  consider (hit) "contains m (data @ [c])" | (over) "\<not> contains m (data @ [c])" "limit \<le> int (length (data @ [c]))"
    | (go) "\<not> contains m (data @ [c])" "int (length (data @ [c])) < limit" by linarith
  then show ?case
  proof cases
    case hit
    have "receive_loop m limit data (c # s) = Inr (data @ [c], s)"
      using hit Cons.prems(1) by (cases s) simp_all
    moreover have "frame m (data @ [c])" using hit Cons.prems(1) by (simp add: frame_def)
    moreover have "int (length (data @ [c])) \<le> limit" using Cons.prems(2) by simp
    moreover have "d = data @ [c] \<and> r = s" if ex: "\<exists>x. d = data @ x \<and> c # s = x @ r \<and> frame m d \<and> int (length d) \<le> limit"
    proof -
      obtain x where x: "d = data @ x" "c # s = x @ r" "frame m d" using ex by blast
      have "x = [c]" using one [OF x(3) [unfolded x(1)] x(2) hit] .
      then show ?thesis using x(1,2) by simp
    qed
    ultimately show ?thesis by (metis Inr_inject append_Cons append_Nil prod.inject)
  next
    case over
    have "False" if "frame m (data @ x)" "c # s = x @ r" "int (length (data @ x)) \<le> limit" for x
    proof -
      have "x \<noteq> []" using that(1) Cons.prems(1) by (auto simp: frame_def)
      moreover have "length x \<le> 1" using that(3) over(2) by simp
      ultimately have "x = [c]" using that(2) by (cases x) auto
      then show False using that(1) over(1) by (simp add: frame_def)
    qed
    then have "\<not> (\<exists>x. d = data @ x \<and> c # s = x @ r \<and> frame m d \<and> int (length d) \<le> limit)" by metis
    moreover have "receive_loop m limit data (c # s) = Inl (ValueError ''request header too large'')"
      using over Cons.prems(1) by simp
    ultimately show ?thesis by simp
  next
    case go
    have step: "receive_loop m limit data (c # s) = receive_loop m limit (data @ [c]) s" using go Cons.prems(1) by simp
    have "(\<exists>x. d = data @ x \<and> c # s = x @ r \<and> frame m d \<and> int (length d) \<le> limit) \<longleftrightarrow>
      (\<exists>x. d = (data @ [c]) @ x \<and> s = x @ r \<and> frame m d \<and> int (length d) \<le> limit)"
    proof
      assume "\<exists>x. d = data @ x \<and> c # s = x @ r \<and> frame m d \<and> int (length d) \<le> limit"
      then obtain x where x: "d = data @ x" "c # s = x @ r" "frame m d" "int (length d) \<le> limit" by blast
      have "x \<noteq> []" using x(1,3) Cons.prems(1) by (auto simp: frame_def)
      then show "\<exists>x. d = (data @ [c]) @ x \<and> s = x @ r \<and> frame m d \<and> int (length d) \<le> limit" using x by (cases x) auto
    next
      assume "\<exists>x. d = (data @ [c]) @ x \<and> s = x @ r \<and> frame m d \<and> int (length d) \<le> limit"
      then obtain x where "d = data @ (c # x)" "s = x @ r" "frame m d" "int (length d) \<le> limit" by auto
      then show "\<exists>x. d = data @ x \<and> c # s = x @ r \<and> frame m d \<and> int (length d) \<le> limit" by (intro exI [of _ "c # x"]) simp
    qed
    then show ?thesis using Cons.IH [OF go] step by simp
  qed
qed

section \<open>The invariant of the manager\<close>

lemma load_saved:
  "\<forall>(k, m) \<in> set c. m \<in> set NETWORK_MODES \<Longrightarrow> load_configuration (Some (JsonFile (JObj (map (\<lambda>(k, m). (k, JStr m)) c)))) = Inr c"
proof (induction c)
  case (Cons x c)
  obtain k m where x: "x = (k, m)" by (cases x)
  have "\<forall>m \<in> set NETWORK_MODES. validate_network_mode (JStr m) = Inr m" by code_simp
  then have "validate_network_mode (JStr m) = Inr m" using Cons.prems x by auto
  then show ?case using Cons x by (simp add: load_configuration_def)
qed (simp add: load_configuration_def)

lemma validate_network_mode_Inr: "validate_network_mode v = Inr m \<Longrightarrow> m \<in> set NETWORK_MODES"
  by (auto simp: validate_network_mode_def Let_def split: json.splits if_splits)

lemma storage_key_inj:
  assumes "valid_key k" and "valid_key k'"
  shows "storage_key k = storage_key k' \<longleftrightarrow> k = k'"
proof
  have pre: "takeWhile (\<lambda>c. c \<noteq> CHR ''/'') (storage_key j) = fst j" if "valid_key j" for j
  proof -
    have "CHR ''/'' \<notin> set (fst j)" using that valid_id_chars [of "fst j" "CHR ''/''"] not_id_char(1) by (auto simp: valid_key_def)
    then have "takeWhile (\<lambda>c. c \<noteq> CHR ''/'') (fst j @ ''/'' @ snd j) = fst j"
      by (subst takeWhile_append2) auto
    then show ?thesis by (simp add: storage_key_def)
  qed
  assume eq: "storage_key k = storage_key k'"
  then have "fst k = fst k'" using pre assms by metis
  with eq show "k = k'" by (simp add: storage_key_def prod_eq_iff)
qed simp

text \<open>
  A running helper serves the mode configured for its Session, and the configured modes are modes.
\<close>

definition run_ok :: "netman \<Rightarrow> skey \<Rightarrow> netrun \<Rightarrow> bool" where
  "run_ok n k r = (valid_key k \<and> nr_mode r = mode_of n k \<and> nr_mode r \<noteq> ''inherit'')"

definition net_ok :: "netman \<Rightarrow> bool" where
  "net_ok n = ((\<forall>(k, m) \<in> set (nm_config n). m \<in> set NETWORK_MODES) \<and>
     (\<forall>k r. map_of (nm_runtime n) k = Some r \<longrightarrow> run_ok n k r))"

text \<open>Operations that keep a predicate on the manager, whether they return or raise.\<close>

definition preserves :: "(netman \<Rightarrow> bool) \<Rightarrow> ('e, 'a) nop \<Rightarrow> bool" where
  "preserves P m = (\<forall>st. P (fst st) \<longrightarrow> P (fst (snd (m st))))"

named_theorems preserves_intros \<open>composition rules of operations that keep a predicate on the manager\<close>

lemma preservesI: "(\<And>st r st'. P (fst st) \<Longrightarrow> m st = (r, st') \<Longrightarrow> P (fst st')) \<Longrightarrow> preserves P m"
  unfolding preserves_def by (metis prod.collapse)

lemma preservesD: "preserves P m \<Longrightarrow> P (fst st) \<Longrightarrow> m st = (r, st') \<Longrightarrow> P (fst st')"
  unfolding preserves_def by (metis snd_conv)

lemma preserves_keeps: "keeps fst m \<Longrightarrow> preserves P m"
  by (simp add: preserves_def keeps_def)

lemma keeps_fst [keeps_intros]: "keeps fst (on_world m)" "keeps fst (own f)" "keeps fst (world_is g)"
  by (simp_all add: keeps_def on_world_def own_def world_is_def gets_def split: prod.split)

lemma preserves_pure [preserves_intros]:
  "preserves P (ret x)" "preserves P (raise e)" "preserves P (lift_res r)" "preserves P (require b e)" "preserves P (on_world m)"
  "preserves P (own f)" "preserves P (world_is g)"
  by (intro preserves_keeps keeps_intros)+

lemma preserves_bind [preserves_intros]: "preserves P m \<Longrightarrow> (\<And>x. preserves P (f x)) \<Longrightarrow> preserves P (bind m f)"
  by (rule preservesI) (auto elim!: bind_cases dest: preservesD)

lemma preserves_andthen [preserves_intros]: "preserves P m \<Longrightarrow> preserves P k \<Longrightarrow> preserves P (andthen m k)"
  unfolding andthen_def by (rule preserves_bind)

lemma preserves_catch [preserves_intros]: "preserves P m \<Longrightarrow> (\<And>e. preserves P (h e)) \<Longrightarrow> preserves P (catch sel m h)"
  by (rule preservesI) (auto elim!: catch_cases dest: preservesD)

lemma preserves_whenM [preserves_intros]: "preserves P m \<Longrightarrow> preserves P (whenM b m)"
  by (simp add: whenM_def preserves_pure)

lemma preserves_forM [preserves_intros]: "(\<And>x. preserves P (f x)) \<Longrightarrow> preserves P (forM xs f)"
  by (induction xs) (auto intro: preserves_intros)

lemma preserves_modify [preserves_intros]: "(\<And>n. P n \<Longrightarrow> P (f n)) \<Longrightarrow> preserves P (own_modify f)"
  by (rule preservesI) (auto simp: own_modify_def modify_def)

lemma preserves_option [preserves_intros]:
  "preserves P m \<Longrightarrow> (\<And>x. preserves P (f x)) \<Longrightarrow> preserves P (case v of None \<Rightarrow> m | Some x \<Rightarrow> f x)"
  by (cases v) simp_all

lemma mode_of_runtime [simp]: "mode_of (n\<lparr>nm_runtime := x\<rparr>) = mode_of n"
  by (simp add: mode_of_def fun_eq_iff)

lemma run_ok_runtime [simp]: "run_ok (n\<lparr>nm_runtime := x\<rparr>) = run_ok n"
  by (simp add: run_ok_def fun_eq_iff)

lemma net_okD: "net_ok n \<Longrightarrow> map_of (nm_runtime n) k = Some r \<Longrightarrow> run_ok n k r"
  unfolding net_ok_def by blast

lemma net_ok_modes: "net_ok n \<Longrightarrow> x \<in> set (nm_config n) \<Longrightarrow> snd x \<in> set NETWORK_MODES"
  by (auto simp: net_ok_def)

lemma net_ok_remove: "net_ok n \<Longrightarrow> net_ok (n\<lparr>nm_runtime := dict_del k (nm_runtime n)\<rparr>)"
  unfolding net_ok_def by simp

lemma preserves_stop:
  assumes "\<And>n. P n \<Longrightarrow> P (n\<lparr>nm_runtime := dict_del k (nm_runtime n)\<rparr>)"
  shows "preserves P (stop_locked H k)"
  unfolding stop_locked_def stop_process_def by (intro preserves_intros assms)

lemma preserves_start:
  assumes "\<And>n r. P n \<Longrightarrow> nr_mode r = mode \<Longrightarrow> P (n\<lparr>nm_runtime := dict_set k r (nm_runtime n)\<rparr>)"
  shows "preserves P (start_locked H k mode)"
  unfolding start_locked_def open_broker_def helper_ready_def start_failed_def stop_process_def Let_def if_distrib
  by (intro preserves_intros assms) (auto intro!: preserves_intros assms)

lemma preserves_status [preserves_intros]: "preserves P (net_status H a s)"
  unfolding net_status_def by (intro preserves_intros)

lemma net_close_ok: "preserves net_ok (net_close H)"
  unfolding net_close_def by (intro preserves_intros preserves_stop net_ok_remove)

lemma preserves_write [preserves_intros]: "preserves P (write_configuration H)"
  unfolding write_configuration_def by (intro preserves_intros)

lemma net_configure_cases:
  assumes "net_configure H a s mode (n, w) = (r, (n', w'))"
  obtains "n' = n" "w' = w" "\<exists>e. r = Inl e"
  | m where "net_key a s = Inr (a, s)" "validate_network_mode mode = Inr m" "mode_of n (a, s) = m" "net_status H a s (n, w) = (r, (n', w'))"
  | m where "net_key a s = Inr (a, s)" "validate_network_mode mode = Inr m" "mode_of n (a, s) \<noteq> m"
    "andthen (stop_locked H (a, s))
       (andthen (own_modify (\<lambda>n. n\<lparr>nm_config := (if m = nm_default n then dict_del (storage_key (a, s)) (nm_config n)
            else dict_set (storage_key (a, s)) m (nm_config n))\<rparr>))
       (andthen (write_configuration H) (net_status H a s))) (n, w) = (r, (n', w'))"
  using assms unfolding net_configure_def
  by (cases "net_key a s"; cases "validate_network_mode mode")
    (auto simp: lift_res_def bind_def own_def gets_def net_key_def bindR_eq_Inr split: if_split_asm)

text \<open>Whatever stopping does, the helper is forgotten first.\<close>

lemma stop_locked_effect:
  assumes "stop_locked H k (n, w) = (r, (n', w'))"
  shows "map_of (nm_runtime n') k = None \<and> nm_config n' = nm_config n \<and> nm_default n' = nm_default n \<and>
    (\<forall>k'. k' \<noteq> k \<longrightarrow> map_of (nm_runtime n') k' = map_of (nm_runtime n) k')"
proof (cases "map_of (nm_runtime n) k")
  case None
  then show ?thesis using assms by (simp add: stop_locked_def bind_def own_def gets_def ret_def)
next
  case (Some x)
  let ?Q = "\<lambda>n'. map_of (nm_runtime n') k = None \<and> nm_config n' = nm_config n \<and> nm_default n' = nm_default n \<and>
    (\<forall>k'. k' \<noteq> k \<longrightarrow> map_of (nm_runtime n') k' = map_of (nm_runtime n) k')"
  let ?n1 = "n\<lparr>nm_runtime := dict_del k (nm_runtime n)\<rparr>"
  have run: "bind (n_host (nh_poll H (nr_process x))) (\<lambda>st.
          andthen (whenM (st = None) (stop_process H (nr_process x) 3))
          (andthen (case nr_broker x of None \<Rightarrow> ret () | Some p \<Rightarrow> n_host (nh_broker_close H p))
          (andthen (n_host (nh_close_stdout H (nr_process x)))
          (n_host (nh_close_log H (nr_log x)))))) (?n1, w) = (r, (n', w'))"
    using assms Some by (simp add: stop_locked_def bind_def andthen_def own_def own_modify_def modify_def gets_def)
  have "preserves ?Q (bind (n_host (nh_poll H (nr_process x))) (\<lambda>st.
          andthen (whenM (st = None) (stop_process H (nr_process x) 3))
          (andthen (case nr_broker x of None \<Rightarrow> ret () | Some p \<Rightarrow> n_host (nh_broker_close H p))
          (andthen (n_host (nh_close_stdout H (nr_process x)))
          (n_host (nh_close_log H (nr_log x)))))))"
    unfolding stop_process_def by (intro preserves_intros)
  from preservesD [OF this _ run] show ?thesis by simp
qed

lemma dict_set_subset: "set (dict_set k v d) \<subseteq> insert (k, v) (set d)"
  by (induction d) auto

lemma dict_del_subset: "set (dict_del k d) \<subseteq> set d"
  by (auto simp: AList.delete_eq)

lemma net_ok_reconfigure:
  assumes "net_ok n" and "valid_key k" and "map_of (nm_runtime n) k = None" and "m \<in> set NETWORK_MODES"
  shows "net_ok (n\<lparr>nm_config := (if m = nm_default n then dict_del (storage_key k) (nm_config n)
     else dict_set (storage_key k) m (nm_config n))\<rparr>)" (is "net_ok ?n")
proof -
  have other: "mode_of ?n k' = mode_of n k'" if "valid_key k'" "k' \<noteq> k" for k'
    using storage_key_inj [OF that(1) assms(2)] that(2) by (simp add: mode_of_def dict_get_def)
  have "set (nm_config ?n) \<subseteq> insert (storage_key k, m) (set (nm_config n))"
    using dict_del_subset [of "storage_key k" "nm_config n"] dict_set_subset [of "storage_key k" m "nm_config n"]
    by (cases "m = nm_default n") (simp_all add: subset_insertI2)
  then have modes: "snd x \<in> set NETWORK_MODES" if "x \<in> set (nm_config ?n)" for x
    using subsetD [OF _ that] net_ok_modes [OF assms(1), of x] assms(4) by (metis insertE snd_conv)
  have runs: "run_ok ?n k' r" if "map_of (nm_runtime ?n) k' = Some r" for k' r
  proof -
    have "map_of (nm_runtime n) k' = Some r" using that by simp
    with assms(3) have "run_ok n k' r" "k' \<noteq> k" by (auto intro: net_okD [OF assms(1)] simp del: split_paired_All)
    then show ?thesis using other [of k'] unfolding run_ok_def by metis
  qed
  show ?thesis unfolding net_ok_def using modes runs by (auto simp del: split_paired_All)
qed

section \<open>Properties\<close>

lemma control_frame:
  assumes "m \<noteq> []" and "0 < limit"
  shows "receive_until m limit input = Inr (data, rest) \<longleftrightarrow>
    input = data @ rest \<and> contains m data \<and> \<not> contains m (butlast data) \<and> int (length data) \<le> limit"
proof -
  have loop: "receive_loop m limit [] input = Inr (d, r) \<longleftrightarrow> d @ r = input \<and> frame m d \<and> int (length d) \<le> limit" for d r
    using receive_loop_frame [of m "[]" limit input d r] assms by (simp, blast)
  have "receive_until m limit input = receive_loop m limit [] input"
  proof (cases "receive_loop m limit [] input")
    case (Inr p)
    then have "frame m (fst p)" using loop [of "fst p" "snd p"] by simp
    then show ?thesis using Inr by (simp add: receive_until_def Let_def frame_end split_beta)
  qed (simp add: receive_until_def)
  then show ?thesis using loop [of data rest] by (auto simp: frame_def)
qed

text \<open>
  C28. The broker takes from the client exactly its control request: \<open>_receive_until\<close> returns a frame
  that ends at the first marker within the limit and leaves every later byte, which belongs to the
  tunnel, unread; and whenever the input starts with such a frame, it returns it.
\<close>

theorem control_frame_exact:
  assumes "m \<noteq> []" and "0 < limit"
  shows "receive_until m limit input = Inr (data, rest) \<longleftrightarrow>
    input = data @ rest \<and> contains m data \<and> \<not> contains m (butlast data) \<and> int (length data) \<le> limit"
  using assms by (rule control_frame)

theorem control_frame_exact_witness:
  "receive_until [CHR 0x0A] MAX_CONTROL (''ab'' @ [CHR 0x0A] @ ''tls'') = Inr (''ab'' @ [CHR 0x0A], ''tls'')"
  by (subst control_frame_exact) (simp_all add: MAX_CONTROL_def startswith_def)

lemma net_keyD: "net_key a s = Inr k \<Longrightarrow> k = (a, s) \<and> valid_key k"
  by (auto simp: net_key_def valid_key_def bindR_eq_Inr validate_id_def checkR_def split: if_split_asm)

lemma net_ok_install:
  assumes "net_ok n" and "valid_key k" and "nr_mode r = mode_of n k" and "nr_mode r \<noteq> ''inherit''"
  shows "net_ok (n\<lparr>nm_runtime := dict_set k r (nm_runtime n)\<rparr>)"
proof -
  have "run_ok n k' r'" if "map_of (nm_runtime (n\<lparr>nm_runtime := dict_set k r (nm_runtime n)\<rparr>)) k' = Some r'" for k' r'
    using that assms(2-4) net_okD [OF assms(1), of k' r'] by (cases "k' = k") (auto simp: run_ok_def)
  then show ?thesis using assms(1) unfolding net_ok_def by simp
qed

text \<open>Reading the manager or checking an argument before going on.\<close>

lemma preserves_read:
  assumes "\<And>v. preserves (Q v) (g v)" and "\<And>n. P n \<Longrightarrow> Q (f n) n" and "\<And>v n. Q v n \<Longrightarrow> P n"
  shows "preserves P (bind (own f) g)"
proof (rule preservesI)
  fix st r st'
  assume start: "P (fst st)" and run: "bind (own f) g st = (r, st')"
  have "g (f (fst st)) st = (r, st')" using run by (simp add: bind_def own_def gets_def split_beta)
  with assms start show "P (fst st')" by (blast dest: preservesD)
qed

lemma preserves_lift: "(\<And>x. c = Inr x \<Longrightarrow> preserves P (g x)) \<Longrightarrow> preserves P (bind (lift_res c) g)"
  by (cases c) (auto simp: preserves_def bind_def lift_res_def)

lemma net_prepare_ok: "preserves net_ok (net_prepare H a s)"
  unfolding net_prepare_def
proof (rule preserves_lift, rule preserves_read [where Q = "\<lambda>mode n. net_ok n \<and> mode_of n k = mode" for k])
  fix k mode
  assume key: "net_key a s = Inr k"
  let ?P = "\<lambda>n. net_ok n \<and> mode_of n k = mode"
  have "preserves ?P (start_locked H k mode)" if "mode \<noteq> ''inherit''"
    using that net_keyD [OF key] by (intro preserves_start) (auto intro!: net_ok_install)
  moreover have "preserves ?P (stop_locked H k)" by (intro preserves_stop) (simp add: net_ok_remove)
  ultimately show "preserves ?P
     (if mode = ''inherit''
     then ret \<lparr>nl_mode = mode, nl_argv_prefix = [], nl_environment = [], nl_namespace_pid = None, nl_broker_socket = None\<rparr>
     else bind (own (\<lambda>n. map_of (nm_runtime n) k)) (\<lambda>known.
       bind (case known of None \<Rightarrow> ret None
         | Some r \<Rightarrow> bind (n_host (nh_poll H (nr_process r))) (\<lambda>st. ret (if st = None then Some r else None))) (\<lambda>live.
       bind (case live of Some r \<Rightarrow> ret r
         | None \<Rightarrow> andthen (whenM (known \<noteq> None) (stop_locked H k)) (start_locked H k mode)) (\<lambda>r.
       bind (own nm_nsenter) (\<lambda>nsenter.
       ret \<lparr>nl_mode = mode, nl_argv_prefix = [nsenter, ''--target'', int_str (nr_process r), ''--net'', ''--''],
            nl_environment = (if mode = ''proxy'' then proxy_environment else []),
            nl_namespace_pid = Some (nr_process r), nl_broker_socket = nr_broker r\<rparr>)))))"
    by (auto intro!: preserves_intros)
qed simp_all

lemma preserves_after:
  assumes "\<And>st r st'. P (fst st) \<Longrightarrow> m st = (r, st') \<Longrightarrow> Q (fst st')" and "preserves Q g" and "\<And>n. Q n \<Longrightarrow> P n"
  shows "preserves P (andthen m g)"
  unfolding andthen_def
proof (rule preservesI)
  fix st r st'
  assume start: "P (fst st)" and run: "bind m (\<lambda>_. g) st = (r, st')"
  from run have "Q (fst st')"
    by (rule bind_cases) (use start assms(1) preservesD [OF assms(2)] in blast)+
  then show "P (fst st')" by (rule assms(3))
qed

lemma net_configure_ok: "preserves net_ok (net_configure H a s mode)"
  unfolding net_configure_def
proof (intro preserves_lift, rule preserves_bind)
  show "preserves net_ok (own (\<lambda>n. mode_of n k))" for k by (intro preserves_intros)
  fix k m cur
  assume key: "net_key a s = Inr k" and mode: "validate_network_mode mode = Inr m"
  let ?Q = "\<lambda>n. net_ok n \<and> map_of (nm_runtime n) k = None"
  have later: "preserves ?Q (andthen (own_modify (\<lambda>n. n\<lparr>nm_config := (if m = nm_default n
        then dict_del (storage_key k) (nm_config n) else dict_set (storage_key k) m (nm_config n))\<rparr>))
       (andthen (write_configuration H) (net_status H a s)))"
    using net_keyD [OF key, THEN conjunct2] validate_network_mode_Inr [OF mode]
    by (intro preserves_intros) (simp add: net_ok_reconfigure split del: if_split)
  have stop: "?Q (fst st')" if "net_ok (fst st)" "stop_locked H k st = (r, st')" for st st' and r :: "error + unit"
  proof -
    have "preserves net_ok (stop_locked H k)" by (intro preserves_stop net_ok_remove)
    from preservesD [OF this that] stop_locked_effect [of H k "fst st" "snd st" r "fst st'" "snd st'"] that(2)
    show ?thesis by simp
  qed
  have "preserves net_ok (andthen (stop_locked H k) (andthen (own_modify (\<lambda>n. n\<lparr>nm_config := (if m = nm_default n
        then dict_del (storage_key k) (nm_config n) else dict_set (storage_key k) m (nm_config n))\<rparr>))
       (andthen (write_configuration H) (net_status H a s))))"
    by (rule preserves_after [where Q = ?Q, OF stop later]) simp_all
  then show "preserves net_ok (if cur = m then net_status H a s
     else andthen (stop_locked H k) (andthen (own_modify (\<lambda>n. n\<lparr>nm_config := (if m = nm_default n
        then dict_del (storage_key k) (nm_config n) else dict_set (storage_key k) m (nm_config n))\<rparr>))
       (andthen (write_configuration H) (net_status H a s))))"
    by (simp add: preserves_status)
qed

text \<open>The calls a client makes of one manager, each of which may return or raise.\<close>

datatype net_call = Configure string string json | Prepare string string | Close

definition run_call :: "'e nhost \<Rightarrow> net_call \<Rightarrow> ('e, unit) nop" where
  "run_call H c = (case c of
      Configure a s mode \<Rightarrow> bind (net_configure H a s mode) (\<lambda>_. ret ())
    | Prepare a s \<Rightarrow> bind (net_prepare H a s) (\<lambda>_. ret ())
    | Close \<Rightarrow> net_close H)"

fun run_calls :: "'e nhost \<Rightarrow> net_call list \<Rightarrow> netman \<times> 'e nworld \<Rightarrow> netman \<times> 'e nworld" where
  "run_calls H [] st = st"
| "run_calls H (c # cs) st = run_calls H cs (snd (run_call H c st))"

lemma run_call_ok: "preserves net_ok (run_call H c)"
  by (cases c) (auto simp: run_call_def intro!: preserves_intros net_configure_ok net_prepare_ok net_close_ok)

lemma run_calls_ok: "net_ok (fst st) \<Longrightarrow> net_ok (fst (run_calls H cs st))"
proof (induction cs arbitrary: st)
  case (Cons c cs)
  then show ?case using run_call_ok [of H c] unfolding preserves_def run_calls.simps by blast
qed simp

lemma mapR_modes: "mapR (\<lambda>(k, v). bindR (validate_network_mode v) (\<lambda>m. Inr (k, m))) d = Inr c \<Longrightarrow>
    \<forall>(k, m) \<in> set c. m \<in> set NETWORK_MODES"
proof (induction d arbitrary: c)
  case (Cons x d)
  then show ?case by (cases x) (auto simp: bindR_eq_Inr dest: validate_network_mode_Inr)
qed simp

lemma load_configuration_modes: "load_configuration f = Inr c \<Longrightarrow> \<forall>(k, m) \<in> set c. m \<in> set NETWORK_MODES"
  by (auto simp: load_configuration_def split: option.splits jfile.splits json.splits dest!: mapR_modes)

lemma netman_init_ok: "netman_init H base sockets mode py un ns w = (Inr n, w') \<Longrightarrow> net_ok n"
  unfolding netman_init_def
  by (auto simp: net_ok_def lift_res_def gets_def ret_def dest!: load_configuration_modes elim!: run_elims)

text \<open>
  C26. A namespace never serves a stale mode: from the constructor on, after any sequence of calls that
  configure, prepare and close, whether they return or raise, every helper the manager keeps was
  started in the mode its Session is configured for now, and none is kept for a Session that
  inherits the network.
\<close>

theorem network_invariant:
  assumes "netman_init H base sockets mode py un ns w = (Inr n, w')"
    and "map_of (nm_runtime (fst (run_calls H cs (n, w')))) k = Some r"
  shows "nr_mode r = mode_of (fst (run_calls H cs (n, w'))) k \<and> nr_mode r \<noteq> ''inherit''"
  using net_okD [OF run_calls_ok assms(2)] netman_init_ok [OF assms(1)] unfolding run_ok_def fst_conv by metis

lemma keeps_file [keeps_intros]: "keeps (\<lambda>st. nw_file (snd st)) (n_host m)" "keeps (\<lambda>st. nw_file (snd st)) (own f)"
  by (simp_all add: keeps_def on_world_def own_def n_ext_def gets_def split: prod.split)

lemma net_status_keeps:
  assumes "net_status H a s (n, w) = (r, (n', w'))"
  shows "n' = n \<and> nw_file w' = nw_file w"
proof -
  have "keeps fst (net_status H a s)" "keeps (\<lambda>st. nw_file (snd st)) (net_status H a s)"
    unfolding net_status_def by (auto intro!: keeps_intros split: option.split)
  from keepsD [OF this(1) assms] keepsD [OF this(2) assms] show ?thesis by simp
qed

lemma write_configuration_Inr:
  assumes "write_configuration H (n, w) = (Inr u, (n', w'))"
  shows "n' = n \<and> nw_file w' = Some (JsonFile (JObj (map (\<lambda>(k, m). (k, JStr m)) (nm_config n))))"
  using assms unfolding write_configuration_def
  by (auto simp: own_def gets_def on_world_def modify_def n_ext_def split: prod.splits elim!: run_elims)

text \<open>
  What the manager relies on about processes, which the host documents: a process that has ended does not
  come back, whatever is called; \<open>poll\<close> with a code and a \<open>wait\<close> that returns mean that it has ended; and
  \<open>terminate\<close> asks it to end. \<open>alive\<close> and \<open>asked\<close> say which processes run and which have been asked.
\<close>

definition settles :: "(int \<Rightarrow> 'e \<Rightarrow> bool) \<Rightarrow> (int \<Rightarrow> 'e \<Rightarrow> bool) \<Rightarrow> ('e, 'a) op \<Rightarrow> bool" where
  "settles alive asked m = (\<forall>e r e'. m e = (r, e') \<longrightarrow> (\<forall>p. (alive p e' \<longrightarrow> alive p e) \<and> (asked p e \<longrightarrow> asked p e')))"

definition process_contract :: "'e nhost \<Rightarrow> (int \<Rightarrow> 'e \<Rightarrow> bool) \<Rightarrow> (int \<Rightarrow> 'e \<Rightarrow> bool) \<Rightarrow> bool" where
  "process_contract H alive asked =
     ((\<forall>p. settles alive asked (nh_poll H p)) \<and> (\<forall>p. settles alive asked (nh_terminate H p)) \<and> (\<forall>p. settles alive asked (nh_kill H p)) \<and>
      (\<forall>p t. settles alive asked (nh_wait H p t)) \<and> (\<forall>b. settles alive asked (nh_broker_close H b)) \<and>
      (\<forall>p. settles alive asked (nh_close_stdout H p)) \<and> (\<forall>l. settles alive asked (nh_close_log H l)) \<and>
      (\<forall>f d. settles alive asked (nh_write H f d)) \<and> settles alive asked (nh_rename H) \<and>
      (\<forall>p e c e'. nh_poll H p e = (Inr (Some c), e') \<longrightarrow> \<not> alive p e') \<and>
      (\<forall>p t e e'. nh_wait H p t e = (Inr (), e') \<longrightarrow> \<not> alive p e') \<and>
      (\<forall>p e e'. nh_terminate H p e = (Inr (), e') \<longrightarrow> asked p e'))"

definition evolves :: "(int \<Rightarrow> 'e \<Rightarrow> bool) \<Rightarrow> (int \<Rightarrow> 'e \<Rightarrow> bool) \<Rightarrow> ('e, 'a) nop \<Rightarrow> bool" where
  "evolves alive asked m = (\<forall>st r st'. m st = (r, st') \<longrightarrow>
     (\<forall>p. (alive p (nw_ext (snd st')) \<longrightarrow> alive p (nw_ext (snd st))) \<and> (asked p (nw_ext (snd st)) \<longrightarrow> asked p (nw_ext (snd st')))))"

lemma evolvesD:
  assumes "evolves alive asked m" and "m st = (r, st')"
  shows "alive p (nw_ext (snd st')) \<Longrightarrow> alive p (nw_ext (snd st))" and "asked p (nw_ext (snd st)) \<Longrightarrow> asked p (nw_ext (snd st'))"
  using assms unfolding evolves_def by blast+

lemma evolves_host: "settles alive asked m \<Longrightarrow> evolves alive asked (n_host m)"
  unfolding settles_def evolves_def by (fastforce simp: on_world_def n_ext_def split: prod.splits)

lemma evolves_pure:
  "evolves alive asked (ret x)" "evolves alive asked (raise e)" "evolves alive asked (lift_res q)" "evolves alive asked (own f)"
  "evolves alive asked (own_modify g)" "evolves alive asked (on_world (modify (\<lambda>w. w\<lparr>nw_file := d\<rparr>)))"
  by (auto simp: evolves_def io_defs own_def own_modify_def on_world_def)

lemma evolves_bind: "evolves alive asked m \<Longrightarrow> (\<And>x. evolves alive asked (f x)) \<Longrightarrow> evolves alive asked (bind m f)"
  unfolding evolves_def by (intro allI impI, erule bind_cases) (blast, blast)

lemma evolves_andthen: "evolves alive asked m \<Longrightarrow> evolves alive asked k \<Longrightarrow> evolves alive asked (andthen m k)"
  unfolding andthen_def by (rule evolves_bind)

lemma evolves_catch: "evolves alive asked m \<Longrightarrow> (\<And>e. evolves alive asked (h e)) \<Longrightarrow> evolves alive asked (catch sel m h)"
  unfolding evolves_def by (intro allI impI, erule catch_cases) (blast, blast)

lemma evolves_whenM: "evolves alive asked m \<Longrightarrow> evolves alive asked (whenM b m)"
  by (simp add: whenM_def evolves_pure)

lemma evolves_option: "evolves alive asked m \<Longrightarrow> (\<And>x. evolves alive asked (f x)) \<Longrightarrow> evolves alive asked (case v of None \<Rightarrow> m | Some x \<Rightarrow> f x)"
  by (cases v) simp_all

lemmas evolves_intros = evolves_pure evolves_bind evolves_andthen evolves_catch evolves_whenM evolves_option evolves_host

lemma contract_settles:
  assumes "process_contract H alive asked"
  shows "settles alive asked (nh_poll H p)" "settles alive asked (nh_terminate H p)" "settles alive asked (nh_kill H p)"
    "settles alive asked (nh_wait H p t)" "settles alive asked (nh_broker_close H b)" "settles alive asked (nh_close_stdout H p)"
    "settles alive asked (nh_close_log H l)" "settles alive asked (nh_write H f d)" "settles alive asked (nh_rename H)"
  using assms by (simp_all add: process_contract_def)

lemma contract_ends:
  assumes "process_contract H alive asked"
  shows "nh_poll H p e = (Inr (Some c), e') \<Longrightarrow> \<not> alive p e'" "nh_wait H p t e = (Inr (), e') \<Longrightarrow> \<not> alive p e'"
    "nh_terminate H p e = (Inr (), e') \<Longrightarrow> asked p e'"
  using assms by (auto simp: process_contract_def)

lemma n_host_Inr: "n_host m st = (Inr x, st') \<Longrightarrow> m (nw_ext (snd st)) = (Inr x, nw_ext (snd st'))"
  by (cases st) (auto simp: on_world_def n_ext_def split: prod.splits)

lemma stop_process_ends:
  assumes C: "process_contract H alive asked" and run: "stop_process H p t st = (Inr (), st')"
  shows "\<not> alive p (nw_ext (snd st'))" and "asked p (nw_ext (snd st'))"
proof -
  let ?w = "catch is_timeout (n_host (nh_wait H p t)) (\<lambda>_. andthen (n_host (nh_kill H p)) (n_host (nh_wait H p t)))"
  from run obtain s1 where trm: "n_host (nh_terminate H p) st = (Inr (), s1)" and w: "?w s1 = (Inr (), st')"
    unfolding stop_process_def by (auto elim!: andthen_InrE)
  have "asked p (nw_ext (snd s1))" using contract_ends(3) [OF C n_host_Inr [OF trm]] .
  moreover have "evolves alive asked ?w" by (intro evolves_intros contract_settles [OF C])
  ultimately show "asked p (nw_ext (snd st'))" using evolvesD(2) w by blast
  show "\<not> alive p (nw_ext (snd st'))"
    using w contract_ends(2) [OF C] by (auto elim!: catch_cases andthen_InrE dest!: n_host_Inr)
qed

lemma stop_locked_ends:
  assumes C: "process_contract H alive asked" and run: "stop_locked H k (n, w) = (Inr (), st')" and x: "map_of (nm_runtime n) k = Some x"
  shows "\<not> alive (nr_process x) (nw_ext (snd st'))"
    and "(\<exists>c e. nh_poll H (nr_process x) (nw_ext w) = (Inr (Some c), e)) \<or> asked (nr_process x) (nw_ext (snd st'))"
proof -
  let ?p = "nr_process x"
  let ?last = "andthen (case nr_broker x of None \<Rightarrow> ret () | Some p \<Rightarrow> n_host (nh_broker_close H p))
     (andthen (n_host (nh_close_stdout H ?p)) (n_host (nh_close_log H (nr_log x))))"
  have "bind (n_host (nh_poll H ?p)) (\<lambda>st. andthen (whenM (st = None) (stop_process H ?p 3)) ?last) (n\<lparr>nm_runtime := dict_del k (nm_runtime n)\<rparr>, w) = (Inr (), st')"
    using run x by (simp add: stop_locked_def bind_def andthen_def own_def own_modify_def modify_def gets_def)
  then obtain code s1 s2 where poll: "n_host (nh_poll H ?p) (n\<lparr>nm_runtime := dict_del k (nm_runtime n)\<rparr>, w) = (Inr code, s1)"
    and stop: "whenM (code = None) (stop_process H ?p 3) s1 = (Inr (), s2)" and last: "?last s2 = (Inr (), st')"
    by (elim bind_InrE) (erule andthen_InrE, simp)
  have polled: "nh_poll H ?p (nw_ext w) = (Inr code, nw_ext (snd s1))" using n_host_Inr [OF poll] by simp
  have ev: "evolves alive asked ?last" by (intro evolves_intros contract_settles [OF C])
  have "\<not> alive ?p (nw_ext (snd s2)) \<and> (code \<noteq> None \<or> asked ?p (nw_ext (snd s2)))"
  proof (cases code)
    case None
    then show ?thesis using stop stop_process_ends [OF C] by (simp add: whenM_def)
  next
    case (Some c)
    then show ?thesis using stop polled contract_ends(1) [OF C] by (auto simp: whenM_def ret_def)
  qed
  then show "\<not> alive ?p (nw_ext (snd st'))" and "(\<exists>c e. nh_poll H ?p (nw_ext w) = (Inr (Some c), e)) \<or> asked ?p (nw_ext (snd st'))"
    using evolvesD [OF ev last] polled by auto
qed

text \<open>
  C27. Reconfiguring a Session changes the mode of that Session and of no other, forgets its helper and
  leaves a configuration file from which the next manager loads exactly the modes in force. The helper it
  had is stopped: on a host that keeps the contract of processes it has ended when the call returns, and it
  was asked to terminate unless it had already exited.
\<close>

theorem network_configure_persists:
  assumes "net_configure H a s mode (n, w) = (Inr v, (n', w'))" and "net_ok n"
    and "validate_network_mode mode = Inr m" and "mode_of n (a, s) \<noteq> m"
  shows "mode_of n' (a, s) = m \<and> (\<forall>k. valid_key k \<and> k \<noteq> (a, s) \<longrightarrow> mode_of n' k = mode_of n k) \<and>
    map_of (nm_runtime n') (a, s) = None \<and> load_configuration (nw_file w') = Inr (nm_config n') \<and>
    (\<forall>alive asked x. process_contract H alive asked \<and> map_of (nm_runtime n) (a, s) = Some x \<longrightarrow>
       \<not> alive (nr_process x) (nw_ext w') \<and>
       ((\<exists>c e. nh_poll H (nr_process x) (nw_ext w) = (Inr (Some c), e)) \<or> asked (nr_process x) (nw_ext w')))"
proof -
  let ?c = "\<lambda>n. n\<lparr>nm_config := (if m = nm_default n then dict_del (storage_key (a, s)) (nm_config n)
    else dict_set (storage_key (a, s)) m (nm_config n))\<rparr>"
  have key: "net_key a s = Inr (a, s)" and
    run: "andthen (stop_locked H (a, s)) (andthen (own_modify ?c) (andthen (write_configuration H) (net_status H a s))) (n, w) = (Inr v, (n', w'))"
    using assms(1,3,4) by (auto elim: net_configure_cases)
  then obtain n1 w1 n2 w2 where stop: "stop_locked H (a, s) (n, w) = (Inr (), (n1, w1))"
    and wr: "write_configuration H (?c n1, w1) = (Inr (), (n2, w2))" and st: "net_status H a s (n2, w2) = (Inr v, (n', w'))"
    by (auto simp: own_modify_def modify_def elim!: run_elims)
  have n': "n' = ?c n1" and fl: "nw_file w' = Some (JsonFile (JObj (map (\<lambda>(k, m). (k, JStr m)) (nm_config n'))))"
    using write_configuration_Inr [OF wr] net_status_keeps [OF st] by simp_all
  note eff = stop_locked_effect [OF stop]
  have valid: "valid_key (a, s)" using net_keyD [OF key] by simp
  have "net_ok n'" using preservesD [OF net_configure_ok [of H a s mode] _ assms(1)] assms(2) by simp
  then have "load_configuration (nw_file w') = Inr (nm_config n')"
    unfolding fl by (intro load_saved) (auto simp: net_ok_def)
  moreover have "mode_of n' k = mode_of n k" if "valid_key k" "k \<noteq> (a, s)" for k
    using storage_key_inj [OF that(1) valid] that(2) eff by (simp add: n' mode_of_def dict_get_def)
  moreover have "mode_of n' (a, s) = m" "map_of (nm_runtime n') (a, s) = None" using eff by (simp_all add: n' mode_of_def dict_get_def)
  moreover have "\<not> alive (nr_process x) (nw_ext w') \<and>
       ((\<exists>c e. nh_poll H (nr_process x) (nw_ext w) = (Inr (Some c), e)) \<or> asked (nr_process x) (nw_ext w'))"
    if C: "process_contract H alive asked" and x: "map_of (nm_runtime n) (a, s) = Some x" for alive asked x
  proof -
    have "evolves alive asked (write_configuration H)" "evolves alive asked (net_status H a s)"
      unfolding write_configuration_def net_status_def by (intro evolves_intros contract_settles [OF C])+
    from evolvesD [OF this(1) wr] evolvesD [OF this(2) st] show ?thesis using stop_locked_ends [OF C stop x] by auto
  qed
  ultimately show ?thesis by blast
qed

text \<open>A host on which every operation succeeds and the helper reports that it is ready.\<close>

definition calm_host :: "unit nhost" where
  "calm_host = \<lparr>nh_which = (\<lambda>_ _. True), nh_digest = (\<lambda>k. fst k @ ''-'' @ snd k), nh_lag = (\<lambda>_. 0), nh_mkdir = (\<lambda>_. ret ()),
     nh_write = (\<lambda>_ _. ret ()), nh_rename = ret (), nh_unlink = (\<lambda>_. ret ()), nh_broker_open = (\<lambda>_ _. ret ()),
     nh_broker_close = (\<lambda>_. ret ()), nh_open_log = (\<lambda>_. ret ()), nh_read_log = (\<lambda>_. ret []), nh_close_log = (\<lambda>_. ret ()),
     nh_popen = (\<lambda>_. ret 7), nh_poll = (\<lambda>_. ret None), nh_terminate = (\<lambda>_. ret ()), nh_kill = (\<lambda>_. ret ()),
     nh_wait = (\<lambda>_ _. ret ()), nh_select = (\<lambda>_ _. ret True), nh_readline = (\<lambda>_. ret ''ready''), nh_close_stdout = (\<lambda>_. ret ()),
     nh_loads = (\<lambda>_. Inr (JObj [(''ready'', JBool True)]))\<rparr>"

definition calm_start :: "netman \<times> unit nworld" where
  "calm_start = (case netman_init calm_host ''/n'' ''/s'' (JStr ''isolated'') ''py'' ''unshare'' ''nsenter''
     \<lparr>nw_ext = (), nw_now = 0, nw_file = None\<rparr> of (Inr n, w) \<Rightarrow> (n, w) | (Inl _, w) \<Rightarrow> undefined)"

definition calm_man :: "(skey, netrun) dict \<Rightarrow> (string, string) dict \<Rightarrow> netman" where
  "calm_man rt c = \<lparr>nm_root = ''/n'', nm_socket_root = ''/s'', nm_default = ''inherit'', nm_python = ''py'', nm_unshare = ''unshare'',
     nm_nsenter = ''nsenter'', nm_runtime = rt, nm_config = c\<rparr>"

definition calm_world :: "(string, string) dict option \<Rightarrow> unit nworld" where
  "calm_world f = \<lparr>nw_ext = (), nw_now = 0, nw_file = map_option (\<lambda>c. JsonFile (JObj (map (\<lambda>(k, m). (k, JStr m)) c))) f\<rparr>"

lemma calm_steps:
  "netman_init calm_host ''/n'' ''/s'' (JStr ''inherit'') ''py'' ''unshare'' ''nsenter'' (calm_world None) = (Inr (calm_man [] []), calm_world None)"
  "snd (run_call calm_host (Prepare ''a'' ''s'') (calm_man [] [], calm_world None)) = (calm_man [] [], calm_world None)"
  "net_configure calm_host ''a'' ''s'' (JStr ''isolated'') (calm_man [] [], calm_world None) =
     (Inr (JObj [(''agent_id'', JStr ''a''), (''session_id'', JStr ''s''), (''mode'', JStr ''isolated''), (''active'', JBool False),
         (''namespace_pid'', JNull), (''proxy_url'', JNull)]),
      (calm_man [] [(''a/s'', ''isolated'')], calm_world (Some [(''a/s'', ''isolated'')])))"
  "snd (run_call calm_host (Prepare ''a'' ''s'') (calm_man [] [(''a/s'', ''isolated'')], calm_world (Some [(''a/s'', ''isolated'')]))) =
     (calm_man [((''a'', ''s''), \<lparr>nr_mode = ''isolated'', nr_process = 7, nr_broker = None, nr_log = ''/n/a-s/namespace.log''\<rparr>)]
        [(''a/s'', ''isolated'')], calm_world (Some [(''a/s'', ''isolated'')]))"
  by code_simp+

theorem network_invariant_witness:
  "mode_of (fst (run_calls calm_host [Prepare ''a'' ''s'', Configure ''a'' ''s'' (JStr ''isolated''), Prepare ''a'' ''s''] (calm_man [] [], calm_world None)))
     (''a'', ''s'') = ''isolated''"
proof -
  have run: "run_calls calm_host [Prepare ''a'' ''s'', Configure ''a'' ''s'' (JStr ''isolated''), Prepare ''a'' ''s''] (calm_man [] [], calm_world None) =
     (calm_man [((''a'', ''s''), \<lparr>nr_mode = ''isolated'', nr_process = 7, nr_broker = None, nr_log = ''/n/a-s/namespace.log''\<rparr>)]
        [(''a/s'', ''isolated'')], calm_world (Some [(''a/s'', ''isolated'')]))"
    by (simp add: calm_steps run_call_def [of _ "Configure _ _ _"] bind_def ret_def)
  show ?thesis
    using network_invariant [OF calm_steps(1), of "[Prepare ''a'' ''s'', Configure ''a'' ''s'' (JStr ''isolated''), Prepare ''a'' ''s'']" "(''a'', ''s'')"]
    unfolding run by (simp add: calm_man_def)
qed

text \<open>A host with processes that end when they are asked to; its state lists the running ones and those asked.\<close>

definition live_host :: "(int list \<times> int list) nhost" where
  "live_host = \<lparr>nh_which = (\<lambda>_ _. True), nh_digest = (\<lambda>k. fst k @ ''-'' @ snd k), nh_lag = (\<lambda>_. 0), nh_mkdir = (\<lambda>_. ret ()),
     nh_write = (\<lambda>_ _. ret ()), nh_rename = ret (), nh_unlink = (\<lambda>_. ret ()), nh_broker_open = (\<lambda>_ _. ret ()),
     nh_broker_close = (\<lambda>_. ret ()), nh_open_log = (\<lambda>_. ret ()), nh_read_log = (\<lambda>_. ret []), nh_close_log = (\<lambda>_. ret ()),
     nh_popen = (\<lambda>_. andthen (modify (\<lambda>(l, t). (7 # l, t))) (ret 7)),
     nh_poll = (\<lambda>p. gets (\<lambda>(l, t). if p \<in> set l then None else Some 0)),
     nh_terminate = (\<lambda>p. modify (\<lambda>(l, t). (removeAll p l, p # t))), nh_kill = (\<lambda>p. modify (\<lambda>(l, t). (removeAll p l, t))),
     nh_wait = (\<lambda>p _. bind (gets (\<lambda>(l, t). p \<in> set l)) (\<lambda>there. if there then raise TimeoutExpired else ret ())),
     nh_select = (\<lambda>_ _. ret True), nh_readline = (\<lambda>_. ret ''ready''), nh_close_stdout = (\<lambda>_. ret ()),
     nh_loads = (\<lambda>_. Inr (JObj [(''ready'', JBool True)]))\<rparr>"

lemma live_contract: "process_contract live_host (\<lambda>p e. p \<in> set (fst e)) (\<lambda>p e. p \<in> set (snd e))"
  unfolding process_contract_def settles_def by (auto simp: live_host_def io_defs split: if_splits)

definition live_man :: "string \<Rightarrow> netman" where
  "live_man m = calm_man (if m = ''proxy'' then [((''a'', ''s''), \<lparr>nr_mode = ''proxy'', nr_process = 7, nr_broker = None, nr_log = ''/n/log''\<rparr>)] else [])
     [(''a/s'', m)]"

lemma live_configure:
  "net_configure live_host ''a'' ''s'' (JStr ''isolated'') (live_man ''proxy'', \<lparr>nw_ext = ([7, 8], []), nw_now = 0, nw_file = None\<rparr>) =
     (Inr (JObj [(''agent_id'', JStr ''a''), (''session_id'', JStr ''s''), (''mode'', JStr ''isolated''), (''active'', JBool False),
         (''namespace_pid'', JNull), (''proxy_url'', JNull)]),
      (live_man ''isolated'', \<lparr>nw_ext = ([8], [7]), nw_now = 0, nw_file = Some (JsonFile (JObj [(''a/s'', JStr ''isolated'')]))\<rparr>))"
  by code_simp

theorem network_configure_persists_witness:
  "map_of (nm_runtime (live_man ''isolated'')) (''a'', ''s'') = None \<and> 7 \<notin> set (fst ([8], [7 :: int]) :: int list)"
proof -
  have "valid_key (''a'', ''s'')" by code_simp
  then have run: "run_ok (live_man ''proxy'') (''a'', ''s'') \<lparr>nr_mode = ''proxy'', nr_process = 7, nr_broker = None, nr_log = ''/n/log''\<rparr>"
    by (simp add: run_ok_def live_man_def calm_man_def mode_of_def dict_get_def storage_key_def NETWORK_MODES_def)
  have ok: "net_ok (live_man ''proxy'')" using run by (simp add: net_ok_def live_man_def calm_man_def NETWORK_MODES_def)
  have "validate_network_mode (JStr ''isolated'') = Inr ''isolated''" "mode_of (live_man ''proxy'') (''a'', ''s'') \<noteq> ''isolated''" by code_simp+
  note done' = network_configure_persists [OF live_configure ok this]
  moreover have "map_of (nm_runtime (live_man ''proxy'')) (''a'', ''s'') =
      Some \<lparr>nr_mode = ''proxy'', nr_process = 7, nr_broker = None, nr_log = ''/n/log''\<rparr>" by (simp add: live_man_def calm_man_def)
  ultimately show ?thesis using live_contract by fastforce
qed

lemma keeps_broker [keeps_intros]: "keeps bk_audit (b_ext m)" "keeps bk_sent (b_ext m)"
  by (simp_all add: keeps_def b_ext_def split: prod.split)

lemma connect_keeps [keeps_intros]: "keeps bk_audit (connect_first H e xs)" "keeps bk_sent (connect_first H e xs)"
  by (induction xs arbitrary: e) (auto intro!: keeps_intros split: sum.split)

lemma destination_keeps [keeps_intros]: "keeps bk_audit (destination H h p)" "keeps bk_sent (destination H h p)"
  unfolding destination_def by (auto intro!: keeps_intros split: json.split)

lemma audit_keeps: "keeps bk_sent (broker_audit H h p b e)"
  unfolding broker_audit_def by (intro keeps_intros) (simp add: keeps_def modify_def)

lemma read_control_frame:
  assumes "read_control H input = Inr (host, port, rest)"
  shows "\<exists>control d. receive_until [CHR 0x0A] MAX_CONTROL input = Inr (control, rest) \<and> bh_loads H control = Inr (JObj d) \<and>
    host = jget d ''host'' \<and> port = jget d ''port''"
proof -
  obtain control r doc where "receive_until [CHR 0x0A] MAX_CONTROL input = Inr (control, r)" "bh_loads H control = Inr doc"
    "(case doc of JObj d \<Rightarrow> Inr (jget d ''host'', jget d ''port'', r) | _ \<Rightarrow> Inl AttributeError) = Inr (host, port, rest)"
    using assms by (auto simp: read_control_def bindR_eq_Inr)
  then show ?thesis by (cases doc) simp_all
qed

text \<open>\<open>remote\<close> is a connection that the host opened to one of the addresses it resolved the destination to.\<close>

definition connected_to :: "('e, 'a) bhost \<Rightarrow> 'e \<Rightarrow> string \<Rightarrow> int \<Rightarrow> int \<Rightarrow> bool" where
  "connected_to H e host port remote = (\<exists>addresses e1 address e2 e3. bh_resolve H host port e = (Inr addresses, e1) \<and>
     address \<in> set addresses \<and> bh_connect H address e2 = (Inr remote, e3))"

lemma b_ext_Inr: "b_ext m w = (Inr x, w') \<Longrightarrow> \<exists>e'. m (bk_ext w) = (Inr x, e')"
  by (auto simp: b_ext_def split: prod.splits)

lemma connect_first_Inr:
  "connect_first H e xs w = (Inr c, w') \<Longrightarrow> \<exists>x \<in> set xs. \<exists>e2 e3. bh_connect H x e2 = (Inr c, e3)"
proof (induction xs arbitrary: e w)
  case (Cons x xs)
  then obtain r w1 where tried: "catch is_OSError (bind (b_ext (bh_connect H x)) (\<lambda>c. ret (Inr c))) (\<lambda>e. ret (Inl e)) w = (Inr r, w1)"
    and go: "(case r of Inr c \<Rightarrow> ret c | Inl e \<Rightarrow> connect_first H (Some e) xs) w1 = (Inr c, w')"
    by (auto elim!: run_elims)
  show ?case
  proof (cases r)
    case (Inl e)
    then show ?thesis using Cons.IH go by fastforce
  next
    case (Inr d)
    then have "d = c" using go by (simp add: ret_def)
    moreover have "\<exists>w2. b_ext (bh_connect H x) w = (Inr d, w2)"
      using tried Inr by (auto simp: ret_def elim!: catch_cases run_elims)
    ultimately show ?thesis using b_ext_Inr by fastforce
  qed
qed (simp add: raise_def)

lemma destination_Inr:
  assumes "destination H h p w = (Inr c, w')"
  obtains host port where "h = JStr host" "p = JInt port" "host \<noteq> []" "length host \<le> 253" "1 \<le> port" "port \<le> 65535"
    "connected_to H (bk_ext w) host port c"
proof -
  from assms obtain host port where hp: "h = JStr host" "p = JInt port" "host \<noteq> []" "length host \<le> 253" "1 \<le> port" "port \<le> 65535"
    and run: "bind (b_ext (bh_resolve H host port)) (connect_first H None) w = (Inr c, w')"
    unfolding destination_def by (auto split: json.splits elim!: andthen_InrE require_InrE raise_InrE)
  from run obtain xs w1 where "b_ext (bh_resolve H host port) w = (Inr xs, w1)" "connect_first H None xs w1 = (Inr c, w')" by (elim bind_InrE)
  then have "connected_to H (bk_ext w) host port c" using b_ext_Inr connect_first_Inr unfolding connected_to_def by metis
  then show thesis using that hp by blast
qed

lemma broker_send_cases:
  assumes "broker_send H t w = (r, w')"
  shows "bk_audit w' = bk_audit w \<and> bk_sent w' = (case r of Inl _ \<Rightarrow> bk_sent w | Inr _ \<Rightarrow> bk_sent w @ t)"
  using assms keepsD [OF keeps_broker(1)] keepsD [OF keeps_broker(2)] unfolding broker_send_def andthen_def
  by (auto simp: modify_def elim!: bind_cases)

lemma broker_audit_Inr:
  assumes "broker_audit H h p b e w = (Inr u, w')"
  shows "\<exists>t. bk_audit w' = bk_audit w @ [audit_row t h p b e]"
  using assms keepsD [OF keeps_broker(1)] unfolding broker_audit_def by (fastforce simp: modify_def elim!: run_elims)

lemma broker_deny_Inr:
  assumes "broker_deny H h p e w = (Inr r, w')"
  shows "r = None \<and> bk_sent w' \<in> {bk_sent w, bk_sent w @ deny_line}"
  using assms unfolding broker_deny_def andthen_def
  by (auto simp: ret_def elim!: bind_cases catch_cases dest!: keepsD [OF audit_keeps] broker_send_cases)

text \<open>
  C29. A tunnel is never opened unseen: when the broker hands a connection to the relay, the request was
  one control frame whose document names a host and a port in range, the connection was opened to an
  address to which this host and port resolved, exactly one row allowing this host and port was appended
  to the audit file, the client was told so, and every byte after the frame goes to the relay. A client
  that gets no tunnel has been sent a denial or nothing.
\<close>

theorem tunnel_is_audited:
  assumes "broker_handle H input w = (Inr r, w')"
  shows "case r of
      Some (remote, rest) \<Rightarrow> \<exists>control d host port t. input = control @ rest \<and> contains [CHR 0x0A] control \<and>
        \<not> contains [CHR 0x0A] (butlast control) \<and> int (length control) \<le> MAX_CONTROL \<and>
        bh_loads H control = Inr (JObj d) \<and> jget d ''host'' = JStr host \<and> jget d ''port'' = JInt port \<and>
        host \<noteq> [] \<and> length host \<le> 253 \<and> 1 \<le> port \<and> port \<le> 65535 \<and> connected_to H (bk_ext w) host port remote \<and>
        bk_audit w' = bk_audit w @ [audit_row t (JStr host) (JInt port) True []] \<and> bk_sent w' = bk_sent w @ allow_line
    | None \<Rightarrow> bk_sent w' \<in> {bk_sent w, bk_sent w @ deny_line}"
proof (cases "read_control H input")
  case (Inl e)
  then show ?thesis using assms broker_deny_Inr by (fastforce simp: broker_handle_def)
next
  case (Inr p)
  obtain host port rest where p: "p = (host, port, rest)" by (metis prod.collapse)
  let ?m = "bind (destination H host port) (\<lambda>remote. andthen (broker_audit H host port True []) (andthen (broker_send H allow_line) (ret (Some (remote, rest)))))"
  have run: "catch (\<lambda>_. True) ?m (broker_deny H host port) w = (Inr r, w')" using assms Inr p by (simp add: broker_handle_def)
  obtain control d where frame: "receive_until [CHR 0x0A] MAX_CONTROL input = Inr (control, rest)" and
    doc: "bh_loads H control = Inr (JObj d)" "host = jget d ''host''" "port = jget d ''port''"
    using read_control_frame Inr p by blast
  have parts: "input = control @ rest" "contains [CHR 0x0A] control" "\<not> contains [CHR 0x0A] (butlast control)"
    "int (length control) \<le> MAX_CONTROL"
    using control_frame [of "[CHR 0x0A]" MAX_CONTROL input control rest] frame by (simp_all add: MAX_CONTROL_def)
  show ?thesis
  proof (rule catch_cases [OF run])
    assume "?m w = (Inr r, w')"
    then obtain remote w1 w2 where dest: "destination H host port w = (Inr remote, w1)" and
      audit: "broker_audit H host port True [] w1 = (Inr (), w2)" and send: "broker_send H allow_line w2 = (Inr (), w')" and
      r: "r = Some (remote, rest)"
      by (auto elim!: run_elims)
    obtain h p where hp: "host = JStr h" "port = JInt p" "h \<noteq> []" "length h \<le> 253" "1 \<le> p" "p \<le> 65535"
      "connected_to H (bk_ext w) h p remote"
      by (rule destination_Inr [OF dest])
    obtain t where t: "bk_audit w2 = bk_audit w1 @ [audit_row t host port True []]" using broker_audit_Inr [OF audit] by blast
    have "bk_audit w' = bk_audit w @ [audit_row t (JStr h) (JInt p) True []]" "bk_sent w' = bk_sent w @ allow_line"
      using t hp(1,2) broker_send_cases [OF send] keepsD [OF destination_keeps(1) dest] keepsD [OF destination_keeps(2) dest]
        keepsD [OF audit_keeps audit] by simp_all
    then show ?thesis unfolding r option.case prod.case using parts hp doc
      by (intro exI [of _ control] exI [of _ d] exI [of _ h] exI [of _ p] exI [of _ t]) simp
  next
    fix e w1
    assume fail: "?m w = (Inl e, w1)" and deny: "broker_deny H host port e w1 = (Inr r, w')"
    from fail have "bk_sent w1 = bk_sent w"
      by (auto simp: andthen_def ret_def elim!: bind_cases
          dest!: keepsD [OF destination_keeps(2)] keepsD [OF audit_keeps] broker_send_cases)
    then show ?thesis using broker_deny_Inr [OF deny] by auto
  qed
qed

text \<open>A broker host that resolves and connects at once.\<close>

definition open_host :: "(unit, string) bhost" where
  "open_host = \<lparr>bh_resolve = (\<lambda>h _. ret [h]), bh_connect = (\<lambda>_. ret 5), bh_time_ns = (\<lambda>_. 9), bh_append = ret (), bh_send = (\<lambda>_. ret ()),
     bh_loads = (\<lambda>_. Inr (JObj [(''host'', JStr ''db''), (''port'', JInt 443)]))\<rparr>"

theorem tunnel_is_audited_witness:
  "bk_sent (snd (broker_handle open_host (''{}'' @ [CHR 0x0A] @ ''tls'') \<lparr>bk_ext = (), bk_audit = [], bk_sent = []\<rparr>)) = allow_line"
proof -
  have run: "broker_handle open_host (''{}'' @ [CHR 0x0A] @ ''tls'') \<lparr>bk_ext = (), bk_audit = [], bk_sent = []\<rparr> =
     (Inr (Some (5, ''tls'')), \<lparr>bk_ext = (), bk_audit = [audit_row 9 (JStr ''db'') (JInt 443) True []], bk_sent = allow_line\<rparr>)"
    by code_simp
  from tunnel_is_audited [OF run] show ?thesis unfolding run by simp
qed

end
