(* ===== verification/Trace_Store.thy ===== *)
theory Trace_Store
  imports Identifiers
begin

text \<open>
  The span collector of the monitoring plugin,
  \<^verbatim>\<open>src/plugins/agent-monitor/src/allox_agent_monitor/store.py\<close>: \<open>TraceStore\<close> with its
  validation of span events, its one SQLite table, single and batched ingestion and its counters.
  A stored row is a record; the table is the list of the rows in the order of their rowids. What the
  encoder and the database do that cannot be computed here are parameters: the encoded size of a JSON
  value and the error a commit ends in.
\<close>

section \<open>Values\<close>

definition KINDS :: "string list" where
  "KINDS = [''run'', ''turn'', ''llm'', ''tool'', ''subagent'', ''phase'', ''process'']"

definition PHASES :: "string list" where
  "PHASES = [''approval'', ''executor_queue'', ''tool_execution'', ''transport'', ''mcp_initialize'',
     ''mcp_discovery'', ''mcp_call'', ''server_queue'', ''server_ttft'', ''server_generation'']"

definition not_number :: "string \<Rightarrow> error" where
  "not_number label = WorkspaceError (label @ '' must be a finite nonnegative number'')"

text \<open>
  \<open>math.isfinite\<close> converts an integer to a float first, which overflows from
  \<open>2 ^ 1024 - 2 ^ 970\<close> on; every integer of at most 308 digits is below that bound.
\<close>

definition float_overflow :: "int \<Rightarrow> bool" where
  "float_overflow i = (308 < length (nat_digits (nat \<bar>i\<bar>)) \<and> 2 ^ 1024 - 2 ^ 970 \<le> \<bar>i\<bar>)"

fun number :: "json \<Rightarrow> string \<Rightarrow> json res" where
  "number (JInt i) label = (if float_overflow i then Inl OverflowError else if i < 0 then Inl (not_number label) else Inr (JInt i))"
| "number (JFloat (Finite q)) label = (if q < 0 then Inl (not_number label) else Inr (JFloat (Finite q)))"
| "number _ label = Inl (not_number label)"

fun checked_identifier :: "json \<Rightarrow> string \<Rightarrow> string res" where
  "checked_identifier (JStr s) label = validate_id label s"
| "checked_identifier _ label = Inl (WorkspaceError (label @ '' must be a string''))"

text \<open>
  \<open>json.dumps(v, allow_nan=False)\<close> raises \<open>ValueError\<close> for a float that is not finite and for an
  integer of more than 4300 digits.
\<close>

fun encodable :: "json \<Rightarrow> bool" where
  "encodable (JInt i) = (length (nat_digits (nat \<bar>i\<bar>)) \<le> 4300)"
| "encodable (JFloat f) = (case f of Finite q \<Rightarrow> True | _ \<Rightarrow> False)"
| "encodable (JList l) = list_all encodable l"
| "encodable (JObj d) = list_all (\<lambda>(k, v). encodable v) d"
| "encodable _ = True"

section \<open>Rows\<close>

record span =
  sp_agent :: string
  sp_session :: string
  sp_trace :: string
  sp_span :: string
  sp_parent :: "string option"
  sp_kind :: string
  sp_name :: string
  sp_start :: int
  sp_clock :: string
  sp_turn :: "string option"
  sp_group :: "string option"
  sp_loop :: "string option"
  sp_iteration :: "int option"
  sp_model :: "string option"
  sp_input :: json
  sp_links :: "string list"
  sp_path :: "string list"
  sp_status :: string
  sp_end :: "int option"
  sp_duration :: "int option"
  sp_metrics :: jdict
  sp_source :: string
  sp_run :: "string option"
  sp_result :: json
  sp_error :: json

type_synonym tkey = "string \<times> string \<times> string"
type_synonym spkey = "string \<times> string \<times> string \<times> string"

definition trace_of :: "span \<Rightarrow> tkey" where
  "trace_of r = (sp_agent r, sp_session r, sp_trace r)"

definition key_of :: "span \<Rightarrow> spkey" where
  "key_of r = (sp_agent r, sp_session r, sp_trace r, sp_span r)"

text \<open>\<open>SELECT payload ... WHERE agent=? AND session=? AND trace=? AND span=?\<close> and \<open>SELECT COUNT(*)\<close>\<close>

definition select_span :: "span list \<Rightarrow> spkey \<Rightarrow> span option" where
  "select_span rows k = List.find (\<lambda>r. key_of r = k) rows"

definition count_trace :: "span list \<Rightarrow> tkey \<Rightarrow> nat" where
  "count_trace rows t = length (filter (\<lambda>r. trace_of r = t) rows)"

definition update_span :: "span list \<Rightarrow> spkey \<Rightarrow> span \<Rightarrow> span list" where
  "update_span rows k row = map (\<lambda>r. if key_of r = k then row else r) rows"

section \<open>The start of a span\<close>

definition opt_str :: "json \<Rightarrow> string option" where
  "opt_str v = (case v of JStr s \<Rightarrow> Some s | _ \<Rightarrow> None)"

definition str_between :: "json \<Rightarrow> nat \<Rightarrow> bool" where
  "str_between v n = (case v of JStr s \<Rightarrow> s \<noteq> [] \<and> length s \<le> n | _ \<Rightarrow> False)"

definition valid_kind :: "json \<Rightarrow> string res" where
  "valid_kind v = (case v of
      JStr k \<Rightarrow> if k \<in> set KINDS then Inr k else Inl (WorkspaceError ''invalid span kind'')
    | _ \<Rightarrow> Inl (WorkspaceError ''invalid span kind''))"

definition valid_name :: "json \<Rightarrow> string res" where
  "valid_name v = (case v of
      JStr n \<Rightarrow> if n \<noteq> [] \<and> length n \<le> 256 then Inr n else Inl (WorkspaceError ''invalid span name'')
    | _ \<Rightarrow> Inl (WorkspaceError ''invalid span name''))"

definition valid_start :: "json \<Rightarrow> int res" where
  "valid_start v = (case v of
      JInt i \<Rightarrow> if 0 \<le> i then Inr i else Inl (WorkspaceError ''invalid monotonic start time'')
    | _ \<Rightarrow> Inl (WorkspaceError ''invalid monotonic start time''))"

definition valid_label :: "jdict \<Rightarrow> string \<Rightarrow> string option res" where
  "valid_label ev name = (case jget ev name of
      JNull \<Rightarrow> Inr None
    | JStr t \<Rightarrow> if length t \<le> 256 then Inr (Some t) else Inl (WorkspaceError (''invalid '' @ name))
    | _ \<Rightarrow> Inl (WorkspaceError (''invalid '' @ name)))"

definition valid_iteration :: "json \<Rightarrow> int option res" where
  "valid_iteration v = (case v of
      JNull \<Rightarrow> Inr None
    | JInt i \<Rightarrow> if 0 \<le> i then Inr (Some i) else Inl (WorkspaceError ''invalid iteration'')
    | _ \<Rightarrow> Inl (WorkspaceError ''invalid iteration''))"

definition valid_path :: "json \<Rightarrow> string list res" where
  "valid_path v = (case v of
      JList l \<Rightarrow> if length l \<le> 32 \<and> list_all (\<lambda>i. str_between i 128) l then Inr (map (\<lambda>i. the (opt_str i)) l)
        else Inl (WorkspaceError ''invalid semantic_path'')
    | _ \<Rightarrow> Inl (WorkspaceError ''invalid semantic_path''))"

definition related_check :: "span list \<Rightarrow> tkey \<Rightarrow> string option \<Rightarrow> json \<Rightarrow> string res" where
  "related_check rows t parent v =
     bindR (checked_identifier v ''related span'') (\<lambda>rel.
     case select_span rows (fst t, fst (snd t), snd (snd t), rel) of
       None \<Rightarrow> Inl (WorkspaceError ''parent/link must already exist in this Session trace'')
     | Some row \<Rightarrow>
         if Some rel = parent \<and> sp_status row \<noteq> ''running'' then Inl (WorkspaceError ''parent span has already ended'')
         else Inr rel)"

definition valid_parent :: "json \<Rightarrow> string option res" where
  "valid_parent v = (if v = JNull then Inr None else bindR (checked_identifier v ''parent'') (\<lambda>p. Inr (Some p)))"

definition valid_links :: "json \<Rightarrow> json list res" where
  "valid_links v = (case v of
      JList l \<Rightarrow> if length l \<le> 128 then Inr l else Inl (WorkspaceError ''invalid causal links'')
    | _ \<Rightarrow> Inl (WorkspaceError ''invalid causal links''))"

definition validate_span_start :: "span list \<Rightarrow> spkey \<Rightarrow> jdict \<Rightarrow> span res" where
  "validate_span_start rows k ev = (case k of (a, s, t, sp) \<Rightarrow>
     bindR (valid_kind (jget ev ''kind'')) (\<lambda>kind.
     bindR (valid_name (jget ev ''name'')) (\<lambda>name.
     bindR (valid_start (jget ev ''start_ns'')) (\<lambda>start.
     bindR (checked_identifier (jget ev ''clock_id'') ''clock'') (\<lambda>clock.
     bindR (valid_path (dict_get ev ''semantic_path'' (JList []))) (\<lambda>path.
     bindR (valid_parent (jget ev ''parent_id'')) (\<lambda>parent.
     bindR (valid_links (dict_get ev ''links'' (JList []))) (\<lambda>links.
     bindR (mapR (related_check rows (a, s, t) parent) ((case parent of None \<Rightarrow> [] | Some p \<Rightarrow> [JStr p]) @ links)) (\<lambda>_.
     bindR (valid_label ev ''turn_id'') (\<lambda>turn.
     bindR (valid_label ev ''parallel_group'') (\<lambda>group.
     bindR (valid_label ev ''loop_id'') (\<lambda>loop.
     bindR (valid_label ev ''model'') (\<lambda>model.
     bindR (valid_iteration (jget ev ''iteration'')) (\<lambda>iteration.
     bindR (checkR (kind = ''phase'' \<longrightarrow> name \<in> set PHASES) (WorkspaceError ''unknown timing phase'')) (\<lambda>_.
     Inr \<lparr>sp_agent = a, sp_session = s, sp_trace = t, sp_span = sp, sp_parent = parent, sp_kind = kind, sp_name = name,
          sp_start = start, sp_clock = clock, sp_turn = turn, sp_group = group, sp_loop = loop,
          sp_iteration = iteration, sp_model = model, sp_input = jget ev ''input'',
          sp_links = map (\<lambda>l. the (opt_str l)) links, sp_path = path, sp_status = ''running'', sp_end = None, sp_duration = None,
          sp_metrics = [], sp_source = ''framework-sdk'', sp_run = None, sp_result = JNull, sp_error = JNull\<rparr>)))))))))))))))"

section \<open>One event\<close>

definition valid_metrics :: "json \<Rightarrow> jdict res" where
  "valid_metrics v = (case v of
      JObj d \<Rightarrow> bindR (mapR (\<lambda>(k, x). bindR (checkR (k \<noteq> []) (WorkspaceError ''invalid metric name'')) (\<lambda>_. number x k)) d) (\<lambda>_. Inr d)
    | _ \<Rightarrow> Inl (WorkspaceError ''metrics must be an object''))"

definition end_time :: "span \<Rightarrow> json \<Rightarrow> int res" where
  "end_time row v = (case v of
      JInt i \<Rightarrow> if i < sp_start row then Inl (WorkspaceError ''invalid monotonic end time'') else Inr i
    | _ \<Rightarrow> Inl (WorkspaceError ''invalid monotonic end time''))"

definition end_status :: "json \<Rightarrow> string res" where
  "end_status v = (case v of
      JStr t \<Rightarrow> if t \<in> set [''ok'', ''error'', ''cancelled''] then Inr t else Inl (WorkspaceError ''invalid span status'')
    | _ \<Rightarrow> Inl (WorkspaceError ''invalid span status''))"

definition end_span :: "span \<Rightarrow> jdict \<Rightarrow> string \<Rightarrow> string option \<Rightarrow> span res" where
  "end_span row ev source run =
     bindR (checkR (sp_status row = ''running'') (WorkspaceError ''duplicate span end'')) (\<lambda>_.
     bindR (checkR (sp_source row = source) (WorkspaceError ''span source mismatch'')) (\<lambda>_.
     bindR (checkR (source = ''session-sdk'' \<longrightarrow> sp_run row = run) (WorkspaceError ''span process run mismatch'')) (\<lambda>_.
     bindR (end_time row (jget ev ''end_ns'')) (\<lambda>ended.
     bindR (checkR (jget ev ''clock_id'' = JStr (sp_clock row)) (WorkspaceError ''span clocks differ'')) (\<lambda>_.
     bindR (end_status (jget ev ''status'')) (\<lambda>status.
     bindR (valid_metrics (dict_get ev ''metrics'' (JObj []))) (\<lambda>metrics.
     Inr (row\<lparr>sp_end := Some ended, sp_duration := Some (ended - sp_start row), sp_status := status,
        sp_result := jget ev ''result'', sp_error := jget ev ''error_type'', sp_metrics := metrics\<rparr>))))))))"

text \<open>The statements of the transaction; \<open>mx\<close> is the span limit.\<close>

definition apply_event :: "int \<Rightarrow> span list \<Rightarrow> spkey \<Rightarrow> jdict \<Rightarrow> string \<Rightarrow> string option \<Rightarrow> span list res" where
  "apply_event mx rows k ev source run = (let found = select_span rows k in
       if jget ev ''event'' = JStr ''start'' then
         bindR (checkR (found = None) (WorkspaceError ''duplicate span start'')) (\<lambda>_.
         bindR (checkR (int (count_trace rows (fst k, fst (snd k), fst (snd (snd k)))) < mx) (WorkspaceError ''trace span limit exceeded'')) (\<lambda>_.
         bindR (validate_span_start rows k ev) (\<lambda>row.
         Inr (rows @ [row\<lparr>sp_source := source, sp_run := run\<rparr>]))))
       else if jget ev ''event'' = JStr ''end'' then
         (case found of
            None \<Rightarrow> Inl (WorkspaceError ''span end has no start'')
          | Some row \<Rightarrow> bindR (end_span row ev source run) (\<lambda>row'. Inr (update_span rows k row')))
       else Inl (WorkspaceError ''event must be start or end''))"

text \<open>
  \<open>_ingest\<close>: the checks, the rows it leaves and the answer; \<open>sz\<close> is the size in bytes of an encoded
  value.
\<close>

definition ingest_rows :: "(json \<Rightarrow> int) \<Rightarrow> int \<Rightarrow> span list \<Rightarrow> json \<Rightarrow> json \<Rightarrow> json \<Rightarrow> string \<Rightarrow> string option \<Rightarrow> (span list \<times> json) res" where
  "ingest_rows sz mx rows agent session ev source run =
     bindR (checked_identifier agent ''agent'') (\<lambda>a.
     bindR (checked_identifier session ''session'') (\<lambda>s.
     case ev of
       JObj d \<Rightarrow>
         bindR (checkR (encodable ev) (WorkspaceError ''event must contain finite JSON data'')) (\<lambda>_.
         bindR (checkR (sz ev \<le> 65536) (WorkspaceError ''event exceeds 64 KiB'')) (\<lambda>_.
         bindR (checked_identifier (jget d ''trace_id'') ''trace'') (\<lambda>t.
         bindR (checked_identifier (jget d ''span_id'') ''span'') (\<lambda>sp.
         bindR (apply_event mx rows (a, s, t, sp) d source run) (\<lambda>rows'.
         Inr (rows', JObj [(''accepted'', JBool True), (''trace_id'', JStr t), (''span_id'', JStr sp)]))))))
     | _ \<Rightarrow> Inl (WorkspaceError ''event must be an object'')))"

section \<open>The store\<close>

record tstore =
  ts_rows :: "span list"
  ts_max :: int
  ts_accepted :: int
  ts_rejected :: int
  ts_transactions :: int
  ts_collector_ns :: int

text \<open>
  \<open>fault\<close> is the error the commit of the transaction ends in, if it does: the connection then rolls
  the transaction back. \<open>dt\<close> is the time the call takes on the performance counter.
\<close>

definition ingest_single :: "(json \<Rightarrow> int) \<Rightarrow> error option \<Rightarrow> int \<Rightarrow> json \<Rightarrow> json \<Rightarrow> json \<Rightarrow> string \<Rightarrow> string option \<Rightarrow> (tstore, json) op" where
  "ingest_single sz fault dt agent session ev source run st =
     (case ingest_rows sz (ts_max st) (ts_rows st) agent session ev source run of
        Inl e \<Rightarrow> (Inl e, st\<lparr>ts_rejected := ts_rejected st + 1, ts_collector_ns := ts_collector_ns st + dt\<rparr>)
      | Inr (rows, ack) \<Rightarrow> (case fault of
            Some e \<Rightarrow> (Inl e, st\<lparr>ts_rejected := ts_rejected st + 1, ts_collector_ns := ts_collector_ns st + dt\<rparr>)
          | None \<Rightarrow> (Inr ack, st\<lparr>ts_rows := rows, ts_accepted := ts_accepted st + 1, ts_transactions := ts_transactions st + 1,
               ts_collector_ns := ts_collector_ns st + dt\<rparr>)))"

text \<open>The loop of \<open>ingest_batch\<close> inside its transaction.\<close>

fun ingest_each :: "(json \<Rightarrow> int) \<Rightarrow> int \<Rightarrow> json \<Rightarrow> json \<Rightarrow> string \<Rightarrow> string option \<Rightarrow> json list \<Rightarrow> span list \<Rightarrow> span list res" where
  "ingest_each sz mx agent session source run [] rows = Inr rows"
| "ingest_each sz mx agent session source run (ev # evs) rows =
     bindR (ingest_rows sz mx rows agent session ev source run) (\<lambda>(rows', _).
     ingest_each sz mx agent session source run evs rows')"

text \<open>A value that cannot be hashed raises \<open>TypeError\<close> in the test for membership.\<close>

definition bad_batch :: error where
  "bad_batch = WorkspaceError ''batch contains an invalid event''"

definition batch_event :: "json \<Rightarrow> unit res" where
  "batch_event e = (case e of
      JObj d \<Rightarrow>
        if \<not> hashable (jget d ''event'') then Inl TypeError
        else checkR (jget d ''event'' \<in> set [JStr ''start'', JStr ''end'']) bad_batch
    | _ \<Rightarrow> Inl bad_batch)"

definition batch_events :: "(json \<Rightarrow> int) \<Rightarrow> jdict \<Rightarrow> json list res" where
  "batch_events sz envelope =
     bindR (case jget envelope ''events'' of
         JList evs \<Rightarrow> if set (dict_keys envelope) = set [''event'', ''events''] \<and> 1 \<le> length evs \<and> length evs \<le> 64 then Inr evs
           else Inl (WorkspaceError ''batch requires 1..64 events'')
       | _ \<Rightarrow> Inl (WorkspaceError ''batch requires 1..64 events'')) (\<lambda>evs.
     bindR (checkR (encodable (JObj envelope)) (WorkspaceError ''batch must contain finite JSON data'')) (\<lambda>_.
     bindR (checkR (sz (JObj envelope) \<le> 65536) (WorkspaceError ''batch exceeds 64 KiB'')) (\<lambda>_.
     bindR (mapR batch_event evs) (\<lambda>_.
     Inr evs))))"

definition ingest_batch :: "(json \<Rightarrow> int) \<Rightarrow> error option \<Rightarrow> int \<Rightarrow> json \<Rightarrow> json \<Rightarrow> jdict \<Rightarrow> string \<Rightarrow> string option \<Rightarrow> (tstore, json) op" where
  "ingest_batch sz fault dt agent session envelope source run st =
     (case batch_events sz envelope of
        Inl e \<Rightarrow> (Inl e, st)
      | Inr evs \<Rightarrow>
          (case bindR (ingest_each sz (ts_max st) agent session source run evs (ts_rows st))
             (\<lambda>rows. case fault of Some e \<Rightarrow> Inl e | None \<Rightarrow> Inr rows) of
             Inl e \<Rightarrow> (Inl e, st\<lparr>ts_rejected := ts_rejected st + int (length evs), ts_collector_ns := ts_collector_ns st + dt\<rparr>)
           | Inr rows \<Rightarrow> (Inr (JObj [(''accepted'', JBool True), (''event_count'', JInt (int (length evs))), (''durable'', JBool True)]),
               st\<lparr>ts_rows := rows, ts_accepted := ts_accepted st + int (length evs), ts_transactions := ts_transactions st + 1,
                  ts_collector_ns := ts_collector_ns st + dt\<rparr>)))"

definition ingest :: "(json \<Rightarrow> int) \<Rightarrow> error option \<Rightarrow> int \<Rightarrow> json \<Rightarrow> json \<Rightarrow> json \<Rightarrow> string \<Rightarrow> string option \<Rightarrow> (tstore, json) op" where
  "ingest sz fault dt agent session ev source run =
     (case ev of
        JObj d \<Rightarrow> if jget d ''event'' = JStr ''batch'' then ingest_batch sz fault dt agent session d source run
          else ingest_single sz fault dt agent session ev source run
      | _ \<Rightarrow> ingest_single sz fault dt agent session ev source run)"

definition query_spans :: "tstore \<Rightarrow> json \<Rightarrow> json \<Rightarrow> json \<Rightarrow> span list res" where
  "query_spans st agent session trace =
     bindR (checked_identifier agent ''agent'') (\<lambda>a.
     bindR (checked_identifier session ''session'') (\<lambda>s.
     bindR (if trace = JNull then Inr None else bindR (checked_identifier trace ''trace'') (\<lambda>t. Inr (Some t))) (\<lambda>t.
     let rows = take (nat (ts_max st + 1)) (filter (\<lambda>r. sp_agent r = a \<and> sp_session r = s \<and> (t = None \<or> t = Some (sp_trace r))) (ts_rows st)) in
     if ts_max st < int (length rows) then Inl (WorkspaceError ''query exceeds span limit; select one trace'') else Inr rows)))"

definition ts_init :: "span list \<Rightarrow> int \<Rightarrow> tstore" where
  "ts_init rows mx = \<lparr>ts_rows = rows, ts_max = mx, ts_accepted = 0, ts_rejected = 0, ts_transactions = 0, ts_collector_ns = 0\<rparr>"

definition ts_status :: "int \<Rightarrow> tstore \<Rightarrow> json" where
  "ts_status bytes st = JObj [(''accepted_events_this_process'', JInt (ts_accepted st)), (''rejected_events_this_process'', JInt (ts_rejected st)),
     (''collector_ns_this_process'', JInt (ts_collector_ns st)), (''storage_bytes'', JInt bytes),
     (''delivery'', JStr ''synchronous-acknowledged''), (''event_loss_rate'', JNull),
     (''committed_transactions_this_process'', JInt (ts_transactions st)),
     (''event_loss_note'', JStr ''no claim about events never submitted by a producer'')]"

section \<open>Well-formed rows\<close>

definition related :: "span \<Rightarrow> string list" where
  "related r = (case sp_parent r of None \<Rightarrow> [] | Some p \<Rightarrow> [p]) @ sp_links r"

definition metrics_ok :: "jdict \<Rightarrow> bool" where
  "metrics_ok m = list_all (\<lambda>(k, v). k \<noteq> [] \<and> (case v of JInt i \<Rightarrow> 0 \<le> i | JFloat (Finite q) \<Rightarrow> 0 \<le> q | _ \<Rightarrow> False)) m"

definition span_open :: "span \<Rightarrow> bool" where
  "span_open r = (sp_status r = ''running'' \<and> sp_end r = None \<and> sp_duration r = None \<and> sp_metrics r = [])"

definition span_ended :: "span \<Rightarrow> bool" where
  "span_ended r = (sp_status r \<in> {''ok'', ''error'', ''cancelled''} \<and> metrics_ok (sp_metrics r) \<and>
     (case sp_end r of None \<Rightarrow> False | Some e \<Rightarrow> sp_start r \<le> e \<and> sp_duration r = Some (e - sp_start r)))"

definition span_typed :: "span \<Rightarrow> bool" where
  "span_typed r = (list_all ID_RE_fullmatch ([sp_agent r, sp_session r, sp_trace r, sp_span r, sp_clock r] @ related r) \<and>
     sp_kind r \<in> set KINDS \<and> (sp_kind r = ''phase'' \<longrightarrow> sp_name r \<in> set PHASES) \<and> sp_name r \<noteq> [] \<and> length (sp_name r) \<le> 256 \<and>
     0 \<le> sp_start r \<and> length (sp_path r) \<le> 32 \<and> length (sp_links r) \<le> 128)"

definition causal :: "span list \<Rightarrow> bool" where
  "causal rows = (\<forall>xs r ys. rows = xs @ r # ys \<longrightarrow> (\<forall>rel \<in> set (related r). \<exists>q \<in> set xs. trace_of q = trace_of r \<and> sp_span q = rel))"

definition wf_rows :: "int \<Rightarrow> span list \<Rightarrow> bool" where
  "wf_rows mx rows = (distinct (map key_of rows) \<and> (\<forall>r \<in> set rows. span_typed r \<and> (span_open r \<or> span_ended r)) \<and>
     causal rows \<and> (\<forall>t. int (count_trace rows t) \<le> mx))"

lemma select_span_Some: "select_span rows k = Some r \<Longrightarrow> r \<in> set rows \<and> key_of r = k"
  by (auto simp: select_span_def find_Some_iff)

lemma select_span_None: "select_span rows k = None \<longleftrightarrow> k \<notin> set (map key_of rows)"
  by (auto simp: select_span_def find_None_iff)

lemma checked_identifier_Inr [simp]: "checked_identifier v label = Inr x \<longleftrightarrow> v = JStr x \<and> ID_RE_fullmatch x"
  by (cases v) auto

lemma related_check_Inr:
  "related_check rows (a, s, t) parent v = Inr rel \<longleftrightarrow> v = JStr rel \<and> ID_RE_fullmatch rel \<and>
     (\<exists>q. select_span rows (a, s, t, rel) = Some q \<and> (Some rel = parent \<longrightarrow> sp_status q = ''running''))"
  by (auto simp: related_check_def bindR_eq_Inr split: option.splits if_splits)

lemma mapR_set: "mapR f xs = Inr ys \<Longrightarrow> x \<in> set xs \<Longrightarrow> \<exists>y. f x = Inr y"
  by (induction xs arbitrary: ys) (auto simp: bindR_eq_Inr)

lemma valid_metrics_ok: "valid_metrics v = Inr m \<Longrightarrow> metrics_ok m"
proof -
  assume "valid_metrics v = Inr m"
  then obtain ys where ys: "mapR (\<lambda>(k, x). bindR (checkR (k \<noteq> []) (WorkspaceError ''invalid metric name'')) (\<lambda>_. number x k)) m = Inr ys"
    by (auto simp: valid_metrics_def bindR_eq_Inr split: json.splits)
  have "k \<noteq> [] \<and> (case x of JInt i \<Rightarrow> 0 \<le> i | JFloat (Finite q) \<Rightarrow> 0 \<le> q | _ \<Rightarrow> False)" if mem: "(k, x) \<in> set m" for k x
  proof -
    obtain y where "k \<noteq> []" "number x k = Inr y" using mapR_set [OF ys mem] by (auto simp: bindR_eq_Inr)
    then show ?thesis by (cases "(x, k)" rule: number.cases) (auto split: if_splits)
  qed
  then show ?thesis by (auto simp: metrics_ok_def list_all_iff)
qed

lemma end_span_Inr:
  assumes "end_span row d source run = Inr row'"
  shows "sp_status row = ''running'' \<and> span_ended row' \<and> key_of row' = key_of row \<and> trace_of row' = trace_of row \<and>
    sp_start row' = sp_start row \<and> related row' = related row \<and> (span_typed row' \<longleftrightarrow> span_typed row)"
proof -
  obtain ended status m where *: "sp_status row = ''running''" "end_time row (jget d ''end_ns'') = Inr ended"
    "end_status (jget d ''status'') = Inr status" "valid_metrics (dict_get d ''metrics'' (JObj [])) = Inr m"
    "row' = row\<lparr>sp_end := Some ended, sp_duration := Some (ended - sp_start row), sp_status := status,
        sp_result := jget d ''result'', sp_error := jget d ''error_type'', sp_metrics := m\<rparr>"
    using assms by (auto simp: end_span_def bindR_eq_Inr)
  have "sp_start row \<le> ended" "status \<in> {''ok'', ''error'', ''cancelled''}"
    using *(2,3) by (auto simp: end_time_def end_status_def split: json.splits if_splits)
  with * show ?thesis using valid_metrics_ok [OF *(4)]
    by (simp add: span_ended_def key_of_def trace_of_def related_def span_typed_def)
qed

lemma field_bounds:
  "valid_kind v = Inr k \<Longrightarrow> k \<in> set KINDS" "valid_name v = Inr n \<Longrightarrow> n \<noteq> []" "valid_name v = Inr n \<Longrightarrow> length n \<le> 256"
  "valid_start v = Inr i \<Longrightarrow> 0 \<le> i" "valid_path v = Inr p \<Longrightarrow> length p \<le> 32" "valid_links v = Inr l \<Longrightarrow> length l \<le> 128"
  by (cases v; auto simp: valid_kind_def valid_name_def valid_start_def valid_path_def valid_links_def split: if_split_asm)+

lemma validate_span_start_Inr:
  assumes "validate_span_start rows (a, s, t, sp) d = Inr row"
  shows "key_of row = (a, s, t, sp) \<and> span_open row \<and> sp_kind row \<in> set KINDS \<and> (sp_kind row = ''phase'' \<longrightarrow> sp_name row \<in> set PHASES) \<and>
    sp_name row \<noteq> [] \<and> length (sp_name row) \<le> 256 \<and> 0 \<le> sp_start row \<and> length (sp_path row) \<le> 32 \<and> length (sp_links row) \<le> 128 \<and>
    ID_RE_fullmatch (sp_clock row) \<and>
    (\<forall>rel \<in> set (related row). ID_RE_fullmatch rel \<and> (a, s, t, rel) \<in> set (map key_of rows))"
proof -
  obtain kind name start clock path parent links rels turn group loop model iteration where
    parts: "valid_kind (jget d ''kind'') = Inr kind" "valid_name (jget d ''name'') = Inr name" "valid_start (jget d ''start_ns'') = Inr start"
      "ID_RE_fullmatch clock" "valid_path (dict_get d ''semantic_path'' (JList [])) = Inr path"
      "valid_links (dict_get d ''links'' (JList [])) = Inr links" "kind = ''phase'' \<longrightarrow> name \<in> set PHASES" and
    rels: "mapR (related_check rows (a, s, t) parent) ((case parent of None \<Rightarrow> [] | Some p \<Rightarrow> [JStr p]) @ links) = Inr rels" and
    row': "\<lparr>sp_agent = a, sp_session = s, sp_trace = t, sp_span = sp, sp_parent = parent, sp_kind = kind, sp_name = name,
          sp_start = start, sp_clock = clock, sp_turn = turn, sp_group = group, sp_loop = loop,
          sp_iteration = iteration, sp_model = model, sp_input = jget d ''input'',
          sp_links = map (\<lambda>l. the (opt_str l)) links, sp_path = path, sp_status = ''running'', sp_end = None, sp_duration = None,
          sp_metrics = [], sp_source = ''framework-sdk'', sp_run = None, sp_result = JNull, sp_error = JNull\<rparr> = row"
    using assms unfolding validate_span_start_def prod.case bindR_eq_Inr checkR_simps checked_identifier_Inr sum.inject
    by (elim exE conjE) (rule that; assumption)
  note row = row' [symmetric]
  let ?all = "(case parent of None \<Rightarrow> [] | Some p \<Rightarrow> [JStr p]) @ links"
  have each: "\<exists>rel. v = JStr rel \<and> ID_RE_fullmatch rel \<and> (a, s, t, rel) \<in> set (map key_of rows)" if "v \<in> set ?all" for v
    using mapR_set [OF rels that] select_span_Some by (force simp: related_check_Inr)
  have "related row = map (\<lambda>l. the (opt_str l)) ?all"
    by (cases parent) (simp_all add: related_def row opt_str_def)
  moreover have "ID_RE_fullmatch (the (opt_str v)) \<and> (a, s, t, the (opt_str v)) \<in> set (map key_of rows)" if "v \<in> set ?all" for v
    using each [OF that] unfolding opt_str_def by auto
  ultimately have rel: "\<forall>rel \<in> set (related row). ID_RE_fullmatch rel \<and> (a, s, t, rel) \<in> set (map key_of rows)"
    by auto
  have "length path \<le> 32" "length links \<le> 128" "kind \<in> set KINDS" "name \<noteq> []" "length name \<le> 256" "0 \<le> start"
    using field_bounds parts by blast+
  then show ?thesis using rel parts by (simp add: row key_of_def span_open_def)
qed

lemma ingest_rows_cases:
  assumes "ingest_rows sz mx rows agent session ev source run = Inr (rows', ack)"
  obtains (start) a s t sp d row where "agent = JStr a" "session = JStr s" "list_all ID_RE_fullmatch [a, s, t, sp]"
      "(a, s, t, sp) \<notin> set (map key_of rows)" "int (count_trace rows (a, s, t)) < mx"
      "validate_span_start rows (a, s, t, sp) d = Inr row" "rows' = rows @ [row\<lparr>sp_source := source, sp_run := run\<rparr>]"
  | (finish) d row row' where "row \<in> set rows" "end_span row d source run = Inr row'" "rows' = update_span rows (key_of row) row'"
proof -
  obtain d where ev: "ev = JObj d" using assms by (cases ev) (auto simp: ingest_rows_def bindR_eq_Inr)
  obtain a s t sp where basic: "agent = JStr a" "session = JStr s" "list_all ID_RE_fullmatch [a, s, t, sp]"
    and step: "apply_event mx rows (a, s, t, sp) d source run = Inr rows'"
    using assms unfolding ingest_rows_def ev json.case bindR_eq_Inr checked_identifier_Inr by auto
  consider "jget d ''event'' = JStr ''start''" | "jget d ''event'' = JStr ''end''" "jget d ''event'' \<noteq> JStr ''start''"
    using step by (auto simp: apply_event_def Let_def split: if_splits)
  then show thesis
  proof cases
    case 1
    then obtain row where "(a, s, t, sp) \<notin> set (map key_of rows)" "int (count_trace rows (a, s, t)) < mx"
      "validate_span_start rows (a, s, t, sp) d = Inr row" "rows' = rows @ [row\<lparr>sp_source := source, sp_run := run\<rparr>]"
      using step unfolding apply_event_def Let_def by (auto simp: bindR_eq_Inr select_span_None)
    with basic show thesis by (rule start)
  next
    case 2
    then obtain row row' where "select_span rows (a, s, t, sp) = Some row" "end_span row d source run = Inr row'"
      "rows' = update_span rows (a, s, t, sp) row'"
      using step by (auto simp: apply_event_def bindR_eq_Inr split: option.splits)
    with select_span_Some show thesis by (metis finish)
  qed
qed

lemma key_of_eq: "key_of q = (a, s, t, rel) \<longleftrightarrow> trace_of q = (a, s, t) \<and> sp_span q = rel"
  by (auto simp: key_of_def trace_of_def)

lemma update_span_map: "distinct (map key_of rows) \<Longrightarrow> row \<in> set rows \<Longrightarrow>
    update_span rows (key_of row) row' = map (\<lambda>r. if r = row then row' else r) rows"
  unfolding update_span_def by (intro map_cong refl) (metis distinct_map inj_onD)

lemma causal_append: "causal rows \<Longrightarrow> (\<forall>rel \<in> set (related r). \<exists>q \<in> set rows. trace_of q = trace_of r \<and> sp_span q = rel) \<Longrightarrow> causal (rows @ [r])"
  unfolding causal_def
proof (intro allI impI)
  fix xs r' ys
  assume old: "\<forall>xs r ys. rows = xs @ r # ys \<longrightarrow> (\<forall>rel \<in> set (related r). \<exists>q \<in> set xs. trace_of q = trace_of r \<and> sp_span q = rel)"
    and new: "\<forall>rel \<in> set (related r). \<exists>q \<in> set rows. trace_of q = trace_of r \<and> sp_span q = rel" and eq: "rows @ [r] = xs @ r' # ys"
  show "\<forall>rel \<in> set (related r'). \<exists>q \<in> set xs. trace_of q = trace_of r' \<and> sp_span q = rel"
  proof (cases ys rule: rev_cases)
    case Nil
    then show ?thesis using eq new by simp
  next
    case (snoc zs z)
    then have "rows = xs @ r' # zs" using eq by simp
    then show ?thesis using old by blast
  qed
qed

lemma causal_map:
  assumes "causal rows" and "\<And>r. r \<in> set rows \<Longrightarrow> related (f r) = related r \<and> trace_of (f r) = trace_of r \<and> sp_span (f r) = sp_span r"
  shows "causal (map f rows)"
  unfolding causal_def
proof (intro allI impI ballI)
  fix xs r' ys rel
  assume eq: "map f rows = xs @ r' # ys" and rel: "rel \<in> set (related r')"
  obtain as r bs where split: "rows = as @ r # bs" "xs = map f as" "r' = f r"
    using eq by (auto simp: map_eq_append_conv)
  have same: "related (f r) = related r \<and> trace_of (f r) = trace_of r" using assms(2) split(1) by simp
  then have "rel \<in> set (related r)" using rel split(3) by simp
  then obtain q where q: "q \<in> set as" "trace_of q = trace_of r" "sp_span q = rel"
    using assms(1) split(1) unfolding causal_def by blast
  then have "trace_of (f q) = trace_of r \<and> sp_span (f q) = rel" using assms(2) [of q] split(1) by simp
  then show "\<exists>q \<in> set xs. trace_of q = trace_of r' \<and> sp_span q = rel" using q(1) same unfolding split(2,3) by auto
qed

lemma count_append: "count_trace (rows @ [r]) t = count_trace rows t + (if trace_of r = t then 1 else 0)"
  by (simp add: count_trace_def)

lemma count_map: "(\<And>r. r \<in> set rows \<Longrightarrow> trace_of (f r) = trace_of r) \<Longrightarrow> count_trace (map f rows) t = count_trace rows t"
  unfolding count_trace_def by (induction rows) auto

lemma ingest_rows_wf:
  assumes "wf_rows mx rows" and "ingest_rows sz mx rows agent session ev source run = Inr (rows', ack)"
  shows "wf_rows mx rows'"
  using assms(2)
proof (cases rule: ingest_rows_cases)
  case (start a s t sp d row)
  let ?r = "row\<lparr>sp_source := source, sp_run := run\<rparr>"
  note v = validate_span_start_Inr [OF start(6)]
  have key: "key_of ?r = (a, s, t, sp)" "trace_of ?r = (a, s, t)" "related ?r = related row"
    using v by (auto simp: key_of_def trace_of_def related_def)
  have "\<forall>rel \<in> set (related ?r). \<exists>q \<in> set rows. trace_of q = trace_of ?r \<and> sp_span q = rel"
  proof
    fix rel
    assume "rel \<in> set (related ?r)"
    then obtain q where "q \<in> set rows" "key_of q = (a, s, t, rel)" using v unfolding key(3) by force
    then show "\<exists>q \<in> set rows. trace_of q = trace_of ?r \<and> sp_span q = rel" unfolding key(2) key_of_eq by blast
  qed
  then have "causal (rows @ [?r])" using assms(1) by (intro causal_append) (simp_all add: wf_rows_def)
  moreover have "span_typed ?r \<and> span_open ?r"
    using v start(3) by (auto simp: span_typed_def span_open_def key_of_def related_def list_all_iff)
  moreover have "int (count_trace (rows @ [?r]) t') \<le> mx" for t'
  proof -
    have "int (count_trace rows t') \<le> mx" using assms(1) unfolding wf_rows_def by blast
    then show ?thesis using start(5) key(2) by (cases "t' = (a, s, t)") (auto simp: count_append)
  qed
  ultimately show ?thesis using assms(1) start(4) key(1) by (simp add: wf_rows_def start(7))
next
  case (finish d row row')
  note e = end_span_Inr [OF finish(2)]
  let ?f = "\<lambda>r. if r = row then row' else r"
  have rows': "rows' = map ?f rows" using assms(1) finish by (simp add: update_span_map wf_rows_def)
  have "map key_of rows' = map key_of rows" using e by (simp add: rows')
  moreover have "causal rows'" unfolding rows' using e assms(1)
    by (intro causal_map) (auto simp: wf_rows_def key_of_def)
  moreover have "count_trace rows' t = count_trace rows t" for t unfolding rows' using e by (intro count_map) auto
  moreover have "span_typed r \<and> (span_open r \<or> span_ended r)" if "r \<in> set rows'" for r
    using that assms(1) e finish(1) by (auto simp: rows' wf_rows_def)
  ultimately show ?thesis using assms(1) by (simp add: wf_rows_def)
qed

lemma ingest_each_wf: "wf_rows mx rows \<Longrightarrow> ingest_each sz mx agent session source run evs rows = Inr rows' \<Longrightarrow> wf_rows mx rows'"
proof (induction evs arbitrary: rows)
  case (Cons ev evs)
  then show ?case by (auto simp: bindR_eq_Inr dest: ingest_rows_wf)
qed simp

text \<open>What a call can do to the table: nothing, or the events it carries, one after the other.\<close>

definition call_events :: "json \<Rightarrow> json list" where
  "call_events ev = (case ev of
      JObj d \<Rightarrow> if jget d ''event'' = JStr ''batch'' then (case jget d ''events'' of JList l \<Rightarrow> l | _ \<Rightarrow> []) else [ev]
    | _ \<Rightarrow> [ev])"

lemma batch_events_Inr: "batch_events sz d = Inr evs \<Longrightarrow> jget d ''events'' = JList evs \<and> 1 \<le> length evs \<and> length evs \<le> 64"
  by (auto simp: batch_events_def bindR_eq_Inr split: json.splits if_splits)

lemma ingest_single_cases:
  assumes "ingest_single sz fault dt agent session ev source run st = (r, st')"
  obtains e where "r = Inl e" "ts_rows st' = ts_rows st" "ts_accepted st' = ts_accepted st" "ts_transactions st' = ts_transactions st"
      "ts_rejected st' = ts_rejected st + 1"
  | ack rows where "r = Inr ack" "fault = None" "ingest_rows sz (ts_max st) (ts_rows st) agent session ev source run = Inr (rows, ack)"
      "ts_rows st' = rows" "ts_accepted st' = ts_accepted st + 1" "ts_transactions st' = ts_transactions st + 1" "ts_rejected st' = ts_rejected st"
  using assms by (auto simp: ingest_single_def split: sum.splits option.splits prod.splits)

lemma ingest_batch_cases:
  assumes "ingest_batch sz fault dt agent session d source run st = (r, st')"
  obtains e where "r = Inl e" "ts_rows st' = ts_rows st" "ts_accepted st' = ts_accepted st" "ts_transactions st' = ts_transactions st"
      "ts_rejected st' = ts_rejected st + (case batch_events sz d of Inl _ \<Rightarrow> 0 | Inr evs \<Rightarrow> int (length evs))"
  | ack evs where "r = Inr ack" "fault = None" "batch_events sz d = Inr evs"
      "ingest_each sz (ts_max st) agent session source run evs (ts_rows st) = Inr (ts_rows st')"
      "ts_accepted st' = ts_accepted st + int (length evs)" "ts_transactions st' = ts_transactions st + 1" "ts_rejected st' = ts_rejected st"
  using assms by (auto simp: ingest_batch_def bindR_def split: sum.splits option.splits)

lemma ingest_effect:
  assumes "ingest sz fault dt agent session ev source run st = (r, st')"
  shows "ts_rows st' = ts_rows st \<or>
    ingest_each sz (ts_max st) agent session source run (call_events ev) (ts_rows st) = Inr (ts_rows st')"
proof (cases "\<exists>d. ev = JObj d \<and> jget d ''event'' = JStr ''batch''")
  case True
  then obtain d where d: "ev = JObj d" "jget d ''event'' = JStr ''batch''" by blast
  then have "ingest_batch sz fault dt agent session d source run st = (r, st')" using assms by (simp add: ingest_def)
  then show ?thesis using d batch_events_Inr by (cases rule: ingest_batch_cases) (auto simp: call_events_def)
next
  case False
  then have "ingest_single sz fault dt agent session ev source run st = (r, st')" "call_events ev = [ev]"
    using assms by (auto simp: ingest_def call_events_def split: json.splits if_splits)
  then show ?thesis by (cases rule: ingest_single_cases [consumes 1]) (auto simp: bindR_def)
qed

lemma ingest_max: "ts_max (snd (ingest sz fault dt agent session ev source run st)) = ts_max st"
  by (simp add: ingest_def ingest_single_def ingest_batch_def split: json.split sum.split option.split prod.split)

text \<open>The calls a collector receives, with what the database and the clock do during each.\<close>

record icall =
  ic_fault :: "error option"
  ic_time :: int
  ic_agent :: json
  ic_session :: json
  ic_event :: json
  ic_source :: string
  ic_run :: "string option"

definition run_icall :: "(json \<Rightarrow> int) \<Rightarrow> icall \<Rightarrow> tstore \<Rightarrow> tstore" where
  "run_icall sz c st = snd (ingest sz (ic_fault c) (ic_time c) (ic_agent c) (ic_session c) (ic_event c) (ic_source c) (ic_run c) st)"

definition run_icalls :: "(json \<Rightarrow> int) \<Rightarrow> icall list \<Rightarrow> tstore \<Rightarrow> tstore" where
  "run_icalls sz cs st = fold (run_icall sz) cs st"

lemma run_icall_max: "ts_max (run_icall sz c st) = ts_max st"
  by (simp add: run_icall_def ingest_max)

lemma run_icall_effect:
  "ts_rows (run_icall sz c st) = ts_rows st \<or>
   ingest_each sz (ts_max st) (ic_agent c) (ic_session c) (ic_source c) (ic_run c) (call_events (ic_event c)) (ts_rows st) =
     Inr (ts_rows (run_icall sz c st))"
  unfolding run_icall_def by (rule ingest_effect) (rule prod.collapse [symmetric])

lemma run_icalls_wf:
  "wf_rows (ts_max st) (ts_rows st) \<Longrightarrow> ts_max (run_icalls sz cs st) = ts_max st \<and> wf_rows (ts_max st) (ts_rows (run_icalls sz cs st))"
  unfolding run_icalls_def
proof (induction cs arbitrary: st)
  case (Cons c cs)
  have "wf_rows (ts_max st) (ts_rows (run_icall sz c st))"
    using run_icall_effect [of sz c st] Cons.prems ingest_each_wf by metis
  then show ?case using Cons.IH [of "run_icall sz c st"] run_icall_max by simp
qed simp

section \<open>Properties\<close>

text \<open>
  C30. Whatever sequence of single and batched events reaches the collector, accepted, refused or cut off
  by the database, its table stays well-formed: keys are unique; every row passes the limits of its
  fields; a row is either running, without end and metrics, or ended, at or after its start, with the
  difference as its duration and nonnegative metrics; a parent or link names an earlier row of the
  same trace, so causes never form a cycle; and no trace exceeds the span limit.
\<close>

theorem stored_spans_wellformed:
  assumes "0 \<le> mx"
  shows "wf_rows mx (ts_rows (run_icalls sz cs (ts_init [] mx)))"
proof -
  have "wf_rows (ts_max (ts_init [] mx)) (ts_rows (ts_init [] mx))" using assms by (simp add: wf_rows_def ts_init_def causal_def count_trace_def)
  then show ?thesis using run_icalls_wf by (fastforce simp: ts_init_def)
qed

lemma ingest_event_single: "batch_event ev = Inr u \<Longrightarrow> ingest sz fault dt agent session ev source run = ingest_single sz fault dt agent session ev source run"
  by (auto simp: ingest_def batch_event_def split: json.splits if_splits)

text \<open>The events of a batch sent one by one, each in a transaction of its own that commits.\<close>

definition one_by_one :: "(json \<Rightarrow> int) \<Rightarrow> json \<Rightarrow> json \<Rightarrow> string \<Rightarrow> string option \<Rightarrow> json list \<Rightarrow> tstore \<Rightarrow> tstore" where
  "one_by_one sz agent session source run evs st = fold (\<lambda>ev s. snd (ingest sz None 0 agent session ev source run s)) evs st"

lemma one_by_one_Cons:
  assumes "batch_event ev = Inr u"
  shows "one_by_one sz agent session source run (ev # evs) st =
    one_by_one sz agent session source run evs (snd (ingest_single sz None 0 agent session ev source run st))"
  by (simp add: one_by_one_def ingest_event_single [OF assms])

lemma one_by_one_rejected:
  "\<forall>ev \<in> set evs. \<exists>u. batch_event ev = Inr u \<Longrightarrow> ts_rejected st \<le> ts_rejected (one_by_one sz agent session source run evs st)"
proof (induction evs arbitrary: st)
  case (Cons ev evs)
  obtain r st' where step: "ingest_single sz None 0 agent session ev source run st = (r, st')" by (cases "ingest_single sz None 0 agent session ev source run st")
  then have "ts_rejected st \<le> ts_rejected st'" by (cases rule: ingest_single_cases) auto
  also have "\<dots> \<le> ts_rejected (one_by_one sz agent session source run evs st')" using Cons by simp
  finally show ?case using Cons.prems one_by_one_Cons step by (metis list.set_intros(1) snd_conv)
qed (simp add: one_by_one_def)

lemma one_by_one_each:
  assumes "\<forall>ev \<in> set evs. \<exists>u. batch_event ev = Inr u"
  shows "case ingest_each sz (ts_max st) agent session source run evs (ts_rows st) of
      Inl e \<Rightarrow> ts_rejected st < ts_rejected (one_by_one sz agent session source run evs st)
    | Inr rows \<Rightarrow> ts_rows (one_by_one sz agent session source run evs st) = rows \<and>
        ts_accepted (one_by_one sz agent session source run evs st) = ts_accepted st + int (length evs) \<and>
        ts_rejected (one_by_one sz agent session source run evs st) = ts_rejected st"
  using assms
proof (induction evs arbitrary: st)
  case Nil
  then show ?case by (simp add: one_by_one_def)
next
  case (Cons ev evs)
  obtain u where ev: "batch_event ev = Inr u" using Cons.prems by auto
  obtain r st' where step: "ingest_single sz None 0 agent session ev source run st = (r, st')" by (cases "ingest_single sz None 0 agent session ev source run st")
  have mx: "ts_max st' = ts_max st" using ingest_max [of sz None 0 agent session ev source run st] step ingest_event_single [OF ev] by simp
  note rest = one_by_one_Cons [OF ev, of sz agent session source run evs st, unfolded step snd_conv]
  show ?case
  proof (cases "ingest_rows sz (ts_max st) (ts_rows st) agent session ev source run")
    case (Inl e)
    then have "ts_rejected st' = ts_rejected st + 1" using step by (auto simp: ingest_single_def)
    moreover have "ts_rejected st' \<le> ts_rejected (one_by_one sz agent session source run evs st')" using one_by_one_rejected Cons.prems by simp
    ultimately show ?thesis by (simp add: Inl rest)
  next
    case (Inr p)
    then have st': "ts_rows st' = fst p" "ts_accepted st' = ts_accepted st + 1" "ts_rejected st' = ts_rejected st"
      using step by (auto simp: ingest_single_def split: prod.splits)
    have "\<forall>ev \<in> set evs. \<exists>u. batch_event ev = Inr u" using Cons.prems by simp
    from Cons.IH [OF this, of st'] show ?thesis
      by (simp add: Inr rest st' mx split_beta split: sum.splits)
  qed
qed

lemma batch_events_each: "batch_events sz d = Inr evs \<Longrightarrow> \<forall>ev \<in> set evs. \<exists>u. batch_event ev = Inr u"
  by (auto simp: batch_events_def bindR_eq_Inr dest: mapR_set)

text \<open>
  C31. A batch is all or nothing, and equivalent to its events sent one by one: when it is accepted, the
  rows and the count of accepted events are those of the single events, none of which is refused; when
  it is refused, no row is stored and no event counts as accepted; and when the database commits, it is
  refused only if one of the single events would be.
\<close>

theorem batch_is_atomic:
  assumes "batch_events sz d = Inr evs" and "ingest_batch sz fault dt agent session d source run st = (r, st')"
  shows "case r of
      Inr ack \<Rightarrow> ts_rows st' = ts_rows (one_by_one sz agent session source run evs st) \<and>
        ts_accepted st' = ts_accepted (one_by_one sz agent session source run evs st) \<and>
        ts_rejected (one_by_one sz agent session source run evs st) = ts_rejected st
    | Inl e \<Rightarrow> ts_rows st' = ts_rows st \<and> ts_accepted st' = ts_accepted st \<and> ts_transactions st' = ts_transactions st \<and>
        (fault = None \<longrightarrow> ts_rejected st < ts_rejected (one_by_one sz agent session source run evs st))"
  using one_by_one_each [OF batch_events_each [OF assms(1)], where sz = sz and st = st and agent = agent and session = session and source = source and run = run] assms
  by (auto simp: ingest_batch_def bindR_def split: sum.splits option.splits)

text \<open>How a row may change over time.\<close>

definition evolved :: "span \<Rightarrow> span \<Rightarrow> bool" where
  "evolved r r' = (key_of r' = key_of r \<and> sp_start r' = sp_start r \<and> sp_source r' = sp_source r \<and> sp_run r' = sp_run r \<and>
     related r' = related r \<and> (sp_status r \<noteq> ''running'' \<longrightarrow> r' = r))"

definition extends :: "span list \<Rightarrow> span list \<Rightarrow> bool" where
  "extends rows rows' = (length rows \<le> length rows' \<and> (\<forall>i < length rows. evolved (rows ! i) (rows' ! i)))"

lemma evolved_refl: "evolved r r"
  by (simp add: evolved_def)

lemma evolved_trans: "evolved r r' \<Longrightarrow> evolved r' r'' \<Longrightarrow> evolved r r''"
  by (auto simp: evolved_def)

lemma extends_refl: "extends rows rows"
  by (simp add: extends_def evolved_refl)

lemma extends_trans: "extends rows rows' \<Longrightarrow> extends rows' rows'' \<Longrightarrow> extends rows rows''"
  by (auto simp: extends_def intro: evolved_trans)

lemma end_span_evolved: "end_span row d source run = Inr row' \<Longrightarrow> evolved row row' \<and> sp_source row = source \<and> (source = ''session-sdk'' \<longrightarrow> sp_run row = run)"
  by (auto simp: end_span_def bindR_eq_Inr evolved_def key_of_def related_def)

lemma ingest_rows_extends:
  assumes "wf_rows mx rows" and "ingest_rows sz mx rows agent session ev source run = Inr (rows', ack)"
  shows "extends rows rows'"
  using assms(2)
proof (cases rule: ingest_rows_cases)
  case (start a s t sp d row)
  then show ?thesis by (simp add: extends_def nth_append evolved_refl)
next
  case (finish d row row')
  then have "rows' = map (\<lambda>r. if r = row then row' else r) rows" using assms(1) by (simp add: update_span_map wf_rows_def)
  then show ?thesis using end_span_evolved [OF finish(2)] by (auto simp: extends_def evolved_refl)
qed

lemma ingest_each_extends:
  "wf_rows mx rows \<Longrightarrow> ingest_each sz mx agent session source run evs rows = Inr rows' \<Longrightarrow> extends rows rows'"
proof (induction evs arbitrary: rows)
  case (Cons ev evs)
  then obtain rows1 ack where "ingest_rows sz mx rows agent session ev source run = Inr (rows1, ack)"
    "ingest_each sz mx agent session source run evs rows1 = Inr rows'" by (auto simp: bindR_eq_Inr)
  then show ?case using Cons by (blast intro: extends_trans ingest_rows_extends ingest_rows_wf)
qed (simp add: extends_refl)

lemma run_icalls_extends: "wf_rows (ts_max st) (ts_rows st) \<Longrightarrow> extends (ts_rows st) (ts_rows (run_icalls sz cs st))"
  unfolding run_icalls_def
proof (induction cs arbitrary: st)
  case (Cons c cs)
  have step: "wf_rows (ts_max st) (ts_rows (run_icall sz c st)) \<and> extends (ts_rows st) (ts_rows (run_icall sz c st))"
    using run_icall_effect [of sz c st] Cons.prems ingest_each_wf ingest_each_extends extends_refl by metis
  then show ?case using Cons.IH [of "run_icall sz c st"] run_icall_max by (auto intro: extends_trans)
qed (simp add: extends_refl)

text \<open>
  C32. The trace is append-only: whatever calls follow, a stored span keeps its place, its identity, its
  start, its causes and its source, and once it has ended it never changes again.
\<close>

theorem ended_spans_immutable:
  assumes "wf_rows (ts_max st) (ts_rows st)" and "i < length (ts_rows st)"
  shows "i < length (ts_rows (run_icalls sz cs st)) \<and>
    (let r = ts_rows st ! i; r' = ts_rows (run_icalls sz cs st) ! i in
     key_of r' = key_of r \<and> sp_start r' = sp_start r \<and> related r' = related r \<and> sp_source r' = sp_source r \<and>
     (sp_status r \<noteq> ''running'' \<longrightarrow> r' = r))"
  using run_icalls_extends [OF assms(1), of sz cs] assms(2) by (auto simp: extends_def evolved_def Let_def)

section \<open>Concrete runs\<close>

definition demo_event :: "string \<Rightarrow> (string \<times> json) list \<Rightarrow> json" where
  "demo_event sp kvs = JObj ([(''trace_id'', JStr ''t''), (''span_id'', JStr sp), (''clock_id'', JStr ''c'')] @ kvs)"

definition demo_start :: "string \<Rightarrow> json \<Rightarrow> json" where
  "demo_start sp parent = demo_event sp [(''event'', JStr ''start''), (''kind'', JStr ''tool''), (''name'', JStr ''x''), (''start_ns'', JInt 5),
     (''parent_id'', parent)]"

definition demo_end :: "string \<Rightarrow> json" where
  "demo_end sp = demo_event sp [(''event'', JStr ''end''), (''end_ns'', JInt 9), (''status'', JStr ''ok'')]"

definition demo_call :: "json \<Rightarrow> icall" where
  "demo_call ev = \<lparr>ic_fault = None, ic_time = 1, ic_agent = JStr ''a'', ic_session = JStr ''s'', ic_event = ev, ic_source = ''session-sdk'', ic_run = None\<rparr>"

definition demo_batch :: jdict where
  "demo_batch = [(''event'', JStr ''batch''), (''events'', JList [demo_start ''p'' JNull, demo_start ''q'' (JStr ''p''), demo_end ''q''])]"

lemma demo_rows:
  "map (\<lambda>r. (sp_span r, sp_duration r)) (ts_rows (run_icalls (\<lambda>_. 100) [demo_call (JObj demo_batch)] (ts_init [] 2))) = [(''p'', None), (''q'', Some 4)]"
  by code_simp

theorem stored_spans_wellformed_witness:
  "wf_rows 2 (ts_rows (run_icalls (\<lambda>_. 100) [demo_call (JObj demo_batch)] (ts_init [] 2))) \<and>
   map sp_span (ts_rows (run_icalls (\<lambda>_. 100) [demo_call (JObj demo_batch)] (ts_init [] 2))) = [''p'', ''q'']"
  using stored_spans_wellformed [of 2 "\<lambda>_. 100" "[demo_call (JObj demo_batch)]"] arg_cong [OF demo_rows, of "map fst"]
  by (simp add: comp_def)

theorem batch_is_atomic_witness:
  "ts_rows (snd (ingest_batch (\<lambda>_. 100) None 1 (JStr ''a'') (JStr ''s'') demo_batch ''x'' None (ts_init [] 2))) =
   ts_rows (one_by_one (\<lambda>_. 100) (JStr ''a'') (JStr ''s'') ''x'' None [demo_start ''p'' JNull, demo_start ''q'' (JStr ''p''), demo_end ''q''] (ts_init [] 2))"
proof -
  let ?run = "ingest_batch (\<lambda>_. 100) None 1 (JStr ''a'') (JStr ''s'') demo_batch ''x'' None (ts_init [] 2)"
  have evs: "batch_events (\<lambda>_. 100) demo_batch = Inr [demo_start ''p'' JNull, demo_start ''q'' (JStr ''p''), demo_end ''q'']" by code_simp
  have ok: "\<not> isl (fst ?run)" by code_simp
  show ?thesis using batch_is_atomic [OF evs prod.collapse [of ?run, symmetric]] ok by (auto simp: isl_def split: sum.splits)
qed

theorem ended_spans_immutable_witness:
  "sp_duration (ts_rows (run_icalls (\<lambda>_. 100) [demo_call (demo_end ''q''), demo_call (demo_end ''p'')]
     (run_icalls (\<lambda>_. 100) [demo_call (JObj demo_batch)] (ts_init [] 2))) ! 1) = Some 4"
proof -
  let ?st = "run_icalls (\<lambda>_. 100) [demo_call (JObj demo_batch)] (ts_init [] 2)"
  have "wf_rows (ts_max (ts_init [] 2)) (ts_rows (ts_init [] 2))" by (simp add: wf_rows_def ts_init_def causal_def count_trace_def)
  then have wf: "wf_rows (ts_max ?st) (ts_rows ?st)" using run_icalls_wf by metis
  have "1 < length (ts_rows ?st)" "sp_status (ts_rows ?st ! 1) \<noteq> ''running''" "sp_duration (ts_rows ?st ! 1) = Some 4" by code_simp+
  then show ?thesis using ended_spans_immutable [OF wf, of 1 "\<lambda>_. 100" "[demo_call (demo_end ''q''), demo_call (demo_end ''p'')]"] by (simp add: Let_def)
qed

end
