(* ===== verification/Trace_Profile.thy ===== *)
theory Trace_Profile
  imports Trace_Store
begin

text \<open>
  Reading the trace: \<^verbatim>\<open>profile.py\<close> (interval unions, percentiles and the grouping of spans),
  \<^verbatim>\<open>export.py\<close> (folded stacks) and \<^verbatim>\<open>resources.py\<close> (cgroup counters) of
  \<^verbatim>\<open>src/plugins/agent-monitor/src/allox_agent_monitor\<close>. A float is a rational here, as in the prelude,
  so a percentile rank and a sum of float metrics are exact.
\<close>

section \<open>Interval unions and percentiles\<close>

fun union_from :: "int \<Rightarrow> int \<Rightarrow> (int \<times> int) list \<Rightarrow> int" where
  "union_from hi acc [] = acc"
| "union_from hi acc ((left, right) # ivs) = union_from (max hi right) (acc + max 0 (right - max left hi)) ivs"

definition union_ns :: "(int \<times> int) list \<Rightarrow> int" where
  "union_ns ivs = union_from 0 0 (sort ivs)"

definition percentile :: "int list \<Rightarrow> rat \<Rightarrow> int option" where
  "percentile values q = (if values = [] then None
     else Some (sort values ! nat (max 0 (\<lceil>of_nat (length values) * q\<rceil> - 1))))"

section \<open>Numbers of metrics\<close>

definition num_val :: "json \<Rightarrow> rat" where
  "num_val v = (case v of JInt i \<Rightarrow> of_int i | JFloat (Finite q) \<Rightarrow> q | _ \<Rightarrow> 0)"

definition py_add :: "json \<Rightarrow> json \<Rightarrow> json" where
  "py_add a b = (case (a, b) of (JInt i, JInt j) \<Rightarrow> JInt (i + j) | _ \<Rightarrow> JFloat (Finite (num_val a + num_val b)))"

definition py_sub :: "json \<Rightarrow> json \<Rightarrow> json" where
  "py_sub a b = (case (a, b) of (JInt i, JInt j) \<Rightarrow> JInt (i - j) | _ \<Rightarrow> JFloat (Finite (num_val a - num_val b)))"

definition py_sum :: "json list \<Rightarrow> json" where
  "py_sum vs = foldl py_add (JInt 0) vs"

definition py_max :: "json list \<Rightarrow> json" where
  "py_max vs = foldl (\<lambda>m v. if num_val m < num_val v then v else m) (hd vs) (tl vs)"

section \<open>profile\<close>

type_synonym gkey = "string list \<times> string \<times> string \<times> string option"

record pgroup =
  pg_key :: gkey
  pg_calls :: int
  pg_runs :: int
  pg_errors :: int
  pg_inclusive :: int
  pg_self :: "int option"
  pg_p50 :: "int option"
  pg_p95 :: "int option"
  pg_timing :: "(json \<times> json) list"
  pg_metrics :: "(string \<times> string \<times> json \<times> int) list"

record prof =
  pf_runs :: int
  pf_spans :: int
  pf_complete :: bool
  pf_warnings :: "(string \<times> string) list"
  pf_groups :: "pgroup list"

definition children_of :: "span list \<Rightarrow> span \<Rightarrow> span list" where
  "children_of spans row = filter (\<lambda>c. trace_of c = trace_of row \<and> sp_parent c = Some (sp_span row)) spans"

text \<open>One turn of the loop over the children: whether the child can be used, and its clipped interval.\<close>

definition child_ok :: "span \<Rightarrow> int \<Rightarrow> span \<Rightarrow> bool" where
  "child_ok row ended c = (case sp_end c of
      None \<Rightarrow> False
    | Some e \<Rightarrow> sp_clock c = sp_clock row \<and> sp_start row \<le> sp_start c \<and> e \<le> ended)"

definition child_interval :: "span \<Rightarrow> int \<Rightarrow> span \<Rightarrow> (int \<times> int) list" where
  "child_interval row ended c = (case sp_end c of
      None \<Rightarrow> []
    | Some e \<Rightarrow> if sp_clock c \<noteq> sp_clock row then [] else [(max (sp_start row) (sp_start c), min ended e)])"

definition self_time :: "span list \<Rightarrow> span \<Rightarrow> int \<Rightarrow> int option" where
  "self_time spans row ended =
     (if list_all (child_ok row ended) (children_of spans row)
      then Some (the (sp_duration row) - union_ns (concat (map (child_interval row ended) (children_of spans row))))
      else None)"

definition row_warning :: "span list \<Rightarrow> span \<Rightarrow> (string \<times> string) list" where
  "row_warning spans row = (case sp_end row of
      None \<Rightarrow> [(sp_span row, ''unfinished'')]
    | Some e \<Rightarrow> if self_time spans row e = None then [(sp_span row, ''child timing incomplete'')] else [])"

definition put_self :: "span list \<Rightarrow> span \<Rightarrow> (spkey, int option) dict \<Rightarrow> (spkey, int option) dict" where
  "put_self spans row d = (case sp_end row of None \<Rightarrow> d | Some e \<Rightarrow> dict_set (key_of row) (self_time spans row e) d)"

definition self_times :: "span list \<Rightarrow> (spkey, int option) dict" where
  "self_times spans = fold (put_self spans) spans []"

definition group_of :: "span \<Rightarrow> gkey" where
  "group_of r = (sp_path r, sp_kind r, sp_name r, sp_model r)"

definition finished :: "span list \<Rightarrow> span list" where
  "finished spans = filter (\<lambda>r. sp_end r \<noteq> None) spans"

definition timing_sample :: "span list \<Rightarrow> span \<Rightarrow> (json \<times> json) list" where
  "timing_sample spans row =
     (if sp_kind row \<noteq> ''tool'' then []
      else let internal = concat (map (\<lambda>c. case map_of (sp_metrics c) ''executor.execution_ns'' of
                None \<Rightarrow> []
              | Some v \<Rightarrow> if sp_kind c = ''phase'' \<and> sp_clock c = sp_clock row then [v] else []) (children_of spans row));
          d = JInt (the (sp_duration row)) in
        (case internal of
           [v] \<Rightarrow> if num_val v \<le> num_val d then [(v, py_sub d v)] else []
         | _ \<Rightarrow> []))"

text \<open>The keys of a dictionary filled in order: first occurrences.\<close>

definition firsts :: "'a list \<Rightarrow> 'a list" where
  "firsts xs = rev (remdups (rev xs))"

text \<open>\<open>str(item[0])\<close>: the representation of the tuple that is the key of a group.\<close>

definition repr_tuple :: "string list \<Rightarrow> string" where
  "repr_tuple xs = (case xs of [x] \<Rightarrow> ''('' @ x @ '',)'' | _ \<Rightarrow> ''('' @ join_comma xs @ '')'')"

definition group_text :: "gkey \<Rightarrow> string" where
  "group_text g = (case g of (path, kind, name, model) \<Rightarrow>
     repr_tuple [repr_tuple (map py_repr path), py_repr kind, py_repr name, case model of None \<Rightarrow> ''None'' | Some m \<Rightarrow> py_repr m])"

definition metric_summary :: "span list \<Rightarrow> (string \<times> string \<times> json \<times> int) list" where
  "metric_summary rows = (let all = concat (map sp_metrics rows) in
     map (\<lambda>name. let values = map snd (filter (\<lambda>(k, v). k = name) all) in
        if contains_sub name ''peak'' then (name, ''max'', py_max values, int (length values))
        else (name, ''sum'', py_sum values, int (length values))) (firsts (map fst all)))"

definition group_rows :: "span list \<Rightarrow> gkey \<Rightarrow> span list" where
  "group_rows spans g = filter (\<lambda>r. group_of r = g) (finished spans)"

definition group_result :: "span list \<Rightarrow> gkey \<Rightarrow> pgroup" where
  "group_result spans g =
     (let rows = group_rows spans g; durations = map (\<lambda>r. the (sp_duration r)) rows;
          exclusive = map (\<lambda>r. the (map_of (self_times spans) (key_of r))) rows in
      \<lparr>pg_key = g, pg_calls = int (length rows), pg_runs = int (length (remdups (map trace_of rows))),
       pg_errors = int (length (filter (\<lambda>r. sp_status r \<noteq> ''ok'') rows)), pg_inclusive = sum_list durations,
       pg_self = (if None \<in> set exclusive then None else Some (sum_list (map the exclusive))),
       pg_p50 = percentile durations (1/2), pg_p95 = percentile durations (19/20),
       pg_timing = concat (map (timing_sample spans) rows), pg_metrics = metric_summary rows\<rparr>)"

definition profile :: "span list \<Rightarrow> prof" where
  "profile spans =
     (let warnings = concat (map (row_warning spans) spans);
          keys = sort_key group_text (firsts (map group_of (finished spans))) in
      \<lparr>pf_runs = int (length (remdups (map trace_of spans))), pf_spans = int (length spans), pf_complete = (warnings = []),
       pf_warnings = warnings, pf_groups = map (group_result spans) keys\<rparr>)"

section \<open>folded\<close>

definition escape_frame :: "string \<Rightarrow> string" where
  "escape_frame f = py_replace [CHR 0x0D] [CHR 0x5C, CHR ''r''] (py_replace [CHR 0x0A] [CHR 0x5C, CHR ''n'']
     (py_replace '';'' (CHR 0x5C # ''x3b'') (py_replace [CHR 0x5C] [CHR 0x5C, CHR 0x5C] f)))"

fun join_semi :: "string list \<Rightarrow> string" where
  "join_semi [] = []"
| "join_semi [x] = x"
| "join_semi (x # xs) = x @ '';'' @ join_semi xs"

definition stack_text :: "string list \<Rightarrow> string" where
  "stack_text st = join_semi (map escape_frame st)"

definition stack_of :: "string list \<Rightarrow> string \<Rightarrow> string \<Rightarrow> string list" where
  "stack_of path kind name = path @ [kind @ '':'' @ name]"

definition add_weight :: "string list \<Rightarrow> int \<Rightarrow> (string list, int) dict \<Rightarrow> (string list, int) dict" where
  "add_weight st v w = dict_set st (dict_get w st 0 + v) w"

definition token_count :: "span \<Rightarrow> int option" where
  "token_count row =
     (let get = (\<lambda>a b. case map_of (sp_metrics row) a of Some v \<Rightarrow> v | None \<Rightarrow> dict_get (sp_metrics row) b JNull) in
      case (get ''provider.input_tokens'' ''provider.prompt_tokens'', get ''provider.output_tokens'' ''provider.completion_tokens'') of
        (JInt i, JInt j) \<Rightarrow> if i < 0 \<or> j < 0 then None else Some (i + j)
      | _ \<Rightarrow> None)"

text \<open>One turn of the loop over the spans, on the skipped names and the weights.\<close>

definition fold_row :: "string \<Rightarrow> span \<Rightarrow> string list \<times> (string list, int) dict \<Rightarrow> string list \<times> (string list, int) dict" where
  "fold_row msr row acc = (case acc of (skipped, weights) \<Rightarrow>
     if sp_status row = ''running'' then (skipped @ [sp_span row], weights)
     else if msr = ''tokens'' then
       (if sp_kind row \<noteq> ''llm'' then (skipped, weights)
        else case token_count row of
            None \<Rightarrow> (skipped @ [sp_span row @ '': token usage unavailable or noninteger''], weights)
          | Some v \<Rightarrow> (skipped, add_weight (stack_of (sp_path row) (sp_kind row) (sp_name row)) v weights))
     else (skipped, add_weight (stack_of (sp_path row) (sp_kind row) (sp_name row)) 1 weights))"

definition fold_group :: "pgroup \<Rightarrow> string list \<times> (string list, int) dict \<Rightarrow> string list \<times> (string list, int) dict" where
  "fold_group g acc = (case (acc, pg_key g) of ((skipped, weights), (path, kind, name, model)) \<Rightarrow>
     case pg_self g of
       None \<Rightarrow> (skipped @ [name], weights)
     | Some v \<Rightarrow> (skipped, add_weight (stack_of path kind name) v weights))"

record folded_result =
  fo_measure :: string
  fo_lines :: "string list"
  fo_total :: int
  fo_skipped :: "string list"
  fo_complete :: bool

definition folded :: "span list \<Rightarrow> string \<Rightarrow> folded_result res" where
  "folded spans msr =
     (if msr \<notin> set [''calls'', ''self_ns'', ''tokens''] then Inl (WorkspaceError ''measure must be calls, self_ns or tokens'')
      else let start = (map sp_span (filter (\<lambda>r. sp_status r = ''running'') spans), []);
          (skipped, weights) = (if msr = ''self_ns'' then fold fold_group (pf_groups (profile spans)) start
             else fold (fold_row msr) spans start) in
        Inr \<lparr>fo_measure = msr,
          fo_lines = map (\<lambda>(st, v). stack_text st @ '' '' @ int_str v) (filter (\<lambda>(st, v). v \<noteq> 0) (sort weights)),
          fo_total = sum_list (map snd weights), fo_skipped = skipped, fo_complete = (skipped = [])\<rparr>)"

section \<open>Counters\<close>

text \<open>\<open>dict(pairs)\<close> of lists that must have two elements, and the files of a cgroup as texts.\<close>

fun pair_up :: "string list \<Rightarrow> (string \<times> string) res" where
  "pair_up [a, b] = Inr (a, b)"
| "pair_up _ = Inl (ValueError ''dictionary update sequence element'')"

definition dict_of_pairs :: "string list list \<Rightarrow> (string, string) dict res" where
  "dict_of_pairs xs = bindR (mapR pair_up xs) (\<lambda>ps. Inr (dict_merge [] ps))"

definition py_int_text :: "string \<Rightarrow> int res" where
  "py_int_text s = py_int (JStr s)"

definition split_once :: "char \<Rightarrow> string \<Rightarrow> string list" where
  "split_once x s = (if x \<in> set s then [takeWhile (\<lambda>c. c \<noteq> x) s, tl (dropWhile (\<lambda>c. c \<noteq> x) s)] else [s])"

definition cpu_usage :: "string \<Rightarrow> int res" where
  "cpu_usage text = bindR (dict_of_pairs (map words_of (splitlines text))) (\<lambda>d.
     case map_of d ''usage_usec'' of None \<Rightarrow> Inl KeyError | Some v \<Rightarrow> py_int_text v)"

fun io_bytes :: "string list \<Rightarrow> int \<Rightarrow> int \<Rightarrow> (int \<times> int) res" where
  "io_bytes [] rd wr = Inr (rd, wr)"
| "io_bytes (line # lines) rd wr =
     bindR (dict_of_pairs (map (split_once CHR ''='') (drop 1 (words_of line)))) (\<lambda>d.
     bindR (py_int_text (dict_get d ''rbytes'' ''0'')) (\<lambda>r.
     bindR (py_int_text (dict_get d ''wbytes'' ''0'')) (\<lambda>w. io_bytes lines (rd + r) (wr + w))))"

definition snapshot :: "string res \<Rightarrow> string res \<Rightarrow> string res \<Rightarrow> (string, int) dict" where
  "snapshot cpu_stat memory_peak io_stat =
     (case bindR cpu_stat cpu_usage of Inr v \<Rightarrow> [(''cpu_usage_usec'', v)] | Inl _ \<Rightarrow> []) @
     (case bindR memory_peak py_int_text of Inr v \<Rightarrow> [(''memory_peak_bytes'', v)] | Inl _ \<Rightarrow> []) @
     (case bindR io_stat (\<lambda>t. io_bytes (splitlines t) 0 0) of Inr (r, w) \<Rightarrow> [(''io_read_bytes'', r), (''io_write_bytes'', w)] | Inl _ \<Rightarrow> [])"

definition delta :: "(string, int) dict \<Rightarrow> (string, int) dict \<Rightarrow> (string, int) dict" where
  "delta before after = concat (map (\<lambda>(k, v).
     if k = ''memory_peak_bytes'' then [(''cgroup.'' @ k, v)]
     else case map_of before k of
         Some u \<Rightarrow> if u \<le> v then [(''cgroup.'' @ k, v - u)] else []
       | None \<Rightarrow> []) after)"

section \<open>The union of intervals\<close>

definition covered :: "(int \<times> int) list \<Rightarrow> int set" where
  "covered ivs = (\<Union>(l, r) \<in> set ivs. {l..<r})"

lemma covered_simps [simp]: "covered [] = {}" "covered ((l, r) # ivs) = {l..<r} \<union> covered ivs"
  by (auto simp: covered_def)

lemma finite_covered [simp]: "finite (covered ivs)"
  by (auto simp: covered_def)

lemma union_from_covered:
  assumes "sorted ivs"
  shows "union_from hi acc ivs = acc + int (card (covered ivs \<inter> {hi..}))"
  using assms
proof (induction ivs arbitrary: hi acc)
  case (Cons iv ivs)
  obtain l r where iv: "iv = (l, r)" by (cases iv)
  have later: "l \<le> x" if mem: "x \<in> covered ivs" for x
  proof -
    obtain l' r' where "(l', r') \<in> set ivs" "l' \<le> x" using mem by (auto simp: covered_def)
    moreover have "(l, r) \<le> (l', r')" using Cons.prems calculation(1) unfolding iv sorted_simps(2) by blast
    ultimately show ?thesis by (auto simp: less_eq_prod_def)
  qed
  have split: "covered (iv # ivs) \<inter> {hi..} = {max l hi..<r} \<union> (covered ivs \<inter> {max hi r..})"
    using later by (auto simp: iv)
  have "card (covered (iv # ivs) \<inter> {hi..}) = card {max l hi..<r} + card (covered ivs \<inter> {max hi r..})"
    unfolding split by (rule card_Un_disjoint) auto
  moreover have "int (card {max l hi..<r}) = max 0 (r - max l hi)" by (simp add: max_def)
  ultimately have "int (card (covered (iv # ivs) \<inter> {hi..})) = max 0 (r - max l hi) + int (card (covered ivs \<inter> {max hi r..}))"
    by simp
  then show ?case using Cons by (simp add: iv)
qed simp

lemma union_ns_card:
  assumes "\<And>l r. (l, r) \<in> set ivs \<Longrightarrow> 0 \<le> l"
  shows "union_ns ivs = int (card (\<Union>(l, r) \<in> set ivs. {l..<r}))"
proof -
  have "covered (sort ivs) = covered ivs" by (simp add: covered_def)
  moreover have "covered ivs \<inter> {0..} = covered ivs" using assms by (force simp: covered_def)
  ultimately show ?thesis using union_from_covered [of "sort ivs" 0 0] by (simp add: union_ns_def covered_def)
qed

text \<open>
  C33. \<open>union_ns\<close> counts every nanosecond covered by one of the intervals once, however they overlap,
  nest or repeat: it is the size of their union.
\<close>

theorem union_is_covered:
  assumes "\<And>l r. (l, r) \<in> set ivs \<Longrightarrow> 0 \<le> l"
  shows "union_ns ivs = int (card (\<Union>(l, r) \<in> set ivs. {l..<r}))"
  using assms by (rule union_ns_card)

theorem union_is_covered_witness:
  "card (\<Union>(l, r) \<in> set [(5, 9), (0, 6), (2, 3), (20, 10)]. {l..<r :: int}) = 9"
proof -
  have "union_ns [(5, 9), (0, 6), (2, 3), (20, 10)] = 9" by code_simp
  moreover have "union_ns [(5, 9), (0, 6), (2, 3), (20, 10)] = int (card (\<Union>(l, r) \<in> set [(5, 9), (0, 6), (2, 3), (20, 10)]. {l..<r :: int}))"
    by (rule union_is_covered) auto
  ultimately show ?thesis by linarith
qed

section \<open>Percentiles\<close>

lemma sorted_rank_le:
  fixes xs :: "int list"
  assumes "sorted xs" and "i < length xs"
  shows "i + 1 \<le> length (filter (\<lambda>x. x \<le> xs ! i) xs)" and "length (filter (\<lambda>x. x < xs ! i) xs) \<le> i"
proof -
  have "set [0..<Suc i] \<subseteq> {j. j < length xs \<and> xs ! j \<le> xs ! i}"
    using assms sorted_nth_mono [OF assms(1)] by auto
  then have "card (set [0..<Suc i]) \<le> card {j. j < length xs \<and> xs ! j \<le> xs ! i}" by (intro card_mono) simp_all
  then show "i + 1 \<le> length (filter (\<lambda>x. x \<le> xs ! i) xs)" by (simp add: length_filter_conv_card)
  have "j < i" if "j < length xs" "xs ! j < xs ! i" for j
    using sorted_nth_mono [OF assms(1), of i j] that by (meson leD not_less)
  then have "{j. j < length xs \<and> xs ! j < xs ! i} \<subseteq> {..<i}" by blast
  then have "card {j. j < length xs \<and> xs ! j < xs ! i} \<le> card {..<i}" by (intro card_mono) simp_all
  then show "length (filter (\<lambda>x. x < xs ! i) xs) \<le> i" by (simp add: length_filter_conv_card)
qed

text \<open>
  \<open>percentile\<close> returns a nearest rank: for a quantile between 0 and 1 the result is one of the values,
  at least the fraction \<open>q\<close> of the values is at most the result, and less than that fraction lies
  strictly below it.
\<close>

theorem percentile_nearest_rank:
  assumes "values \<noteq> []" and "0 < q" and "q \<le> 1"
  shows "\<exists>v. percentile values q = Some v \<and> v \<in> set values \<and>
    of_nat (length values) * q \<le> of_nat (length (filter (\<lambda>x. x \<le> v) values)) \<and>
    of_nat (length (filter (\<lambda>x. x < v) values)) < of_nat (length values) * q"
proof -
  let ?n = "length values" and ?s = "sort values"
  let ?k = "\<lceil>of_nat ?n * q\<rceil>"
  define i where "i = nat (max 0 (?k - 1))"
  have pos: "0 < of_nat ?n * q" using assms by simp
  then have k: "1 \<le> ?k" by (simp add: one_le_ceiling)
  have "of_nat ?n * q \<le> of_nat ?n" using assms by (simp add: mult_left_le)
  then have "?k \<le> int ?n" by (simp add: ceiling_le_iff)
  then have "?k - 1 < int ?n" by simp
  then have i: "int i = ?k - 1" "i < ?n" using k by (simp_all add: i_def nat_less_iff)
  have in_set: "?s ! i \<in> set values" using i(2) nth_mem [of i ?s] by simp
  have same: "length (filter P ?s) = length (filter P values)" for P
    by (metis length_sort filter_sort)
  have "of_nat ?n * q \<le> of_int ?k" by (rule le_of_int_ceiling)
  also have "\<dots> = of_nat (i + 1)" using i(1) by (metis add.commute diff_add_cancel of_int_of_nat_eq of_nat_1 of_nat_add of_int_1)
  also have "\<dots> \<le> of_nat (length (filter (\<lambda>x. x \<le> ?s ! i) values))"
    using sorted_rank_le(1) [of ?s i] i(2) same by (metis length_sort of_nat_mono sorted_sort)
  finally have up: "of_nat ?n * q \<le> of_nat (length (filter (\<lambda>x. x \<le> ?s ! i) values))" .
  have "length (filter (\<lambda>x. x < ?s ! i) values) \<le> i" using sorted_rank_le(2) [of ?s i] i(2) same by simp
  then have "(of_nat (length (filter (\<lambda>x. x < ?s ! i) values)) :: rat) \<le> of_int (?k - 1)"
    using i(1) by (metis of_int_of_nat_eq of_nat_mono)
  also have "\<dots> < of_nat ?n * q" by linarith
  finally have "of_nat (length (filter (\<lambda>x. x < ?s ! i) values)) < of_nat ?n * q" .
  moreover have "percentile values q = Some (?s ! i)" using assms(1) by (simp add: percentile_def i_def)
  ultimately show ?thesis using in_set up by blast
qed

theorem percentile_nearest_rank_witness:
  "of_nat (length (filter (\<lambda>x. x < the (percentile [7, 3, 5] (1/2))) [7, 3, 5])) < (of_nat (length [7, 3, 5 :: int]) * (1/2) :: rat)"
  using percentile_nearest_rank [of "[7, 3, 5]" "1/2"] by auto

section \<open>Self times\<close>

text \<open>The nanoseconds of a span during which none of its children runs.\<close>

definition uncovered :: "span list \<Rightarrow> span \<Rightarrow> int set" where
  "uncovered spans row = {p. sp_start row \<le> p \<and> p < the (sp_end row) \<and>
     (\<forall>c \<in> set (children_of spans row). \<not> (sp_start c \<le> p \<and> p < the (sp_end c)))}"

lemma wf_finished:
  assumes "wf_rows mx spans" and "row \<in> set spans" and "sp_end row = Some e"
  shows "0 \<le> sp_start row \<and> sp_start row \<le> e \<and> sp_duration row = Some (e - sp_start row)"
proof -
  have "span_typed row" "span_open row \<or> span_ended row" using assms by (auto simp: wf_rows_def)
  then show ?thesis using assms(3) by (auto simp: span_typed_def span_open_def span_ended_def)
qed

lemma self_time_uncovered:
  assumes "wf_rows mx spans" and "row \<in> set spans" and "sp_end row = Some e" and "self_time spans row e = Some t"
  shows "t = int (card (uncovered spans row))"
proof -
  let ?ivs = "concat (map (child_interval row e) (children_of spans row))"
  note own = wf_finished [OF assms(1-3)]
  have kids: "child_ok row e c" if "c \<in> set (children_of spans row)" for c
    using assms(4) that by (auto simp: self_time_def list_all_iff split: if_splits)
  have iv: "child_interval row e c = [(sp_start c, the (sp_end c))]" "sp_start row \<le> sp_start c" "the (sp_end c) \<le> e"
    if "c \<in> set (children_of spans row)" for c
    using kids [OF that] by (auto simp: child_ok_def child_interval_def split: option.splits)
  have set: "set ?ivs = (\<lambda>c. (sp_start c, the (sp_end c))) ` set (children_of spans row)" using iv(1) by auto
  have cov: "(\<Union>(l, r) \<in> set ?ivs. {l..<r}) \<subseteq> {sp_start row..<e}" unfolding set using iv(2,3) by force
  have "uncovered spans row = {sp_start row..<e} - (\<Union>(l, r) \<in> set ?ivs. {l..<r})"
    unfolding set by (auto simp: uncovered_def assms(3))
  then have "int (card (uncovered spans row)) = int (card {sp_start row..<e}) - int (card (\<Union>(l, r) \<in> set ?ivs. {l..<r}))"
    using cov card_mono [OF _ cov] by (simp add: card_Diff_subset finite_subset of_nat_diff)
  moreover have "union_ns ?ivs = int (card (\<Union>(l, r) \<in> set ?ivs. {l..<r}))"
  proof (rule union_ns_card)
    fix l r
    assume "(l, r) \<in> set ?ivs"
    then obtain c where "c \<in> set (children_of spans row)" "l = sp_start c" unfolding set by auto
    then show "0 \<le> l" using iv(2) own by force
  qed
  moreover have "t = e - sp_start row - union_ns ?ivs" using assms(4) own by (auto simp: self_time_def split: if_splits)
  ultimately show ?thesis using own by simp
qed

lemma put_self_other: "k \<notin> key_of ` set rows \<Longrightarrow> map_of (fold (put_self spans) rows d) k = map_of d k"
proof (induction rows arbitrary: d)
  case (Cons r rows)
  then show ?case by (cases "sp_end r") (auto simp: put_self_def)
qed simp

lemma put_self_lookup:
  assumes "distinct (map key_of rows)" and "row \<in> set rows" and "sp_end row = Some e"
  shows "map_of (fold (put_self spans) rows d) (key_of row) = Some (self_time spans row e)"
  using assms(1,2)
proof (induction rows arbitrary: d)
  case (Cons r rows)
  show ?case
  proof (cases "row = r")
    case True
    then show ?thesis using Cons.prems(1) assms(3) by (simp add: put_self_other put_self_def [of _ r])
  qed (use Cons in auto)
qed simp

lemma self_times_lookup:
  assumes "wf_rows mx spans" and "row \<in> set spans" and "sp_end row = Some e"
  shows "map_of (self_times spans) (key_of row) = Some (self_time spans row e)"
  using put_self_lookup [of spans row e spans "[]"] assms
  by (simp add: self_times_def wf_rows_def)

lemma sum_list_group:
  "distinct ks \<Longrightarrow> (\<And>x. x \<in> set xs \<Longrightarrow> g x \<in> set ks) \<Longrightarrow> sum_list (map (\<lambda>k. sum_list (map f (filter (\<lambda>x. g x = k) xs))) ks) = (sum_list (map f xs) :: int)"
proof (induction xs)
  case (Cons x xs)
  have "sum_list (map (\<lambda>k. sum_list (map f (filter (\<lambda>y. g y = k) (x # xs)))) ks) =
      sum_list (map (\<lambda>k. (if g x = k then f x else 0) + sum_list (map f (filter (\<lambda>y. g y = k) xs))) ks)"
    by (intro arg_cong [of _ _ sum_list] map_cong) auto
  also have "\<dots> = sum_list (map (\<lambda>k. if g x = k then f x else 0) ks) + sum_list (map (\<lambda>k. sum_list (map f (filter (\<lambda>y. g y = k) xs))) ks)"
    by (simp add: sum_list_addf)
  also have "sum_list (map (\<lambda>k. if g x = k then f x else 0) ks) = f x"
    using Cons.prems by (simp add: sum_list_distinct_conv_sum_set sum.delta)
  finally show ?case using Cons by simp
qed simp

lemma firsts_simps [simp]: "distinct (firsts xs)" "set (firsts xs) = set xs"
  by (simp_all add: firsts_def)

text \<open>
  C34. The profile accounts for every finished span exactly once: its groups have distinct keys and at
  least one call each, the calls add up to the number of finished spans and the inclusive times to the
  sum of their durations, and the report is complete only if every span is finished.
\<close>

theorem profile_partitions:
  "distinct (map pg_key (pf_groups (profile spans))) \<and> (\<forall>g \<in> set (pf_groups (profile spans)). 0 < pg_calls g) \<and>
   sum_list (map pg_calls (pf_groups (profile spans))) = int (length (finished spans)) \<and>
   sum_list (map pg_inclusive (pf_groups (profile spans))) = sum_list (map (\<lambda>r. the (sp_duration r)) (finished spans)) \<and>
   (pf_complete (profile spans) \<longrightarrow> finished spans = spans)"
proof -
  define keys where "keys = sort_key group_text (firsts (map group_of (finished spans)))"
  have groups: "pf_groups (profile spans) = map (group_result spans) keys" by (simp add: profile_def keys_def Let_def)
  have keys: "distinct keys" "set keys = group_of ` set (finished spans)" by (simp_all add: keys_def)
  have "map pg_key (pf_groups (profile spans)) = keys" by (simp add: groups group_result_def Let_def map_idI)
  moreover have "0 < pg_calls g" if "g \<in> set (pf_groups (profile spans))" for g
    using that keys(2) by (auto simp: groups group_result_def Let_def group_rows_def filter_empty_conv)
  moreover have "sum_list (map pg_calls (pf_groups (profile spans))) = int (length (finished spans))"
    using sum_list_group [OF keys(1), of "finished spans" group_of "\<lambda>_. 1"] keys(2)
    by (simp add: groups group_result_def Let_def group_rows_def sum_list_triv o_def)
  moreover have "sum_list (map pg_inclusive (pf_groups (profile spans))) = sum_list (map (\<lambda>r. the (sp_duration r)) (finished spans))"
    using sum_list_group [OF keys(1), of "finished spans" group_of "\<lambda>r. the (sp_duration r)"] keys(2)
    by (simp add: groups group_result_def Let_def group_rows_def o_def)
  moreover have "finished spans = spans" if "pf_complete (profile spans)"
    using that by (auto simp: profile_def Let_def finished_def row_warning_def filter_id_conv split: option.splits)
  ultimately show ?thesis using keys(1) by simp
qed

text \<open>
  C35. Self times never count a nanosecond of a child: over a well-formed trace the self time reported for
  a group is the number of nanoseconds in which its spans run and none of their children does, however
  the children overlap, and it lies between 0 and the inclusive time.
\<close>

theorem self_times_are_uncovered:
  assumes "wf_rows mx spans" and "g \<in> set (pf_groups (profile spans))" and "pg_self g = Some v"
  shows "v = sum_list (map (\<lambda>r. int (card (uncovered spans r))) (group_rows spans (pg_key g))) \<and> 0 \<le> v \<and> v \<le> pg_inclusive g"
proof -
  obtain k where g: "g = group_result spans k" using assms(2) by (auto simp: profile_def Let_def)
  let ?rows = "group_rows spans k"
  have row: "\<exists>e. r \<in> set spans \<and> sp_end r = Some e" if "r \<in> set ?rows" for r
    using that by (auto simp: group_rows_def finished_def)
  have t: "the (the (map_of (self_times spans) (key_of r))) = int (card (uncovered spans r)) \<and>
      int (card (uncovered spans r)) \<le> the (sp_duration r)" if mem: "r \<in> set ?rows" for r
  proof -
    obtain e where e: "r \<in> set spans" "sp_end r = Some e" using row [OF mem] by blast
    note look = self_times_lookup [OF assms(1) e]
    obtain t where t: "self_time spans r e = Some t"
      using assms(3) mem look by (cases "self_time spans r e") (force simp: g group_result_def Let_def split: if_splits)+
    have "uncovered spans r \<subseteq> {sp_start r..<e}" by (auto simp: uncovered_def e(2))
    then have "card (uncovered spans r) \<le> card {sp_start r..<e}" by (intro card_mono) simp_all
    then show ?thesis using look t self_time_uncovered [OF assms(1) e t] wf_finished [OF assms(1) e] by (simp add: le_nat_iff)
  qed
  have v: "v = sum_list (map (\<lambda>r. the (the (map_of (self_times spans) (key_of r)))) ?rows)" and key: "pg_key g = k" and
    incl: "pg_inclusive g = sum_list (map (\<lambda>r. the (sp_duration r)) ?rows)"
    using assms(3) by (simp_all add: g group_result_def Let_def o_def split: if_splits)
  have "v = sum_list (map (\<lambda>r. int (card (uncovered spans r))) ?rows)" unfolding v using t by (intro arg_cong [of _ _ sum_list] map_cong) simp_all
  moreover have "\<dots> \<le> pg_inclusive g" unfolding incl using t by (intro sum_list_mono) simp
  moreover have "0 \<le> sum_list (map (\<lambda>r. int (card (uncovered spans r))) ?rows)" by (intro sum_list_nonneg) auto
  ultimately show ?thesis by (simp add: key)
qed

section \<open>Folded stacks\<close>

fun unescape_frame :: "string \<Rightarrow> string" where
  "unescape_frame [] = []"
| "unescape_frame [c] = [c]"
| "unescape_frame (c # d # s) =
     (if c \<noteq> CHR 0x5C then c # unescape_frame (d # s)
      else if d = CHR 0x5C then CHR 0x5C # unescape_frame s
      else if d = CHR ''n'' then CHR 0x0A # unescape_frame s
      else if d = CHR ''r'' then CHR 0x0D # unescape_frame s
      else CHR '';'' # unescape_frame (drop 2 s))"

definition escape_char :: "char \<Rightarrow> string" where
  "escape_char c = (if c = CHR 0x5C then [CHR 0x5C, CHR 0x5C] else if c = CHR '';'' then CHR 0x5C # ''x3b''
     else if c = CHR 0x0A then [CHR 0x5C, CHR ''n''] else if c = CHR 0x0D then [CHR 0x5C, CHR ''r''] else [c])"

lemma py_replace_char: "py_replace [a] rep s = concat (map (\<lambda>c. if c = a then rep else [c]) s)"
  by (induction s) (auto simp: startswith_def)

lemma escape_frame_chars: "escape_frame f = concat (map escape_char f)"
  unfolding escape_frame_def py_replace_char by (induction f) (auto simp: escape_char_def)

lemma unescape_char: "unescape_frame (escape_char c @ s) = c # unescape_frame s"
  by (cases s) (auto simp: escape_char_def)

lemma unescape_escape: "unescape_frame (escape_frame f) = f"
  unfolding escape_frame_chars by (induction f) (simp_all add: unescape_char)

lemma escape_frame_set: "c \<in> set (escape_frame f) \<Longrightarrow> c \<noteq> CHR '';'' \<and> c \<noteq> CHR 0x0A \<and> c \<noteq> CHR 0x0D"
  by (auto simp: escape_frame_chars escape_char_def split: if_splits)

lemma split_on_append: "x \<notin> set w \<Longrightarrow> split_on x (w @ x # s) = w # split_on x s"
  by (induction w) auto

lemma split_on_none: "x \<notin> set w \<Longrightarrow> split_on x w = [w]"
  by (induction w) auto

lemma split_join_semi: "xs \<noteq> [] \<Longrightarrow> (\<And>w. w \<in> set xs \<Longrightarrow> CHR '';'' \<notin> set w) \<Longrightarrow> split_on CHR '';'' (join_semi xs) = xs"
  by (induction xs rule: join_semi.induct) (auto simp: split_on_append split_on_none)

lemma set_join_semi: "c \<in> set (join_semi xs) \<Longrightarrow> c = CHR '';'' \<or> (\<exists>w \<in> set xs. c \<in> set w)"
  by (induction xs rule: join_semi.induct) auto

text \<open>
  A folded line can be read back: splitting the text of a stack at semicolons and undoing the escapes
  of each part returns the stack, whatever characters its frames contain, and the text never breaks a
  line.
\<close>

theorem folded_stack_roundtrip:
  assumes "st \<noteq> []"
  shows "map unescape_frame (split_on CHR '';'' (stack_text st)) = st \<and> CHR 0x0A \<notin> set (stack_text st) \<and> CHR 0x0D \<notin> set (stack_text st)"
proof -
  have "split_on CHR '';'' (stack_text st) = map escape_frame st"
    unfolding stack_text_def using assms escape_frame_set by (intro split_join_semi) auto
  moreover have "CHR 0x0A \<notin> set (stack_text st) \<and> CHR 0x0D \<notin> set (stack_text st)"
    unfolding stack_text_def using set_join_semi escape_frame_set by fastforce
  ultimately show ?thesis by (simp add: o_def unescape_escape map_idI)
qed

theorem folded_stack_roundtrip_witness:
  "map unescape_frame (split_on CHR '';'' (stack_text [''a;b'', [CHR 0x5C, CHR 0x0A]])) = [''a;b'', [CHR 0x5C, CHR 0x0A]]"
  using folded_stack_roundtrip [of "[''a;b'', [CHR 0x5C, CHR 0x0A]]"] by simp

lemma add_weight_sum: "sum_list (map snd (add_weight st v w)) = sum_list (map snd w) + v"
proof -
  have "sum_list (map snd (dict_set st u w)) = sum_list (map snd w) + u - dict_get w st 0" for u :: int
    by (induction w) (auto simp: dict_get_def)
  then show ?thesis by (simp add: add_weight_def)
qed

lemma fold_calls:
  "fold (fold_row ''calls'') rows (skipped, weights) = (skipped', weights') \<Longrightarrow>
   skipped' = skipped @ map sp_span (filter (\<lambda>r. sp_status r = ''running'') rows) \<and>
   sum_list (map snd weights') = sum_list (map snd weights) + int (length (filter (\<lambda>r. sp_status r \<noteq> ''running'') rows))"
proof (induction rows arbitrary: skipped weights)
  case (Cons r rows)
  obtain sk1 w1 where step: "fold_row ''calls'' r (skipped, weights) = (sk1, w1)" by fastforce
  then have "sk1 = skipped @ (if sp_status r = ''running'' then [sp_span r] else [])"
    "sum_list (map snd w1) = sum_list (map snd weights) + (if sp_status r = ''running'' then 0 else 1)"
    by (auto simp: fold_row_def add_weight_sum split: if_splits)
  then show ?case using Cons.IH [of sk1 w1] Cons.prems step by simp
qed simp

text \<open>
  The folded export of calls weighs every finished span once, and is complete exactly when no span is
  running; the running spans are listed as skipped, each of them twice.
\<close>

theorem folded_calls_weigh_finished:
  "\<exists>f. folded spans ''calls'' = Inr f \<and> fo_total f = int (length (filter (\<lambda>r. sp_status r \<noteq> ''running'') spans)) \<and>
     (let running = map sp_span (filter (\<lambda>r. sp_status r = ''running'') spans) in
      fo_skipped f = running @ running \<and> (fo_complete f \<longleftrightarrow> running = []))"
proof -
  let ?running = "map sp_span (filter (\<lambda>r. sp_status r = ''running'') spans)"
  obtain sk w where run: "fold (fold_row ''calls'') spans (?running, []) = (sk, w)" by (cases "fold (fold_row ''calls'') spans (?running, [])")
  then show ?thesis using fold_calls [OF run] by (simp add: folded_def Let_def)
qed

section \<open>Concrete traces\<close>

definition demo_span :: "string \<Rightarrow> string option \<Rightarrow> int \<Rightarrow> int \<Rightarrow> span" where
  "demo_span name parent st en = \<lparr>sp_agent = ''a'', sp_session = ''s'', sp_trace = ''t'', sp_span = name, sp_parent = parent, sp_kind = ''tool'',
     sp_name = ''x'', sp_start = st, sp_clock = ''c'', sp_turn = None, sp_group = None, sp_loop = None, sp_iteration = None, sp_model = None,
     sp_input = JNull, sp_links = [], sp_path = [name], sp_status = ''ok'', sp_end = Some en, sp_duration = Some (en - st), sp_metrics = [],
     sp_source = ''framework-sdk'', sp_run = None, sp_result = JNull, sp_error = JNull\<rparr>"

definition demo_trace :: "span list" where
  "demo_trace = [demo_span ''p'' None 0 10, demo_span ''q'' (Some ''p'') 2 5, demo_span ''r'' (Some ''p'') 4 8]"

lemma demo_trace_wf: "wf_rows 5 demo_trace"
proof -
  have "distinct (map key_of demo_trace) \<and> list_all (\<lambda>r. span_typed r \<and> span_ended r) demo_trace" by code_simp
  moreover have "causal demo_trace"
    unfolding causal_def demo_trace_def
    by (auto simp: Cons_eq_append_conv demo_span_def related_def trace_of_def)
  moreover have "int (count_trace demo_trace t) \<le> 5" for t
    using length_filter_le [of "\<lambda>r. trace_of r = t" demo_trace] by (simp add: count_trace_def demo_trace_def)
  ultimately show ?thesis by (auto simp: wf_rows_def list_all_iff)
qed

theorem self_times_are_uncovered_witness:
  "int (card (uncovered demo_trace (demo_span ''p'' None 0 10))) = 4"
proof -
  let ?g = "group_result demo_trace ([''p''], ''tool'', ''x'', None)"
  have g: "?g \<in> set (pf_groups (profile demo_trace))" "pg_self ?g = Some 4"
    "group_rows demo_trace (pg_key ?g) = [demo_span ''p'' None 0 10]" by code_simp+
  show ?thesis using self_times_are_uncovered [OF demo_trace_wf g(1,2)] unfolding g(3) by simp
qed

theorem profile_partitions_witness:
  "finished demo_trace = demo_trace \<and> distinct (map pg_key (pf_groups (profile demo_trace))) \<and>
   sum_list (map pg_calls (pf_groups (profile demo_trace))) = int (length (finished demo_trace))"
proof -
  have "pf_complete (profile demo_trace)" by code_simp
  then show ?thesis using profile_partitions [of demo_trace] by blast
qed

end
