(* ===== verification/Trace_Exporter.thy ===== *)
theory Trace_Exporter
  imports Trace_Store
begin

text \<open>
  The background exporter of traces, \<^verbatim>\<open>background.py\<close> of
  \<^verbatim>\<open>src/plugins/agent-monitor/src/allox_agent_monitor\<close>.
  The exporter is a state machine: every method is a step under its condition variable, a wait is a
  turn of a loop that leaves the state for the next turn to look at, and the worker thread contributes
  the steps that take a batch and that finish it. What the collector does is an interface: the
  function that sends a batch and the log of events it stands for.
\<close>

section \<open>Acknowledgements\<close>

definition batch_envelope :: "json list \<Rightarrow> json" where
  "batch_envelope evs = JObj [(''event'', JStr ''batch''), (''events'', JList evs)]"

definition complete_ack :: "nat \<Rightarrow> json \<Rightarrow> bool" where
  "complete_ack n ack = (case ack of
      JObj d \<Rightarrow> jget d ''accepted'' = JBool True \<and> jget d ''durable'' = JBool True \<and> jget d ''event_count'' = JInt (int n)
    | _ \<Rightarrow> False)"

section \<open>The exporter\<close>

datatype worker = NoThread | Waiting | Sending "json list" | Stopped

record xconfig =
  xc_batch_size :: nat
  xc_capacity :: int
  xc_max_bytes :: int
  xc_interval :: rat
  xc_timeout :: rat
  xc_pid :: int

record xstate =
  x_queue :: "(json \<times> rat) list"
  x_worker :: worker
  x_closing :: bool
  x_error :: "error option"
  x_force_target :: int
  x_attempted :: int
  x_acknowledged :: int
  x_failed :: int
  x_pending_bytes :: int
  x_wire_bytes :: int
  x_emit_ns :: int
  x_batch_requests :: int
  x_queue_wait_ns :: int
  x_peak_events :: int
  x_peak_bytes :: int
  x_full_waits :: int

definition x_config :: "nat \<Rightarrow> int \<Rightarrow> int \<Rightarrow> rat \<Rightarrow> rat \<Rightarrow> int \<Rightarrow> xconfig res" where
  "x_config batch_size capacity max_bytes interval timeout pid =
     bindR (checkR (1 \<le> capacity \<and> capacity \<le> 65536) (ValueError ''queue_capacity must be 1..65536'')) (\<lambda>_.
     bindR (checkR (65536 \<le> max_bytes \<and> max_bytes \<le> 64 * 1024 * 1024) (ValueError ''queue_bytes must be 64 KiB..64 MiB'')) (\<lambda>_.
     bindR (checkR (0 < interval \<and> interval \<le> 5) (ValueError ''flush_interval must be 0..5 seconds (exclusive zero)'')) (\<lambda>_.
     bindR (checkR (0 < timeout \<and> timeout \<le> 60) (ValueError ''export_timeout must be 0..60 seconds (exclusive zero)'')) (\<lambda>_.
     Inr \<lparr>xc_batch_size = batch_size, xc_capacity = capacity, xc_max_bytes = max_bytes, xc_interval = interval, xc_timeout = timeout,
          xc_pid = pid\<rparr>))))"

definition x_init :: xstate where
  "x_init = \<lparr>x_queue = [], x_worker = NoThread, x_closing = False, x_error = None, x_force_target = 0, x_attempted = 0,
     x_acknowledged = 0, x_failed = 0, x_pending_bytes = 0, x_wire_bytes = 0, x_emit_ns = 0, x_batch_requests = 0,
     x_queue_wait_ns = 0, x_peak_events = 0, x_peak_bytes = 0, x_full_waits = 0\<rparr>"

definition check_pid :: "xconfig \<Rightarrow> int \<Rightarrow> unit res" where
  "check_pid c pid = checkR (pid = xc_pid c) (RuntimeError ''create a new Tracer after fork'')"

definition x_pending :: "xstate \<Rightarrow> int" where
  "x_pending x = x_attempted x - x_acknowledged x - x_failed x"

text \<open>
  \<open>submit\<close>: an event that cannot be encoded or is too large is counted as failed; otherwise one turn of
  the loop looks whether there is room, \<open>None\<close> where it waits. \<open>waited\<close> says that an earlier turn of the
  same call waited, \<open>dt\<close> is the time since the call began.
\<close>

definition submit_reject :: "(xstate, unit) op" where
  "submit_reject x = (Inl (ValueError ''buffered event too large''), x\<lparr>x_attempted := x_attempted x + 1, x_failed := x_failed x + 1\<rparr>)"

definition x_full :: "(json \<Rightarrow> int) \<Rightarrow> xconfig \<Rightarrow> json \<Rightarrow> xstate \<Rightarrow> bool" where
  "x_full sz c ev x = (xc_capacity c \<le> x_pending x \<or> xc_max_bytes c < x_pending_bytes x + sz ev)"

definition x_dead :: "xstate \<Rightarrow> bool" where
  "x_dead x = (x_closing x \<or> x_error x \<noteq> None)"

definition enqueue :: "(json \<Rightarrow> int) \<Rightarrow> json \<Rightarrow> rat \<Rightarrow> int \<Rightarrow> (xstate, unit) op" where
  "enqueue sz ev now dt x =
     (let y = x\<lparr>x_queue_wait_ns := x_queue_wait_ns x + dt, x_attempted := x_attempted x + 1\<rparr> in
      if x_dead x then (Inl (RuntimeError ''profiling exporter closed or failed''), y\<lparr>x_failed := x_failed y + 1\<rparr>)
      else let z = y\<lparr>x_wire_bytes := x_wire_bytes y + sz ev, x_pending_bytes := x_pending_bytes y + sz ev, x_queue := x_queue y @ [(ev, now)]\<rparr> in
        (Inr (), z\<lparr>x_peak_events := max (x_peak_events z) (x_pending z), x_peak_bytes := max (x_peak_bytes z) (x_pending_bytes z),
           x_worker := (if x_worker z = NoThread then Waiting else x_worker z)\<rparr>))"

definition submit_turn :: "(json \<Rightarrow> int) \<Rightarrow> xconfig \<Rightarrow> json \<Rightarrow> bool \<Rightarrow> rat \<Rightarrow> rat \<Rightarrow> int \<Rightarrow> xstate \<Rightarrow> unit res option \<times> xstate" where
  "submit_turn sz c ev waited now deadline dt x =
     (if x_full sz c ev x \<and> \<not> x_dead x
      then let y = (if waited then x else x\<lparr>x_full_waits := x_full_waits x + 1\<rparr>) in
        if deadline - now \<le> 0
        then (Some (Inl (OSError ''profiling queue backpressure timed out; event not accepted'')), y\<lparr>x_attempted := x_attempted y + 1, x_failed := x_failed y + 1,
            x_queue_wait_ns := x_queue_wait_ns y + dt\<rparr>)
        else (None, y)
      else apfst Some (enqueue sz ev now dt x))"

definition submittable :: "(json \<Rightarrow> int) \<Rightarrow> json \<Rightarrow> bool" where
  "submittable sz ev = (encodable ev \<and> sz ev \<le> 60000)"

text \<open>The worker: pulling a batch, one turn of its waits, and the end of a delivery.\<close>

fun pull_batch :: "(json \<Rightarrow> int) \<Rightarrow> nat \<Rightarrow> json list \<Rightarrow> int \<Rightarrow> (json \<times> rat) list \<Rightarrow> json list \<times> (json \<times> rat) list" where
  "pull_batch sz n batch bytes [] = (batch, [])"
| "pull_batch sz n batch bytes ((ev, t) # q) =
     (if n \<le> length batch \<or> (batch \<noteq> [] \<and> 65536 < bytes + sz ev + 2) then (batch, (ev, t) # q)
      else pull_batch sz n (batch @ [ev]) (bytes + sz ev + 2) q)"

definition worker_take :: "(json \<Rightarrow> int) \<Rightarrow> xconfig \<Rightarrow> rat \<Rightarrow> xstate \<Rightarrow> xstate" where
  "worker_take sz c now x =
     (if x_worker x \<noteq> Waiting then x
      else case x_queue x of
          [] \<Rightarrow> if x_closing x then x\<lparr>x_worker := Stopped\<rparr> else x
        | (ev, t) # q \<Rightarrow>
            if \<not> x_closing x \<and> x_force_target x \<le> x_acknowledged x + x_failed x \<and> length (x_queue x) < xc_batch_size c \<and>
               0 < t + xc_interval c - now then x
            else case pull_batch sz (xc_batch_size c) [] 64 (x_queue x) of
                (batch, rest) \<Rightarrow> x\<lparr>x_queue := rest, x_worker := Sending batch, x_batch_requests := x_batch_requests x + 1\<rparr>)"

definition worker_finish :: "(json \<Rightarrow> int) \<Rightarrow> json res \<Rightarrow> int \<Rightarrow> xstate \<Rightarrow> xstate" where
  "worker_finish sz outcome dt x = (case x_worker x of
      Sending batch \<Rightarrow>
        let failure = (case outcome of
              Inl e \<Rightarrow> Some e
            | Inr ack \<Rightarrow> if complete_ack (length batch) ack then None else Some (RuntimeError ''batch lacks a complete durable acknowledgement''));
            y = x\<lparr>x_emit_ns := x_emit_ns x + dt, x_pending_bytes := x_pending_bytes x - sum_list (map sz batch)\<rparr> in
        (case failure of
           None \<Rightarrow> y\<lparr>x_acknowledged := x_acknowledged y + int (length batch), x_worker := Waiting\<rparr>
         | Some e \<Rightarrow> y\<lparr>x_failed := x_failed y + int (length batch + length (x_queue y)), x_pending_bytes := 0, x_queue := [],
             x_error := Some e, x_worker := Stopped\<rparr>)
    | _ \<Rightarrow> x)"

definition flush_begin :: "xstate \<Rightarrow> int \<times> xstate" where
  "flush_begin x = (x_attempted x, x\<lparr>x_force_target := max (x_force_target x) (x_attempted x)\<rparr>)"

definition flush_turn :: "int \<Rightarrow> rat \<Rightarrow> rat \<Rightarrow> xstate \<Rightarrow> unit res option" where
  "flush_turn target now deadline x =
     (if x_acknowledged x + x_failed x < target
      then if deadline - now \<le> 0 then Some (Inl (OSError ''profiling durability barrier timed out; delivery remains unconfirmed'')) else None
      else if x_failed x \<noteq> 0 then Some (Inl (RuntimeError ''profiling durability barrier has failed events''))
      else Some (Inr ()))"

definition close_begin :: "xstate \<Rightarrow> xstate" where
  "close_begin x = x\<lparr>x_closing := True\<rparr>"

definition close_end :: "xstate \<Rightarrow> unit res" where
  "close_end x = checkR (x_worker x \<in> {NoThread, Stopped}) (OSError ''profiling worker did not stop; pending delivery is not durable'')"

definition x_complete :: "xstate \<Rightarrow> bool" where
  "x_complete x = (x_failed x = 0 \<and> x_pending x = 0)"

definition x_health :: "xconfig \<Rightarrow> xstate \<Rightarrow> json" where
  "x_health c x = JObj [(''attempted_events'', JInt (x_attempted x)), (''acknowledged_events'', JInt (x_acknowledged x)),
     (''failed_events'', JInt (x_failed x)), (''pending_events'', JInt (x_pending x)), (''pending_bytes'', JInt (x_pending_bytes x)),
     (''complete'', JBool (x_complete x)), (''serialized_bytes'', JInt (x_wire_bytes x)), (''emit_ns'', JInt (x_emit_ns x)),
     (''batch_requests'', JInt (x_batch_requests x)), (''queue_wait_ns'', JInt (x_queue_wait_ns x)),
     (''queue_full_waits'', JInt (x_full_waits x)), (''queue_capacity'', JInt (xc_capacity c)),
     (''queue_bytes_limit'', JInt (xc_max_bytes c)), (''peak_pending_events'', JInt (x_peak_events x)),
     (''peak_pending_bytes'', JInt (x_peak_bytes x)), (''worker_alive'', JBool (x_worker x \<notin> {NoThread, Stopped})),
     (''closed'', JBool (x_closing x)), (''export_failed'', JBool (x_error x \<noteq> None)),
     (''durability'', JStr ''only acknowledged events; memory queue is not crash durable'')]"

section \<open>Runs\<close>

text \<open>
  The steps of the threads around one exporter: a turn of \<open>submit\<close>, the worker taking a batch and finishing
  it, the start of a flush and of a close. The state is the exporter, the collector and the events accepted so
  far, in order.
\<close>

datatype xstep = Submit json bool rat rat int | Take rat | Finish int | FlushBegin | CloseBegin

type_synonym 's xrun = "xstate \<times> 's \<times> json list"

definition x_step :: "(json \<Rightarrow> int) \<Rightarrow> xconfig \<Rightarrow> (json list \<Rightarrow> ('s, json) op) \<Rightarrow> xstep \<Rightarrow> 's xrun \<Rightarrow> 's xrun" where
  "x_step sz c send step run = (case run of (x, s, taken) \<Rightarrow> (case step of
      Submit ev waited now deadline dt \<Rightarrow>
        if \<not> submittable sz ev then (snd (submit_reject x), s, taken)
        else (case submit_turn sz c ev waited now deadline dt x of
            (Some (Inr _), y) \<Rightarrow> (y, s, taken @ [ev])
          | (_, y) \<Rightarrow> (y, s, taken))
    | Take now \<Rightarrow> (worker_take sz c now x, s, taken)
    | Finish dt \<Rightarrow> (case x_worker x of
          Sending batch \<Rightarrow> (case send batch s of (r, s') \<Rightarrow> (worker_finish sz r dt x, s', taken))
        | _ \<Rightarrow> (x, s, taken))
    | FlushBegin \<Rightarrow> (snd (flush_begin x), s, taken)
    | CloseBegin \<Rightarrow> (close_begin x, s, taken)))"

definition x_runs :: "(json \<Rightarrow> int) \<Rightarrow> xconfig \<Rightarrow> (json list \<Rightarrow> ('s, json) op) \<Rightarrow> xstep list \<Rightarrow> 's xrun \<Rightarrow> 's xrun" where
  "x_runs sz c send steps run = fold (x_step sz c send) steps run"

section \<open>The invariant of the exporter\<close>

definition in_flight :: "xstate \<Rightarrow> json list" where
  "in_flight x = (case x_worker x of Sending batch \<Rightarrow> batch | _ \<Rightarrow> [])"

definition waiting_events :: "xstate \<Rightarrow> json list" where
  "waiting_events x = in_flight x @ map fst (x_queue x)"

definition counts_ok :: "(json \<Rightarrow> int) \<Rightarrow> xconfig \<Rightarrow> xstate \<Rightarrow> bool" where
  "counts_ok sz c x = (x_pending x = int (length (waiting_events x)) \<and> x_pending_bytes x = sum_list (map sz (waiting_events x)) \<and>
     x_pending x \<le> xc_capacity c \<and> x_pending_bytes x \<le> xc_max_bytes c \<and> 0 \<le> x_acknowledged x \<and> 0 \<le> x_failed x \<and>
     x_peak_events x \<le> xc_capacity c \<and> x_peak_bytes x \<le> xc_max_bytes c \<and> list_all (submittable sz) (waiting_events x))"

definition batch_ok :: "(json \<Rightarrow> int) \<Rightarrow> xconfig \<Rightarrow> json list \<Rightarrow> bool" where
  "batch_ok sz c batch = (batch \<noteq> [] \<and> length batch \<le> xc_batch_size c \<and> 64 + sum_list (map (\<lambda>ev. sz ev + 2) batch) \<le> 65536)"

definition worker_ok :: "(json \<Rightarrow> int) \<Rightarrow> xconfig \<Rightarrow> xstate \<Rightarrow> bool" where
  "worker_ok sz c x = (case x_worker x of
      NoThread \<Rightarrow> x_queue x = [] \<and> x_error x = None
    | Waiting \<Rightarrow> x_error x = None
    | Sending batch \<Rightarrow> x_error x = None \<and> batch_ok sz c batch
    | Stopped \<Rightarrow> x_queue x = [] \<and> x_dead x \<and> (x_error x \<noteq> None \<longrightarrow> 0 < x_failed x))"

definition x_ok :: "(json \<Rightarrow> int) \<Rightarrow> xconfig \<Rightarrow> xstate \<Rightarrow> bool" where
  "x_ok sz c x = (counts_ok sz c x \<and> worker_ok sz c x)"

lemma pull_batch_append: "pull_batch sz n batch bytes q = (b, rest) \<Longrightarrow> \<exists>front. b = batch @ map fst front \<and> q = front @ rest"
proof (induction q arbitrary: batch bytes)
  case (Cons p q)
  obtain ev t where p: "p = (ev, t)" by (cases p)
  show ?case
  proof (cases "n \<le> length batch \<or> (batch \<noteq> [] \<and> 65536 < bytes + sz ev + 2)")
    case True
    then show ?thesis using Cons.prems by (auto simp: p)
  next
    case False
    then have "pull_batch sz n (batch @ [ev]) (bytes + sz ev + 2) q = (b, rest)" using Cons.prems by (auto simp: p)
    from Cons.IH [OF this] obtain front where "b = (batch @ [ev]) @ map fst front" "q = front @ rest" by blast
    then show ?thesis by (intro exI [of _ "p # front"]) (simp add: p)
  qed
qed simp

lemma pull_batch_bounds:
  assumes "pull_batch sz n batch bytes q = (b, rest)" and "length batch \<le> n" and "bytes = 64 + sum_list (map (\<lambda>ev. sz ev + 2) batch)"
    and "bytes \<le> 65536" and "\<forall>(ev, t) \<in> set q. sz ev \<le> 60000"
  shows "length b \<le> n \<and> 64 + sum_list (map (\<lambda>ev. sz ev + 2) b) \<le> 65536"
  using assms
proof (induction q arbitrary: batch bytes)
  case (Cons p q)
  obtain ev t where p: "p = (ev, t)" by (cases p)
  show ?case
  proof (cases "n \<le> length batch \<or> (batch \<noteq> [] \<and> 65536 < bytes + sz ev + 2)")
    case True
    then show ?thesis using Cons.prems by (auto simp: p)
  next
    case False
    have "bytes + sz ev + 2 \<le> 65536" using False Cons.prems(3,5) by (cases "batch = []") (auto simp: p)
    then show ?thesis using Cons.IH [of "batch @ [ev]" "bytes + sz ev + 2"] Cons.prems False by (auto simp: p)
  qed
qed simp

lemma pull_batch_nonempty: "pull_batch sz n [] bytes (p # q) = (b, rest) \<Longrightarrow> 1 \<le> n \<Longrightarrow> b \<noteq> []"
proof -
  assume "pull_batch sz n [] bytes (p # q) = (b, rest)" "1 \<le> n"
  then have "pull_batch sz n [fst p] (bytes + sz (fst p) + 2) q = (b, rest)" by (cases p) auto
  then show ?thesis using pull_batch_append by fastforce
qed

lemma sum_size_nonneg: "(\<And>v. 0 \<le> sz v) \<Longrightarrow> 0 \<le> sum_list (map sz evs)" for sz :: "json \<Rightarrow> int"
  by (intro sum_list_nonneg) auto

text \<open>What a step leaves of the state, as far as the invariant looks at it.\<close>

definition same_flow :: "xstate \<Rightarrow> xstate \<Rightarrow> bool" where
  "same_flow x y = (x_queue y = x_queue x \<and> x_worker y = x_worker x \<and> x_error y = x_error x \<and> (x_dead x \<longrightarrow> x_dead y) \<and>
     x_pending y = x_pending x \<and> x_pending_bytes y = x_pending_bytes x \<and> x_acknowledged y = x_acknowledged x \<and> x_failed x \<le> x_failed y \<and>
     x_peak_events y = x_peak_events x \<and> x_peak_bytes y = x_peak_bytes x)"

lemma same_flow_ok: "same_flow x y \<Longrightarrow> x_ok sz c x \<Longrightarrow> x_ok sz c y \<and> waiting_events y = waiting_events x \<and> x_acknowledged y = x_acknowledged x \<and> x_error y = x_error x"
proof -
  assume same: "same_flow x y" and ok: "x_ok sz c x"
  have w: "waiting_events y = waiting_events x" using same by (simp add: same_flow_def waiting_events_def in_flight_def)
  moreover have "counts_ok sz c y" using same ok by (auto simp: same_flow_def x_ok_def counts_ok_def w)
  moreover have "worker_ok sz c y" using same ok by (auto simp: same_flow_def x_ok_def worker_ok_def split: worker.split)
  ultimately show ?thesis using same by (simp add: same_flow_def x_ok_def)
qed

lemma same_flow_steps:
  "same_flow x x" "same_flow x (snd (submit_reject x))" "same_flow x (snd (flush_begin x))" "same_flow x (close_begin x)"
  "same_flow x (x\<lparr>x_full_waits := w\<rparr>)"
  "same_flow x (x\<lparr>x_full_waits := w, x_attempted := x_attempted x + 1, x_failed := x_failed x + 1, x_queue_wait_ns := n\<rparr>)"
  "same_flow x (x\<lparr>x_attempted := x_attempted x + 1, x_failed := x_failed x + 1, x_queue_wait_ns := n\<rparr>)"
  "same_flow x (x\<lparr>x_queue_wait_ns := n, x_attempted := x_attempted x + 1, x_failed := x_failed x + 1\<rparr>)"
  by (simp_all add: same_flow_def submit_reject_def flush_begin_def close_begin_def x_pending_def x_dead_def)

lemma enqueue_ok:
  assumes "x_ok sz c x" and "\<not> x_full sz c ev x" and "submittable sz ev" and "\<not> x_dead x" and "enqueue sz ev now dt x = (r, y)"
  shows "x_ok sz c y \<and> r = Inr () \<and> waiting_events y = waiting_events x @ [ev] \<and> x_acknowledged y = x_acknowledged x \<and> x_error y = x_error x"
proof -
  have room: "x_pending x < xc_capacity c" "x_pending_bytes x + sz ev \<le> xc_max_bytes c" using assms(2) by (auto simp: x_full_def)
  have worker: "x_worker x \<noteq> Stopped" using assms(1,4) by (auto simp: x_ok_def worker_ok_def)
  have y: "r = Inr ()" "x_queue y = x_queue x @ [(ev, now)]" "x_worker y = (if x_worker x = NoThread then Waiting else x_worker x)"
    "x_error y = x_error x" "x_closing y = x_closing x" "x_pending y = x_pending x + 1" "x_pending_bytes y = x_pending_bytes x + sz ev"
    "x_acknowledged y = x_acknowledged x" "x_failed y = x_failed x" "x_peak_events y = max (x_peak_events x) (x_pending x + 1)"
    "x_peak_bytes y = max (x_peak_bytes x) (x_pending_bytes x + sz ev)"
    using assms(4,5) by (auto simp: enqueue_def Let_def x_pending_def)
  have events: "waiting_events y = waiting_events x @ [ev]"
    by (cases "x_worker x") (simp_all add: waiting_events_def in_flight_def y)
  have "counts_ok sz c y" using assms(1,3) room by (simp add: x_ok_def counts_ok_def events y)
  moreover have "worker_ok sz c y" using assms(1) worker by (cases "x_worker x") (simp_all add: x_ok_def worker_ok_def y)
  ultimately show ?thesis using events y by (simp add: x_ok_def)
qed

lemma submit_turn_ok:
  assumes "x_ok sz c x" and "submittable sz ev" and "submit_turn sz c ev waited now deadline dt x = (r, y)"
  shows "x_ok sz c y \<and> waiting_events y = waiting_events x @ (if r = Some (Inr ()) then [ev] else []) \<and>
    x_acknowledged y = x_acknowledged x \<and> x_error y = x_error x"
proof -
  consider (full) "x_full sz c ev x" "\<not> x_dead x" | (dead) "x_dead x" | (room) "\<not> x_full sz c ev x" "\<not> x_dead x" by blast
  then show ?thesis
  proof cases
    case full
    then have "same_flow x y \<and> r \<noteq> Some (Inr ())"
      using assms(3) same_flow_steps by (auto simp: submit_turn_def Let_def split: if_split_asm)
    then show ?thesis using same_flow_ok [of x y sz c] assms(1) by simp
  next
    case dead
    then have "same_flow x y \<and> r \<noteq> Some (Inr ())"
      using assms(3) same_flow_steps(8) by (auto simp: submit_turn_def enqueue_def Let_def)
    then show ?thesis using same_flow_ok [of x y sz c] assms(1) by simp
  next
    case room
    obtain r' where en: "enqueue sz ev now dt x = (r', y)" "r = Some r'"
      using assms(3) room by (cases "enqueue sz ev now dt x") (auto simp: submit_turn_def)
    then show ?thesis using enqueue_ok [OF assms(1) room(1) assms(2) room(2) en(1)] by simp
  qed
qed

lemma worker_take_ok:
  assumes "x_ok sz c x" and "1 \<le> xc_batch_size c"
  shows "x_ok sz c (worker_take sz c now x) \<and> waiting_events (worker_take sz c now x) = waiting_events x \<and>
    x_acknowledged (worker_take sz c now x) = x_acknowledged x \<and> x_error (worker_take sz c now x) = x_error x"
proof -
  consider (idle) "worker_take sz c now x = x"
    | (stop) "x_worker x = Waiting" "x_queue x = []" "x_closing x" "worker_take sz c now x = x\<lparr>x_worker := Stopped\<rparr>"
    | (take) p q batch rest where "x_worker x = Waiting" "x_queue x = p # q" "pull_batch sz (xc_batch_size c) [] 64 (x_queue x) = (batch, rest)"
        "worker_take sz c now x = x\<lparr>x_queue := rest, x_worker := Sending batch, x_batch_requests := x_batch_requests x + 1\<rparr>"
  proof (cases "x_worker x = Waiting \<and> worker_take sz c now x \<noteq> x")
    case True
    obtain batch rest where pull: "pull_batch sz (xc_batch_size c) [] 64 (x_queue x) = (batch, rest)" by fastforce
    show thesis
    proof (cases "x_queue x")
      case Nil
      then have "x_closing x" "worker_take sz c now x = x\<lparr>x_worker := Stopped\<rparr>" using True by (auto simp: worker_take_def split: if_split_asm)
      then show thesis using True Nil stop by blast
    next
      case (Cons p q)
      then have "worker_take sz c now x = x\<lparr>x_queue := rest, x_worker := Sending batch, x_batch_requests := x_batch_requests x + 1\<rparr>"
        using True pull by (cases p) (auto simp: worker_take_def split: if_split_asm)
      then show thesis using True Cons pull take by blast
    qed
  qed (use idle in \<open>auto simp: worker_take_def\<close>)
  then show ?thesis
  proof cases
    case stop
    then have "x_error x = None" using assms(1) by (simp add: x_ok_def worker_ok_def)
    then show ?thesis using assms(1) stop
      by (simp add: x_ok_def counts_ok_def worker_ok_def waiting_events_def in_flight_def x_pending_def x_dead_def)
  next
    case take
    obtain front where front: "batch = map fst front" "x_queue x = front @ rest" using pull_batch_append [OF take(3)] by auto
    have events: "waiting_events (worker_take sz c now x) = waiting_events x"
      unfolding take(4) using take(1) front by (simp add: waiting_events_def in_flight_def)
    have "list_all (submittable sz) (waiting_events x)" using assms(1) by (simp add: x_ok_def counts_ok_def)
    then have "\<forall>(ev, t) \<in> set (x_queue x). sz ev \<le> 60000" by (force simp: waiting_events_def submittable_def list_all_iff)
    from pull_batch_bounds [OF take(3) _ _ _ this] have "batch_ok sz c batch"
      using pull_batch_nonempty [of sz "xc_batch_size c" 64 p q batch rest] take(2,3) assms(2) by (simp add: batch_ok_def)
    then show ?thesis using assms(1) take(1) events
      by (simp add: x_ok_def counts_ok_def worker_ok_def take(4) x_pending_def)
  qed (use assms(1) in simp)
qed

lemma worker_finish_ok:
  assumes "x_ok sz c x" and "\<And>v. 0 \<le> sz v" and "x_worker x = Sending batch" and "y = worker_finish sz outcome dt x"
  shows "x_ok sz c y \<and> (if (\<exists>ack. outcome = Inr ack \<and> complete_ack (length batch) ack)
    then x_error y = None \<and> waiting_events x = batch @ waiting_events y \<and> x_acknowledged y = x_acknowledged x + int (length batch)
    else x_error y \<noteq> None \<and> waiting_events y = [] \<and> x_acknowledged y = x_acknowledged x)"
proof -
  have ok: "counts_ok sz c x" "x_error x = None" using assms(1,3) by (simp_all add: x_ok_def worker_ok_def)
  have ev: "waiting_events x = batch @ map fst (x_queue x)" using assms(3) by (simp add: waiting_events_def in_flight_def)
  have nonneg: "0 \<le> sum_list (map sz evs)" for evs using sum_size_nonneg [of sz] assms(2) by blast
  show ?thesis
  proof (cases "\<exists>ack. outcome = Inr ack \<and> complete_ack (length batch) ack")
    case True
    then have y: "y = x\<lparr>x_emit_ns := x_emit_ns x + dt, x_pending_bytes := x_pending_bytes x - sum_list (map sz batch),
        x_acknowledged := x_acknowledged x + int (length batch), x_worker := Waiting\<rparr>"
      using assms(3,4) by (auto simp: worker_finish_def Let_def)
    have evs: "waiting_events y = map fst (x_queue x)" by (simp add: waiting_events_def in_flight_def y)
    have "counts_ok sz c y" using ok(1) nonneg [of batch] unfolding counts_ok_def evs by (simp add: ev y x_pending_def)
    then show ?thesis using True evs ok(2) by (simp add: x_ok_def worker_ok_def y ev)
  next
    case False
    then obtain e where y: "y = x\<lparr>x_emit_ns := x_emit_ns x + dt, x_failed := x_failed x + int (length batch + length (x_queue x)),
        x_pending_bytes := 0, x_queue := [], x_error := Some e, x_worker := Stopped\<rparr>"
      using assms(3,4) by (auto simp: worker_finish_def Let_def split: sum.splits)
    have evs: "waiting_events y = []" by (simp add: waiting_events_def in_flight_def y)
    have "0 \<le> x_pending x" "0 \<le> x_pending_bytes x" using ok(1) nonneg [of "waiting_events x"] by (simp_all add: counts_ok_def)
    then have "counts_ok sz c y" using ok(1) unfolding counts_ok_def evs by (simp add: ev y x_pending_def)
    moreover have "batch \<noteq> []" "0 \<le> x_failed x" using assms(1,3) ok(1) by (simp_all add: x_ok_def worker_ok_def batch_ok_def counts_ok_def)
    then have "0 < x_failed x + int (length batch + length (x_queue x))" by (cases batch) simp_all
    ultimately show ?thesis using False evs by (simp add: x_ok_def worker_ok_def y x_dead_def)
  qed
qed

lemma x_step_ok:
  assumes "x_ok sz c x" and "\<And>v. 0 \<le> sz v" and "1 \<le> xc_batch_size c"
  shows "x_ok sz c (fst (x_step sz c send step (x, s, taken)))"
proof (cases step)
  case (Submit ev waited now deadline dt)
  obtain r y where turn: "submit_turn sz c ev waited now deadline dt x = (r, y)" by fastforce
  have "x_ok sz c (snd (submit_reject x))" using same_flow_ok same_flow_steps(2) assms(1) by blast
  moreover have "x_ok sz c y" if "submittable sz ev" using submit_turn_ok [OF assms(1) that turn] by blast
  ultimately show ?thesis by (auto simp: x_step_def Submit turn split: option.split sum.split)
next
  case (Take now)
  then show ?thesis using worker_take_ok [OF assms(1,3)] by (simp add: x_step_def)
next
  case (Finish dt)
  show ?thesis
  proof (cases "x_worker x")
    case (Sending batch)
    obtain r s' where "send batch s = (r, s')" by fastforce
    then show ?thesis using worker_finish_ok [OF assms(1,2) Sending refl, of r dt] by (simp add: x_step_def Finish Sending)
  qed (use assms(1) in \<open>simp_all add: x_step_def Finish\<close>)
next
  case FlushBegin
  then show ?thesis using same_flow_ok [OF same_flow_steps(3) assms(1)] by (simp add: x_step_def)
next
  case CloseBegin
  then show ?thesis using same_flow_ok [OF same_flow_steps(4) assms(1)] by (simp add: x_step_def)
qed

section \<open>Collectors\<close>

text \<open>
  What an exporter relies on: a state stands for a log of events; a complete acknowledgement extends the
  log by the batch; anything else leaves the log or, where the answer can be ambiguous, extends it
  without the producer learning of it.
\<close>

locale collector =
  fixes send :: "json list \<Rightarrow> ('s, json) op"
    and stands_for :: "'s \<Rightarrow> json list \<Rightarrow> bool"
    and ambiguous :: bool
  assumes acked: "stands_for s l \<Longrightarrow> send evs s = (Inr ack, s') \<Longrightarrow> complete_ack (length evs) ack \<Longrightarrow> stands_for s' (l @ evs)"
    and refused: "stands_for s l \<Longrightarrow> send evs s = (r, s') \<Longrightarrow> \<not> (\<exists>ack. r = Inr ack \<and> complete_ack (length evs) ack) \<Longrightarrow>
      stands_for s' l \<or> ambiguous \<and> stands_for s' (l @ evs)"
begin

definition delivered :: "'s xrun \<Rightarrow> bool" where
  "delivered run = (case run of (x, s, taken) \<Rightarrow> \<exists>sent extra rest. taken = sent @ extra @ rest \<and> x_acknowledged x = int (length sent) \<and>
     stands_for s (sent @ extra) \<and> (extra = [] \<or> ambiguous) \<and> (x_error x = None \<longrightarrow> extra = [] \<and> rest = waiting_events x))"

lemma deliveredI:
  "x_error x = None \<Longrightarrow> taken = sent @ waiting_events x \<Longrightarrow> stands_for s sent \<Longrightarrow> x_acknowledged x = int (length sent) \<Longrightarrow> delivered (x, s, taken)"
  "x_error x \<noteq> None \<Longrightarrow> taken = sent @ extra @ rest \<Longrightarrow> stands_for s (sent @ extra) \<Longrightarrow> extra = [] \<or> ambiguous \<Longrightarrow>
    x_acknowledged x = int (length sent) \<Longrightarrow> delivered (x, s, taken)"
  unfolding delivered_def prod.case
  by ((rule exI [of _ sent], rule exI [of _ "[]"], rule exI [of _ "waiting_events x"], simp),
      (rule exI [of _ sent], rule exI [of _ extra], rule exI [of _ rest], auto))

lemma deliveredE:
  assumes "delivered (x, s, taken)"
  obtains (live) sent where "x_error x = None" "taken = sent @ waiting_events x" "stands_for s sent" "x_acknowledged x = int (length sent)"
  | (broken) sent extra rest where "x_error x \<noteq> None" "taken = sent @ extra @ rest" "stands_for s (sent @ extra)" "extra = [] \<or> ambiguous"
      "x_acknowledged x = int (length sent)"
  using assms by (cases "x_error x = None") (auto simp: delivered_def)

lemma delivered_extend:
  assumes "delivered (x, s, taken)" and "x_error y = x_error x" and "x_acknowledged y = x_acknowledged x"
    and "waiting_events y = waiting_events x @ new" and "x_error x \<noteq> None \<Longrightarrow> new = []"
  shows "delivered (y, s, taken @ new)"
  using assms(1)
proof (cases rule: deliveredE)
  case (live sent)
  then show ?thesis using assms by (intro deliveredI(1) [of _ _ sent]) simp_all
next
  case (broken sent extra rest)
  then show ?thesis using assms by (intro deliveredI(2) [of _ _ sent extra rest]) simp_all
qed

lemma delivered_step:
  assumes "delivered (x, s, taken)" and "x_ok sz c x" and "\<And>v. 0 \<le> sz v" and "1 \<le> xc_batch_size c"
  shows "delivered (x_step sz c send step (x, s, taken))"
proof (cases step)
  case (Submit ev waited now deadline dt)
  obtain r y where turn: "submit_turn sz c ev waited now deadline dt x = (r, y)" by fastforce
  have reject: "delivered (snd (submit_reject x), s, taken)"
    using delivered_extend [of x s taken "snd (submit_reject x)" "[]"] same_flow_ok [OF same_flow_steps(2) assms(2)] assms(1) by simp
  have "delivered (y, s, taken @ (if r = Some (Inr ()) then [ev] else []))" if "submittable sz ev"
  proof (rule delivered_extend [OF assms(1)])
    assume "x_error x \<noteq> None"
    then have "x_dead x" by (simp add: x_dead_def)
    then show "(if r = Some (Inr ()) then [ev] else []) = []" using turn by (auto simp: submit_turn_def enqueue_def Let_def)
  qed (use submit_turn_ok [OF assms(2) that turn] in simp_all)
  then show ?thesis using reject by (auto simp: x_step_def Submit turn split: option.split sum.split)
next
  case (Take now)
  then show ?thesis using delivered_extend [of x s taken "worker_take sz c now x" "[]"] worker_take_ok [OF assms(2,4), of now] assms(1)
    by (simp add: x_step_def)
next
  case (Finish dt)
  show ?thesis
  proof (cases "x_worker x")
    case (Sending batch)
    obtain r s' where send: "send batch s = (r, s')" by fastforce
    let ?y = "worker_finish sz r dt x"
    have err: "x_error x = None" and ev: "waiting_events x = batch @ map fst (x_queue x)"
      using assms(2) Sending by (simp_all add: x_ok_def worker_ok_def waiting_events_def in_flight_def)
    obtain sent where sent: "x_acknowledged x = int (length sent)" "taken = sent @ waiting_events x" "stands_for s sent"
      using assms(1) err by (auto elim: deliveredE)
    note fin = worker_finish_ok [OF assms(2,3) Sending refl, of r dt]
    have "delivered (?y, s', taken)"
    proof (cases "\<exists>ack. r = Inr ack \<and> complete_ack (length batch) ack")
      case True
      then have "stands_for s' (sent @ batch)" using acked sent(3) send by blast
      then show ?thesis using fin True sent by (intro deliveredI(1) [of _ _ "sent @ batch"]) simp_all
    next
      case False
      show ?thesis
      proof (cases "stands_for s' sent")
        case True
        then show ?thesis using fin False sent by (intro deliveredI(2) [of _ _ sent "[]"]) simp_all
      next
        case no: False
        then have "ambiguous \<and> stands_for s' (sent @ batch)" using refused [OF sent(3) send False] by blast
        then show ?thesis using fin False sent ev by (intro deliveredI(2) [of _ _ sent batch]) simp_all
      qed
    qed
    then show ?thesis by (simp add: x_step_def Finish Sending send)
  qed (use assms(1) in \<open>simp_all add: x_step_def Finish\<close>)
next
  case FlushBegin
  then show ?thesis using delivered_extend [of x s taken "snd (flush_begin x)" "[]"] same_flow_ok [OF same_flow_steps(3) assms(2)] assms(1)
    by (simp add: x_step_def)
next
  case CloseBegin
  then show ?thesis using delivered_extend [of x s taken "close_begin x" "[]"] same_flow_ok [OF same_flow_steps(4) assms(2)] assms(1)
    by (simp add: x_step_def)
qed

lemma delivered_runs:
  assumes "\<And>v. 0 \<le> sz v" and "1 \<le> xc_batch_size c"
  shows "delivered run \<Longrightarrow> x_ok sz c (fst run) \<Longrightarrow> delivered (x_runs sz c send steps run) \<and> x_ok sz c (fst (x_runs sz c send steps run))"
  unfolding x_runs_def
proof (induction steps arbitrary: run)
  case (Cons step steps)
  obtain x s taken where run: "run = (x, s, taken)" by (metis prod.collapse)
  have "delivered (x_step sz c send step run)" using delivered_step [OF _ _ assms] Cons.prems by (simp add: run)
  moreover have "x_ok sz c (fst (x_step sz c send step run))" using x_step_ok [OF _ assms] Cons.prems by (simp add: run)
  ultimately show ?case using Cons.IH by simp
qed simp

end

section \<open>The span store as a collector\<close>

text \<open>
  Batches handed to the store in the same process; the state is the store and the errors the next commits
  end in. It stands for the log that, sent one by one, leaves its rows.
\<close>

definition store_send :: "(json \<Rightarrow> int) \<Rightarrow> json \<Rightarrow> json \<Rightarrow> string \<Rightarrow> string option \<Rightarrow> json list \<Rightarrow> (tstore \<times> error option list, json) op" where
  "store_send sz agent session source run evs s = (case s of (st, faults) \<Rightarrow>
     case ingest sz (case faults of [] \<Rightarrow> None | f # fs \<Rightarrow> f) 0 agent session (batch_envelope evs) source run st of
       (r, st') \<Rightarrow> (r, (st', tl faults)))"

definition store_log :: "(json \<Rightarrow> int) \<Rightarrow> json \<Rightarrow> json \<Rightarrow> string \<Rightarrow> string option \<Rightarrow> int \<Rightarrow> tstore \<times> error option list \<Rightarrow> json list \<Rightarrow> bool" where
  "store_log sz agent session source run mx s evs = (ts_max (fst s) = mx \<and>
     ingest_each sz mx agent session source run evs [] = Inr (ts_rows (fst s)))"

lemma ingest_each_append: "ingest_each sz mx agent session source run (evs @ evs') rows =
    bindR (ingest_each sz mx agent session source run evs rows) (ingest_each sz mx agent session source run evs')"
  by (induction evs arbitrary: rows) (auto simp: bindR_def split: sum.splits prod.splits)

lemma store_send_cases:
  assumes "store_send sz agent session source run evs (st, faults) = (r, s')"
  obtains (refused) e st' where "r = Inl e" "s' = (st', tl faults)" "ts_rows st' = ts_rows st" "ts_max st' = ts_max st"
  | (stored) ack st' where "r = Inr ack" "complete_ack (length evs) ack" "s' = (st', tl faults)" "ts_max st' = ts_max st"
      "ingest_each sz (ts_max st) agent session source run evs (ts_rows st) = Inr (ts_rows st')"
proof -
  let ?d = "[(''event'', JStr ''batch''), (''events'', JList evs)]"
  let ?f = "case faults of [] \<Rightarrow> None | f # fs \<Rightarrow> f"
  obtain st' where run: "ingest_batch sz ?f 0 agent session ?d source run st = (r, st')" "s' = (st', tl faults)"
    using assms by (auto simp: store_send_def batch_envelope_def ingest_def dict_get_def split: prod.splits)
  have same: "evs' = evs" if "batch_events sz ?d = Inr evs'" for evs' using batch_events_Inr [OF that] by (simp add: dict_get_def)
  show thesis
  proof (cases r)
    case (Inl e)
    then have "ts_rows st' = ts_rows st" "ts_max st' = ts_max st" using run(1) by (auto simp: ingest_batch_def split: sum.splits)
    then show thesis using Inl run(2) refused by blast
  next
    case (Inr ack)
    then have "complete_ack (length evs) ack" "ts_max st' = ts_max st"
      "ingest_each sz (ts_max st) agent session source run evs (ts_rows st) = Inr (ts_rows st')"
      using run(1) by (auto simp: ingest_batch_def bindR_def complete_ack_def dict_get_def split: sum.splits option.splits dest: same)
    then show thesis using Inr run(2) stored by blast
  qed
qed

interpretation direct: collector "store_send sz agent session source run" "store_log sz agent session source run mx" False
proof
  fix s l evs ack s'
  assume log: "store_log sz agent session source run mx s l" and send: "store_send sz agent session source run evs s = (Inr ack, s')"
  obtain st fs where s: "s = (st, fs)" by (cases s)
  from send [unfolded s] show "store_log sz agent session source run mx s' (l @ evs)"
    by (cases rule: store_send_cases) (use log s in \<open>auto simp: store_log_def ingest_each_append\<close>)
next
  fix s l evs s' and r :: "error + json"
  assume log: "store_log sz agent session source run mx s l" and send: "store_send sz agent session source run evs s = (r, s')"
    and bad: "\<not> (\<exists>ack. r = Inr ack \<and> complete_ack (length evs) ack)"
  obtain st fs where s: "s = (st, fs)" by (cases s)
  from send [unfolded s] have "store_log sz agent session source run mx s' l"
    by (cases rule: store_send_cases) (use log s bad in \<open>auto simp: store_log_def\<close>)
  then show "store_log sz agent session source run mx s' l \<or> False \<and> store_log sz agent session source run mx s' (l @ evs)" by simp
qed

text \<open>
  The same store behind the Session's socket (\<^verbatim>\<open>transport.py\<close>): a request may fail before it arrives, and
  an answer may be lost after the batch was handled.
\<close>

datatype fate = Answered | RequestLost error | AnswerLost error

definition socket_send :: "(json list \<Rightarrow> ('s, json) op) \<Rightarrow> json list \<Rightarrow> ('s \<times> fate list, json) op" where
  "socket_send send evs s = (case s of (st, fates) \<Rightarrow>
     case (case fates of [] \<Rightarrow> Answered | f # fs \<Rightarrow> f) of
       Answered \<Rightarrow> (case send evs st of (r, st') \<Rightarrow> (r, (st', tl fates)))
     | RequestLost e \<Rightarrow> (Inl e, (st, tl fates))
     | AnswerLost e \<Rightarrow> (case send evs st of (r, st') \<Rightarrow> (Inl e, (st', tl fates))))"

interpretation socket: collector "socket_send (store_send sz agent session source run)"
  "\<lambda>s. store_log sz agent session source run mx (fst s)" True
proof
  fix s l evs ack s'
  assume log: "store_log sz agent session source run mx (fst s) l"
    and send: "socket_send (store_send sz agent session source run) evs s = (Inr ack, s')" and ack: "complete_ack (length evs) ack"
  then have "store_send sz agent session source run evs (fst s) = (Inr ack, fst s')"
    by (auto simp: socket_send_def split: prod.splits fate.splits)
  then show "store_log sz agent session source run mx (fst s') (l @ evs)" using direct.acked log ack by blast
next
  fix s l evs s' and r :: "error + json"
  assume log: "store_log sz agent session source run mx (fst s) l"
    and send: "socket_send (store_send sz agent session source run) evs s = (r, s')"
    and bad: "\<not> (\<exists>ack. r = Inr ack \<and> complete_ack (length evs) ack)"
  consider "fst s' = fst s" | r' where "store_send sz agent session source run evs (fst s) = (r', fst s')"
    using send by (auto simp: socket_send_def split: prod.splits fate.splits)
  then show "store_log sz agent session source run mx (fst s') l \<or> True \<and> store_log sz agent session source run mx (fst s') (l @ evs)"
  proof cases
    case (2 r')
    then show ?thesis using direct.refused [OF log 2] direct.acked [OF log] by blast
  qed (use log in simp)
qed

section \<open>Properties\<close>

lemma x_config_Inr: "x_config b capacity max_bytes interval timeout pid = Inr c \<Longrightarrow>
    xc_batch_size c = b \<and> 1 \<le> xc_capacity c \<and> 65536 \<le> xc_max_bytes c"
  by (auto simp: x_config_def bindR_eq_Inr)

lemma x_init_ok: "x_config b capacity max_bytes interval timeout pid = Inr c \<Longrightarrow> x_ok sz c x_init"
  by (drule x_config_Inr) (simp add: x_ok_def counts_ok_def worker_ok_def x_init_def waiting_events_def in_flight_def x_pending_def)

lemma x_runs_ok: "x_ok sz c (fst run) \<Longrightarrow> (\<And>v. 0 \<le> sz v) \<Longrightarrow> 1 \<le> xc_batch_size c \<Longrightarrow> x_ok sz c (fst (x_runs sz c send steps run))"
  unfolding x_runs_def
proof (induction steps arbitrary: run)
  case (Cons step steps)
  obtain x s taken where run: "run = (x, s, taken)" by (metis prod.collapse)
  show ?case using Cons.IH [of "x_step sz c send step run"] x_step_ok [OF _ Cons.prems(2,3), where x = x and send = send and step = step and s = s and taken = taken] Cons.prems by (simp add: run)
qed simp

text \<open>
  C36. No event is lost from sight and no bound is exceeded: after any interleaving of submissions, worker
  steps, flushes and closes, with any collector, every attempted event is acknowledged, failed, in the
  queue or in the batch being sent; the pending bytes are those of the latter two; and neither the
  pending events nor their bytes, now or at their peak, exceed the configured limits.
\<close>

theorem exporter_accounts_for_all:
  assumes "x_config b capacity max_bytes interval timeout pid = Inr c" and "1 \<le> b" and "\<And>v. 0 \<le> sz v"
    and "x_runs sz c send steps (x_init, s0, []) = (x, s, taken)"
  shows "x_attempted x = x_acknowledged x + x_failed x + int (length (in_flight x) + length (x_queue x)) \<and>
    x_pending_bytes x = sum_list (map sz (in_flight x @ map fst (x_queue x))) \<and>
    x_pending x \<le> xc_capacity c \<and> x_pending_bytes x \<le> xc_max_bytes c \<and> x_peak_events x \<le> xc_capacity c \<and> x_peak_bytes x \<le> xc_max_bytes c"
proof -
  have "x_ok sz c (fst (x_runs sz c send steps (x_init, s0, [])))"
    using x_init_ok [OF assms(1)] x_config_Inr [OF assms(1)] assms(2,3) by (intro x_runs_ok) simp_all
  then have "counts_ok sz c x" by (simp add: assms(4) x_ok_def)
  then show ?thesis by (simp add: counts_ok_def waiting_events_def x_pending_def)
qed

lemma direct_start: "direct.delivered sz agent session source run mx (x_init, (ts_init [] mx, faults), [])"
  by (rule direct.deliveredI(1) [of _ _ "[]"]) (simp_all add: x_init_def waiting_events_def in_flight_def store_log_def ts_init_def)

text \<open>
  C37. What the exporter calls acknowledged is stored, in order: with the span store as the collector, after
  any run the accepted events split into a prefix, as long as the count of acknowledged events, and the
  rest; the rows of the store are exactly those that the prefix leaves when its events are sent one by
  one; and when the health report is complete, the prefix is everything that was accepted and nothing
  that was attempted is missing.
\<close>

theorem acknowledged_is_stored:
  assumes "x_config b capacity max_bytes interval timeout pid = Inr c" and "1 \<le> b" and "\<And>v. 0 \<le> sz v"
    and "x_runs sz c (store_send sz agent session source run) steps (x_init, (ts_init [] mx, faults), []) = (x, (st, faults'), taken)"
  shows "\<exists>sent rest. taken = sent @ rest \<and> x_acknowledged x = int (length sent) \<and>
    ingest_each sz mx agent session source run sent [] = Inr (ts_rows st) \<and>
    (x_complete x \<longrightarrow> rest = [] \<and> x_attempted x = int (length taken))"
proof -
  let ?run = "x_runs sz c (store_send sz agent session source run) steps (x_init, (ts_init [] mx, faults), [])"
  have "direct.delivered sz agent session source run mx ?run \<and> x_ok sz c (fst ?run)"
    using direct_start x_init_ok [OF assms(1)] x_config_Inr [OF assms(1)] assms(2,3) by (intro direct.delivered_runs) simp_all
  then have del: "direct.delivered sz agent session source run mx (x, (st, faults'), taken)" and ok: "counts_ok sz c x" "worker_ok sz c x"
    using assms(4) by (simp_all add: x_ok_def)
  from del show ?thesis
  proof (cases rule: direct.deliveredE)
    case (live sent)
    then show ?thesis using ok(1)
      by (intro exI [of _ sent] exI [of _ "waiting_events x"]) (auto simp: store_log_def x_complete_def counts_ok_def x_pending_def)
  next
    case (broken sent extra rest)
    then have "\<not> x_complete x" using ok(2) by (auto simp: worker_ok_def x_complete_def split: worker.splits)
    then show ?thesis using broken by (intro exI [of _ sent] exI [of _ rest]) (simp add: store_log_def)
  qed
qed

lemma worker_frame:
  "x_attempted (worker_take sz c now x) = x_attempted x" "x_force_target (worker_take sz c now x) = x_force_target x"
  "x_attempted (worker_finish sz r dt x) = x_attempted x" "x_force_target (worker_finish sz r dt x) = x_force_target x"
  by (simp_all add: worker_take_def worker_finish_def Let_def split: list.split prod.split worker.split option.split)

lemma worker_take_sends:
  assumes "x_ok sz c x" and "x_attempted x \<le> x_force_target x" and "waiting_events x \<noteq> []"
  shows "\<exists>batch. x_worker (worker_take sz c now x) = Sending batch"
proof (cases "x_worker x")
  case Waiting
  then obtain p q where q: "x_queue x = p # q" using assms(3) by (cases "x_queue x") (auto simp: waiting_events_def in_flight_def)
  have "0 < x_pending x" using assms(1,3) by (simp add: x_ok_def counts_ok_def)
  then have "x_acknowledged x + x_failed x < x_force_target x" using assms(2) by (simp add: x_pending_def)
  then show ?thesis using Waiting q by (cases p) (auto simp: worker_take_def split: prod.split)
qed (use assms in \<open>auto simp: x_ok_def worker_ok_def worker_take_def waiting_events_def in_flight_def\<close>)

lemma worker_finish_decreases:
  assumes "x_ok sz c x" and "\<And>v. 0 \<le> sz v" and "x_worker x = Sending batch"
  shows "length (waiting_events (worker_finish sz r dt x)) < length (waiting_events x)"
proof -
  have "batch \<noteq> []" "waiting_events x = batch @ map fst (x_queue x)"
    using assms(1,3) by (simp_all add: x_ok_def worker_ok_def batch_ok_def waiting_events_def in_flight_def)
  then show ?thesis using worker_finish_ok [OF assms refl, of r dt] by (auto split: if_splits)
qed

definition worker_rounds :: "(rat \<times> int) list \<Rightarrow> xstep list" where
  "worker_rounds rounds = concat (map (\<lambda>(now, dt). [Take now, Finish dt]) rounds)"

lemma worker_round:
  assumes "x_ok sz c x" and "\<And>v. 0 \<le> sz v" and "1 \<le> xc_batch_size c" and "x_attempted x \<le> x_force_target x"
    and "x_runs sz c send [Take now, Finish dt] (x, s, taken) = (y, s', taken')"
  shows "x_ok sz c y \<and> x_attempted y = x_attempted x \<and> x_force_target y = x_force_target x \<and>
    length (waiting_events y) \<le> length (waiting_events x) - 1"
proof -
  let ?t = "worker_take sz c now x"
  note take = worker_take_ok [OF assms(1,3), of now]
  have ok: "x_ok sz c y" using x_runs_ok [of sz c "(x, s, taken)" send "[Take now, Finish dt]"] assms by simp
  have step: "x_step sz c send (Finish dt) (?t, s, taken) = (y, s', taken')" using assms(5) by (simp add: x_runs_def x_step_def)
  show ?thesis
  proof (cases "waiting_events x = []")
    case True
    then have "\<And>batch. x_worker ?t \<noteq> Sending batch"
      using take by (auto simp: x_ok_def worker_ok_def batch_ok_def waiting_events_def in_flight_def)
    then have "y = ?t" using step by (cases "x_worker ?t") (auto simp: x_step_def)
    then show ?thesis using ok take True by (simp add: worker_frame)
  next
    case False
    obtain batch where batch: "x_worker ?t = Sending batch" using worker_take_sends [OF assms(1,4) False] by blast
    obtain r s1 where "send batch s = (r, s1)" by fastforce
    then have "y = worker_finish sz r dt ?t" using step by (simp add: x_step_def batch)
    then show ?thesis using ok worker_finish_decreases [where sz = sz and c = c and r = r and dt = dt, OF _ assms(2) batch] take by (simp add: worker_frame)
  qed
qed

lemma worker_rounds_drain:
  assumes "\<And>v. 0 \<le> sz v" and "1 \<le> xc_batch_size c"
  shows "x_ok sz c x \<Longrightarrow> x_attempted x \<le> x_force_target x \<Longrightarrow> x_runs sz c send (worker_rounds rounds) (x, s, taken) = (y, s', taken') \<Longrightarrow>
    x_ok sz c y \<and> x_attempted y = x_attempted x \<and> length (waiting_events y) \<le> length (waiting_events x) - length rounds"
proof (induction rounds arbitrary: x s taken)
  case (Cons round rounds)
  obtain now dt where round: "round = (now, dt)" by (cases round)
  obtain x1 s1 t1 where first: "x_runs sz c send [Take now, Finish dt] (x, s, taken) = (x1, s1, t1)" by (metis prod.collapse)
  then have rest: "x_runs sz c send (worker_rounds rounds) (x1, s1, t1) = (y, s', taken')"
    using Cons.prems(3) by (simp add: worker_rounds_def round x_runs_def)
  note one = worker_round [OF Cons.prems(1) assms Cons.prems(2) first]
  show ?case using Cons.IH [OF _ _ rest] one Cons.prems(2) by auto
qed (simp add: worker_rounds_def x_runs_def)

text \<open>
  C38. A flush never hangs on the queue: from any reachable state, however slow or faulty the collector, as
  many rounds of the worker as there are pending events settle every event attempted before the flush,
  so that its next turn returns, with success unless an event has failed.
\<close>

theorem flush_completes:
  assumes "x_config b capacity max_bytes interval timeout pid = Inr c" and "1 \<le> b" and "\<And>v. 0 \<le> sz v"
    and "x_runs sz c send steps (x_init, s0, []) = (x, s, taken)" and "flush_begin x = (target, y)"
    and "x_pending x \<le> int (length rounds)" and "x_runs sz c send (worker_rounds rounds) (y, s, taken) = (z, s', taken')"
  shows "target \<le> x_acknowledged z + x_failed z \<and>
    flush_turn target now deadline z = Some (if x_failed z = 0 then Inr () else Inl (RuntimeError ''profiling durability barrier has failed events''))"
proof -
  have batch: "1 \<le> xc_batch_size c" using x_config_Inr [OF assms(1)] assms(2) by simp
  have "x_ok sz c x" using x_runs_ok [of sz c "(x_init, s0, [])" send steps] x_init_ok [OF assms(1)] assms(3,4) batch by simp
  moreover have "same_flow x y" using assms(5) same_flow_steps(3) [of x] by simp
  ultimately have y: "x_ok sz c y" "waiting_events y = waiting_events x" "x_ok sz c x" using same_flow_ok by blast+
  have target: "target = x_attempted y" "x_attempted y \<le> x_force_target y" using assms(5) by (auto simp: flush_begin_def)
  have drained: "x_ok sz c z \<and> x_attempted z = x_attempted y \<and> length (waiting_events z) \<le> length (waiting_events y) - length rounds"
    using worker_rounds_drain [OF assms(3) batch y(1) target(2) assms(7)] by simp
  have "int (length (waiting_events y)) = x_pending x" using y by (simp add: x_ok_def counts_ok_def)
  then have "length (waiting_events y) \<le> length rounds" using assms(6) by linarith
  then have "waiting_events z = []" using drained by simp
  then have "x_pending z = 0" using drained by (simp add: x_ok_def counts_ok_def)
  then have "target \<le> x_acknowledged z + x_failed z" using drained target(1) by (simp add: x_pending_def)
  then show ?thesis by (simp add: flush_turn_def)
qed

text \<open>
  What the exporter's reserve of 64 bytes and two per event relies on: the text of an envelope is no longer
  than the texts of its events, a separator for each and the fixed part.
\<close>

definition envelope_reserve :: "(json \<Rightarrow> int) \<Rightarrow> bool" where
  "envelope_reserve sz = (\<forall>evs. evs = [] \<or> sz (batch_envelope evs) \<le> 64 + sum_list (map (\<lambda>ev. sz ev + 2) evs))"

text \<open>
  C39. The collector's envelope checks never fail on what the exporter sends: for every batch in flight, of a
  batch size of 1 to 64 and with texts that fit the reserve of an envelope, the count, the keys, the encoding
  and the size of the envelope are accepted, so the answer is that of the first event which is not a start
  or end event, an exception, or the batch itself. The exporter looks into no event, so that this last
  check is the one which can fail.
\<close>

theorem exporter_batches_admissible:
  assumes "x_config b capacity max_bytes interval timeout pid = Inr c" and "1 \<le> b" and "b \<le> 64" and "\<And>v. 0 \<le> sz v"
    and "x_runs sz c send steps (x_init, s0, []) = (x, s, taken)" and "x_worker x = Sending batch" and "envelope_reserve sz"
  shows "batch_events sz [(''event'', JStr ''batch''), (''events'', JList batch)] =
    (case mapR batch_event batch of Inl e \<Rightarrow> Inl e | Inr _ \<Rightarrow> Inr batch)"
proof -
  let ?d = "[(''event'', JStr ''batch''), (''events'', JList batch)]"
  have cfg: "xc_batch_size c = b" using x_config_Inr [OF assms(1)] by simp
  have "x_ok sz c x" using x_runs_ok [of sz c "(x_init, s0, [])" send steps] x_init_ok [OF assms(1)] assms(2,4,5) cfg by simp
  then have ok: "batch_ok sz c batch" "list_all (submittable sz) batch"
    using assms(6) by (simp_all add: x_ok_def worker_ok_def counts_ok_def waiting_events_def in_flight_def)
  have "sz (JObj ?d) \<le> 65536" using ok(1) assms(7) unfolding envelope_reserve_def by (auto simp: batch_ok_def batch_envelope_def dest: spec [of _ batch])
  moreover have "encodable (JObj ?d)" using ok(2) by (simp add: list_all_iff submittable_def)
  moreover have "1 \<le> length batch" "length batch \<le> 64" using ok(1) cfg assms(3) by (cases batch; simp add: batch_ok_def)+
  ultimately show ?thesis by (auto simp: batch_events_def dict_get_def bindR_def split: sum.splits)
qed

section \<open>Concrete runs\<close>

definition demo_config :: xconfig where
  "demo_config = \<lparr>xc_batch_size = 2, xc_capacity = 8, xc_max_bytes = 65536, xc_interval = 1, xc_timeout = 5, xc_pid = 1\<rparr>"

definition demo_submits :: "xstep list" where
  "demo_submits = [Submit (demo_start ''p'' JNull) False 0 5 0, Submit (demo_start ''q'' (JStr ''p'')) False 0 5 0, Submit (demo_end ''q'') False 0 5 0]"

abbreviation demo_send :: "json list \<Rightarrow> (tstore \<times> error option list, json) op" where
  "demo_send \<equiv> store_send (\<lambda>_. 100) (JStr ''a'') (JStr ''s'') ''x'' None"

definition demo_run :: "xstep list \<Rightarrow> (tstore \<times> error option list) xrun" where
  "demo_run steps = x_runs (\<lambda>_. 100) demo_config demo_send steps (x_init, (ts_init [] 9, []), [])"

lemma demo_config_ok: "x_config 2 8 65536 1 5 1 = Inr demo_config"
  by (simp add: x_config_def demo_config_def)

lemma demo_runs:
  "x_worker (fst (demo_run (demo_submits @ [Take 0]))) = Sending [demo_start ''p'' JNull, demo_start ''q'' (JStr ''p'')]"
  "x_acknowledged (fst (demo_run (demo_submits @ [Take 0, Finish 0]))) = 2"
  "x_pending (fst (demo_run (demo_submits @ [Take 0, Finish 0]))) = 1"
  by code_simp+

lemma demo_run_parts: "x_runs (\<lambda>_. 100) demo_config demo_send steps (x_init, (ts_init [] 9, []), []) =
    (fst (demo_run steps), (fst (fst (snd (demo_run steps))), snd (fst (snd (demo_run steps)))), snd (snd (demo_run steps)))"
  by (simp add: demo_run_def)

theorem exporter_accounts_for_all_witness:
  "x_attempted (fst (demo_run (demo_submits @ [Take 0, Finish 0]))) = x_acknowledged (fst (demo_run (demo_submits @ [Take 0, Finish 0]))) +
     x_failed (fst (demo_run (demo_submits @ [Take 0, Finish 0]))) +
     int (length (in_flight (fst (demo_run (demo_submits @ [Take 0, Finish 0])))) + length (x_queue (fst (demo_run (demo_submits @ [Take 0, Finish 0])))))"
  using exporter_accounts_for_all [OF demo_config_ok _ _ demo_run_parts] by simp

theorem acknowledged_is_stored_witness:
  "\<exists>sent rest. snd (snd (demo_run (demo_submits @ [Take 0, Finish 0]))) = sent @ rest \<and> length sent = 2 \<and>
     ingest_each (\<lambda>_. 100) 9 (JStr ''a'') (JStr ''s'') ''x'' None sent [] = Inr (ts_rows (fst (fst (snd (demo_run (demo_submits @ [Take 0, Finish 0]))))))"
  using acknowledged_is_stored [OF demo_config_ok _ _ demo_run_parts [of "demo_submits @ [Take 0, Finish 0]"]] demo_runs(2) by auto

theorem flush_completes_witness:
  "\<exists>z. flush_turn 3 0 5 z = Some (if x_failed z = 0 then Inr () else Inl (RuntimeError ''profiling durability barrier has failed events''))"
proof -
  let ?r = "demo_run (demo_submits @ [Take 0, Finish 0])"
  obtain z s' taken' where rounds: "x_runs (\<lambda>_. 100) demo_config demo_send (worker_rounds [(0, 0)])
      (snd (flush_begin (fst ?r)), (fst (fst (snd ?r)), snd (fst (snd ?r))), snd (snd ?r)) = (z, s', taken')"
    by (metis prod.collapse)
  have begin_flush: "flush_begin (fst ?r) = (3, snd (flush_begin (fst ?r)))" by code_simp
  show ?thesis
    by (rule exI [of _ z], rule conjunct2, rule flush_completes [OF demo_config_ok _ _ demo_run_parts begin_flush _ rounds, of 0 5])
      (simp_all add: demo_runs(3))
qed

theorem exporter_batches_admissible_witness:
  "batch_events (\<lambda>_. 100) [(''event'', JStr ''batch''), (''events'', JList [demo_start ''p'' JNull, demo_start ''q'' (JStr ''p'')])] =
     Inr [demo_start ''p'' JNull, demo_start ''q'' (JStr ''p'')]"
proof -
  have reserve: "envelope_reserve (\<lambda>_. 100)"
    unfolding envelope_reserve_def
  proof
    fix evs :: "json list"
    show "evs = [] \<or> 100 \<le> 64 + (\<Sum>ev \<leftarrow> evs. 100 + 2 :: int)" by (cases evs) (simp_all add: sum_list_triv)
  qed
  have "mapR batch_event [demo_start ''p'' JNull, demo_start ''q'' (JStr ''p'')] = Inr [(), ()]" by code_simp
  then show ?thesis using exporter_batches_admissible [OF demo_config_ok _ _ _ demo_run_parts demo_runs(1) reserve] by simp
qed

end
