(* ===== verification/Spec2Isabelle.thy ===== *)
theory Spec2Isabelle
  imports Rollback_Recovery Turn_Lifecycle Daemon_Config Process_Properties Session_Network Trace_Profile Trace_Exporter
begin

text \<open>
  Verification of the AllOx workspace core.
\<close>

end
